theory Spec2Isabelle
  imports Complex_Main
begin

section \<open>The notebook \<open>examples/fit-hmm.ipynb\<close>\<close>

text \<open>
  The repository slice is one Jupyter notebook that drives the \<open>glmhmm\<close> package:
  it instantiates a model object, simulates data, fits the model from several random
  initializations, picks the best fit, splits the data into folds, fits every fold and
  scores the held-out data. The notebook is embedded cell by cell as state passing over
  a record of the notebook's variables. A cell that raises leaves the variables as
  they were at the raise, as a Jupyter kernel does, and stops the run.

  The package itself (\<open>hmm.HMM\<close>, \<open>find_best_fit\<close>) is not part of the slice.
  The notebook model takes the package as a parameter, a record of functions; the
  second part of the theory models the package's fitting core from the specification.
\<close>

subsection \<open>Values and errors\<close>

type_synonym obs = nat
type_synonym vec = "real list"
type_synonym mat = "real list list"

datatype error =
    ValueError
  | ZeroDivisionError
  | IndexError
  | DimensionMismatch
  | NonFiniteLikelihood

subsection \<open>The numpy operations the notebook uses\<close>

text \<open>\<open>np.zeros((r, w))\<close>.\<close>

definition zeros2 :: "nat \<Rightarrow> nat \<Rightarrow> 'a::zero list list" where
  "zeros2 r w = replicate r (replicate w 0)"

text \<open>\<open>np.zeros((p, r, w))\<close> and \<open>np.zeros((q, p, r, w))\<close>.\<close>

definition zeros3 :: "nat \<Rightarrow> nat \<Rightarrow> nat \<Rightarrow> 'a::zero list list list" where
  "zeros3 p r w = replicate p (zeros2 r w)"

definition zeros4 :: "nat \<Rightarrow> nat \<Rightarrow> nat \<Rightarrow> nat \<Rightarrow> 'a::zero list list list list" where
  "zeros4 q p r w = replicate q (zeros3 p r w)"

text \<open>
  Assigning a one-dimensional value to a slice of width \<open>w\<close> broadcasts: the value
  must have \<open>w\<close> entries, or one entry, which then fills the slice; any other length
  raises \<open>ValueError\<close>.
\<close>

definition broadcast_to :: "nat \<Rightarrow> 'a list \<Rightarrow> error + 'a list" where
  "broadcast_to w v =
     (if length v = w then Inr v
      else if length v = 1 then Inr (replicate w (hd v))
      else Inl ValueError)"

text \<open>\<open>M[i,:] = v\<close> for a two-dimensional \<open>M\<close>.\<close>

definition assign_row :: "'a list list \<Rightarrow> nat \<Rightarrow> 'a list \<Rightarrow> error + 'a list list" where
  "assign_row M i v =
     (if i < length M then
        (case broadcast_to (length (M ! i)) v of
           Inl e \<Rightarrow> Inl e
         | Inr r \<Rightarrow> Inr (M[i := r]))
      else Inl IndexError)"

text \<open>
  The same rule in two dimensions, for a value of shape \<open>(a, b)\<close> assigned to a slice
  of shape \<open>(r, w)\<close>: \<open>a\<close> is \<open>r\<close> or 1, and every row is broadcast to width \<open>w\<close>.
\<close>

primrec broadcast_rows :: "nat \<Rightarrow> 'a list list \<Rightarrow> error + 'a list list" where
  "broadcast_rows w [] = Inr []"
| "broadcast_rows w (x # xs) =
     (case broadcast_to w x of
        Inl e \<Rightarrow> Inl e
      | Inr x' \<Rightarrow>
          (case broadcast_rows w xs of
             Inl e \<Rightarrow> Inl e
           | Inr xs' \<Rightarrow> Inr (x' # xs')))"

definition broadcast_to2 :: "nat \<Rightarrow> nat \<Rightarrow> 'a list list \<Rightarrow> error + 'a list list" where
  "broadcast_to2 r w V =
     (case broadcast_rows w V of
        Inl e \<Rightarrow> Inl e
      | Inr V' \<Rightarrow>
          (if length V' = r then Inr V'
           else if length V' = 1 then Inr (replicate r (hd V'))
           else Inl ValueError))"

text \<open>\<open>T[i,:,:] = V\<close> for a three-dimensional \<open>T\<close> whose blocks have shape \<open>(r, w)\<close>.\<close>

definition assign_mat :: "nat \<Rightarrow> nat \<Rightarrow> 'a list list list \<Rightarrow> nat \<Rightarrow> 'a list list \<Rightarrow> error + 'a list list list" where
  "assign_mat r w T i V =
     (if i < length T then
        (case broadcast_to2 r w V of
           Inl e \<Rightarrow> Inl e
         | Inr V' \<Rightarrow> Inr (T[i := V']))
      else Inl IndexError)"

text \<open>\<open>Q[i,j,:,:] = V\<close> for a four-dimensional \<open>Q\<close>.\<close>

definition assign_mat4 :: "nat \<Rightarrow> nat \<Rightarrow> 'a list list list list \<Rightarrow> nat \<Rightarrow> nat \<Rightarrow> 'a list list \<Rightarrow> error + 'a list list list list" where
  "assign_mat4 r w Q i j V =
     (if i < length Q then
        (case assign_mat r w (Q ! i) j V of
           Inl e \<Rightarrow> Inl e
         | Inr T' \<Rightarrow> Inr (Q[i := T']))
      else Inl IndexError)"

text \<open>
  \<open>np.mean\<close> of a one-dimensional array; the mean of an empty array is \<open>nan\<close>,
  which is \<open>None\<close> here.
\<close>

definition mean :: "real list \<Rightarrow> real option" where
  "mean xs = (if xs = [] then None else Some (sum_list xs / real (length xs)))"

text \<open>Indexing an array by an array of indices: \<open>y[idx]\<close>.\<close>

definition take_indices :: "'a list \<Rightarrow> nat list \<Rightarrow> error + 'a list" where
  "take_indices y idx =
     (if \<forall>j \<in> set idx. j < length y then Inr (map (\<lambda>j. y ! j) idx) else Inl IndexError)"

subsection \<open>scikit-learn's \<open>KFold\<close>\<close>

text \<open>
  \<open>KFold(n_splits=k)\<close> without shuffling, as scikit-learn documents it: it needs
  \<open>k \<ge> 2\<close>; \<open>split\<close> of \<open>m\<close> samples needs \<open>k \<le> m\<close>; the first \<open>m mod k\<close>
  folds have \<open>m div k + 1\<close> samples and the others \<open>m div k\<close>; the test indices of
  the folds are consecutive blocks, and the train indices of a fold are all the other
  indices in increasing order.
\<close>

definition fold_sizes :: "nat \<Rightarrow> nat \<Rightarrow> nat list" where
  "fold_sizes k m = map (\<lambda>i. m div k + (if i < m mod k then 1 else 0)) [0..<k]"

primrec kfold_from :: "nat \<Rightarrow> nat \<Rightarrow> nat list \<Rightarrow> (nat list \<times> nat list) list" where
  "kfold_from cur m [] = []"
| "kfold_from cur m (sz # szs) =
     (filter (\<lambda>j. \<not> (cur \<le> j \<and> j < cur + sz)) [0..<m], [cur..<cur + sz])
       # kfold_from (cur + sz) m szs"

definition KFold_split :: "nat \<Rightarrow> nat \<Rightarrow> error + (nat list \<times> nat list) list" where
  "KFold_split k m =
     (if k \<le> 1 then Inl ValueError
      else if m < k then Inl ValueError
      else Inr (kfold_from 0 m (fold_sizes k m)))"

subsection \<open>The model object and the package interface\<close>

text \<open>
  \<open>hmm.HMM(N,0,C,K)\<close>: the object's fields, of which the notebook reassigns \<open>n\<close>
  (\<open>true_HMM.n = train_size\<close>). The fields are named \<open>hmm_n\<close>, \<open>hmm_d\<close>, \<open>hmm_c\<close>,
  \<open>hmm_k\<close> here.
\<close>

record HMM =
  hmm_n :: nat
  hmm_d :: nat
  hmm_c :: nat
  hmm_k :: nat

text \<open>
  The package's methods as the notebook calls them. Every method receives the object
  it is called on. The two random methods also receive the number of random draws
  made so far, which stands for the state of the random generator.
\<close>

record library =
  lib_generate_params :: "HMM \<Rightarrow> nat \<Rightarrow> mat \<times> mat \<times> vec"
  lib_generate_data :: "HMM \<Rightarrow> nat \<Rightarrow> mat \<Rightarrow> mat \<Rightarrow> obs list \<times> nat list"
  lib_fit :: "HMM \<Rightarrow> obs list \<Rightarrow> mat \<Rightarrow> mat \<Rightarrow> error + (real list \<times> mat \<times> mat \<times> vec)"
  lib_forwardPass :: "HMM \<Rightarrow> obs list \<Rightarrow> mat \<Rightarrow> mat \<Rightarrow> vec option \<Rightarrow> error + (real \<times> mat \<times> vec)"
  lib_find_best_fit :: "real list list \<Rightarrow> error + nat"

subsection \<open>The notebook's variables\<close>

text \<open>
  The literals of the notebook: \<open>N = 20000\<close>, \<open>K = 2\<close>, \<open>C = 2\<close>, \<open>inits = 2\<close> (set
  in the fitting cell and again in the cross-validation cell) and \<open>folds = 5\<close>.
\<close>

record config =
  cfg_N :: nat
  cfg_K :: nat
  cfg_C :: nat
  cfg_inits :: nat
  cfg_inits_cv :: nat
  cfg_folds :: nat

definition notebook_config :: config where
  "notebook_config =
     \<lparr>cfg_N = 20000, cfg_K = 2, cfg_C = 2, cfg_inits = 2, cfg_inits_cv = 2, cfg_folds = 5\<rparr>"

text \<open>A call of \<open>fit\<close> or \<open>forwardPass\<close>: the object at the call and the sequence passed.\<close>

datatype call = Call_fit HMM "obs list" | Call_forwardPass HMM "obs list"

text \<open>
  The name \<open>A_all\<close> (and \<open>phi_all\<close>) is bound to a three-dimensional array in the
  fitting cell and rebound to a four-dimensional one in the cross-validation cell;
  the record keeps the two in separate fields (\<open>A_all\<close>, \<open>A_all_cv\<close>). \<open>draws\<close>
  counts the random draws made and \<open>calls\<close> records the calls of \<open>fit\<close> and
  \<open>forwardPass\<close> in order; \<open>mean_true_ll\<close> and \<open>mean_fit_ll\<close> are the two printed
  numbers.
\<close>

record nb_state =
  true_HMM :: HMM
  A_true :: mat
  phi_true :: mat
  pi_true :: vec
  true_y :: "obs list"
  true_z :: "nat list"
  lls_all :: "real list list"
  A_all :: "mat list"
  phi_all :: "mat list"
  pi0 :: vec
  bestix :: nat
  train_size :: nat
  test_size :: nat
  y_train :: "obs list list"
  y_test :: "obs list list"
  A_all_cv :: "mat list list"
  phi_all_cv :: "mat list list"
  true_ll :: "real list"
  fit_ll :: "real list"
  mean_true_ll :: "real option"
  mean_fit_ll :: "real option"
  draws :: nat
  calls :: "call list"

definition initial_state :: nb_state where
  "initial_state =
     \<lparr>true_HMM = \<lparr>hmm_n = 0, hmm_d = 0, hmm_c = 0, hmm_k = 0\<rparr>,
      A_true = [], phi_true = [], pi_true = [], true_y = [], true_z = [],
      lls_all = [], A_all = [], phi_all = [], pi0 = [], bestix = 0,
      train_size = 0, test_size = 0, y_train = [], y_test = [],
      A_all_cv = [], phi_all_cv = [], true_ll = [], fit_ll = [],
      mean_true_ll = None, mean_fit_ll = None, draws = 0, calls = []\<rparr>"

type_synonym cell = "nb_state \<Rightarrow> error option \<times> nb_state"

text \<open>Running one piece of code after another, and a \<open>for\<close> loop over a range.\<close>

definition and_then :: "cell \<Rightarrow> cell \<Rightarrow> cell" where
  "and_then f g s = (case f s of (None, s') \<Rightarrow> g s' | (Some e, s') \<Rightarrow> (Some e, s'))"

primrec for_each :: "nat list \<Rightarrow> (nat \<Rightarrow> cell) \<Rightarrow> cell" where
  "for_each [] body s = (None, s)"
| "for_each (i # is) body s =
     (case body i s of (None, s') \<Rightarrow> for_each is body s' | (Some e, s') \<Rightarrow> (Some e, s'))"

subsection \<open>The cells\<close>

text \<open>
  Cell 3: \<open>true_HMM = hmm.HMM(N,0,C,K)\<close> and
  \<open>A_true,phi_true,pi_true = true_HMM.generate_params()\<close>. The constructor is not in
  the slice; its first argument is the number of data points, the field \<open>n\<close> that the
  notebook later resets.
\<close>

definition cell_instantiate :: "config \<Rightarrow> library \<Rightarrow> cell" where
  "cell_instantiate cfg L s =
     (let h = \<lparr>hmm_n = cfg_N cfg, hmm_d = 0, hmm_c = cfg_C cfg, hmm_k = cfg_K cfg\<rparr>
      in case lib_generate_params L h (draws s) of
           (A, phi, p) \<Rightarrow>
             (None, s\<lparr>true_HMM := h, A_true := A, phi_true := phi, pi_true := p,
                       draws := Suc (draws s)\<rparr>))"

text \<open>Cell 4: \<open>true_y,true_z = true_HMM.generate_data(A_true,phi_true)\<close>.\<close>

definition cell_generate_data :: "library \<Rightarrow> cell" where
  "cell_generate_data L s =
     (case lib_generate_data L (true_HMM s) (draws s) (A_true s) (phi_true s) of
        (y, z) \<Rightarrow> (None, s\<lparr>true_y := y, true_z := z, draws := Suc (draws s)\<rparr>))"

text \<open>
  Cell 5, the assignment
  \<open>lls_all[i,:],A_all[i,:,:],phi_all[i,:,:],pi0 = true_HMM.fit(true_y,A_init,phi_init)\<close>:
  the targets are assigned from left to right, and a target that raises leaves the
  earlier ones assigned.
\<close>

definition store_fit :: "config \<Rightarrow> nat \<Rightarrow> real list \<Rightarrow> mat \<Rightarrow> mat \<Rightarrow> vec \<Rightarrow> cell" where
  "store_fit cfg i lls A phi p0 s =
     (case assign_row (lls_all s) i lls of
        Inl e \<Rightarrow> (Some e, s)
      | Inr l' \<Rightarrow>
          (let s1 = s\<lparr>lls_all := l'\<rparr>
           in case assign_mat (cfg_K cfg) (cfg_K cfg) (A_all s1) i A of
                Inl e \<Rightarrow> (Some e, s1)
              | Inr a' \<Rightarrow>
                  (let s2 = s1\<lparr>A_all := a'\<rparr>
                   in case assign_mat (cfg_K cfg) (cfg_C cfg) (phi_all s2) i phi of
                        Inl e \<Rightarrow> (Some e, s2)
                      | Inr p' \<Rightarrow> (None, s2\<lparr>phi_all := p', pi0 := p0\<rparr>))))"

text \<open>Cell 5, the body of the loop over the initializations.\<close>

definition fit_init :: "config \<Rightarrow> library \<Rightarrow> nat \<Rightarrow> cell" where
  "fit_init cfg L i s =
     (case lib_generate_params L (true_HMM s) (draws s) of
        (A_init, phi_init, pi_init) \<Rightarrow>
          (let s1 = s\<lparr>draws := Suc (draws s),
                      calls := calls s @ [Call_fit (true_HMM s) (true_y s)]\<rparr>
           in case lib_fit L (true_HMM s) (true_y s) A_init phi_init of
                Inl e \<Rightarrow> (Some e, s1)
              | Inr (lls, A, phi, p0) \<Rightarrow> store_fit cfg i lls A phi p0 s1))"

text \<open>
  Cell 5: \<open>lls_all = np.zeros((inits,250))\<close>, \<open>A_all = np.zeros((inits,K,K))\<close>,
  \<open>phi_all = np.zeros((inits,K,C))\<close>, then the loop. \<open>lls_width\<close> is the literal
  250, the width of a row of \<open>lls_all\<close>.
\<close>

definition lls_width :: nat where
  "lls_width = 250"

definition cell_fit :: "config \<Rightarrow> library \<Rightarrow> cell" where
  "cell_fit cfg L =
     and_then
       (\<lambda>s. (None, s\<lparr>lls_all := zeros2 (cfg_inits cfg) lls_width,
                      A_all := zeros3 (cfg_inits cfg) (cfg_K cfg) (cfg_K cfg),
                      phi_all := zeros3 (cfg_inits cfg) (cfg_K cfg) (cfg_C cfg)\<rparr>))
       (for_each [0..<cfg_inits cfg] (fit_init cfg L))"

text \<open>
  Cell 6: \<open>bestix = find_best_fit(lls_all)\<close>, then \<open>A_all[bestix]\<close> and
  \<open>phi_all[bestix]\<close> are read for display. The display itself (permuting the states
  and plotting) changes no variable that a later cell reads and is left out.
\<close>

definition cell_best_fit :: "library \<Rightarrow> cell" where
  "cell_best_fit L s =
     (case lib_find_best_fit L (lls_all s) of
        Inl e \<Rightarrow> (Some e, s)
      | Inr b \<Rightarrow>
          (let s1 = s\<lparr>bestix := b\<rparr>
           in if b < length (A_all s1) \<and> b < length (phi_all s1) then (None, s1)
              else (Some IndexError, s1)))"

text \<open>
  Cell 7, the body of the loop over \<open>enumerate(kf.split(true_y))\<close>:
  \<open>y_train[i,:], y_test[i,:] = true_y[train_index], true_y[test_index]\<close>. The right
  side is evaluated first; then \<open>y_train[i,:]\<close> is assigned, then \<open>y_test[i,:]\<close>.
\<close>

definition assemble_fold :: "(nat list \<times> nat list) list \<Rightarrow> nat \<Rightarrow> cell" where
  "assemble_fold splits i s =
     (case splits ! i of
        (train_index, test_index) \<Rightarrow>
          (case take_indices (true_y s) train_index of
             Inl e \<Rightarrow> (Some e, s)
           | Inr tr \<Rightarrow>
               (case take_indices (true_y s) test_index of
                  Inl e \<Rightarrow> (Some e, s)
                | Inr te \<Rightarrow>
                    (case assign_row (y_train s) i tr of
                       Inl e \<Rightarrow> (Some e, s)
                     | Inr ytr \<Rightarrow>
                         (let s1 = s\<lparr>y_train := ytr\<rparr>
                          in case assign_row (y_test s1) i te of
                               Inl e \<Rightarrow> (Some e, s1)
                             | Inr yte \<Rightarrow> (None, s1\<lparr>y_test := yte\<rparr>))))))"

text \<open>
  Cell 7: \<open>train_size = int(N - N/folds)\<close>, \<open>test_size = int(N/folds)\<close>, the two
  arrays of zeros, \<open>kf = KFold(n_splits=folds)\<close> and the loop. Python's \<open>/\<close> is
  the true quotient, taken here over the rationals (the floating-point quotient of the
  notebook has the same integer part for every \<open>N\<close> far below \<open>2^53\<close>), and \<open>int\<close>
  truncates, which is \<open>floor\<close> on these non-negative values.
\<close>

definition cell_split :: "config \<Rightarrow> cell" where
  "cell_split cfg s =
     (if cfg_folds cfg = 0 then (Some ZeroDivisionError, s)
      else
        (let tr = nat \<lfloor>(of_nat (cfg_N cfg) :: rat) - of_nat (cfg_N cfg) / of_nat (cfg_folds cfg)\<rfloor>;
             te = nat \<lfloor>(of_nat (cfg_N cfg) :: rat) / of_nat (cfg_folds cfg)\<rfloor>;
             s1 = s\<lparr>train_size := tr, test_size := te,
                     y_train := zeros2 (cfg_folds cfg) tr,
                     y_test := zeros2 (cfg_folds cfg) te\<rparr>
         in case KFold_split (cfg_folds cfg) (length (true_y s1)) of
              Inl e \<Rightarrow> (Some e, s1)
            | Inr splits \<Rightarrow> for_each [0..<length splits] (assemble_fold splits) s1))"

text \<open>
  Cell 8, the body of the inner loop:
  \<open>_,A_all[i,j,:,:],phi_all[i,j,:,:],pi0 = true_HMM.fit(y_train[i,:],A_init,phi_init)\<close>.
  The trajectory that \<open>fit\<close> returns is bound to \<open>_\<close> and never read.
\<close>

definition fit_fold_init :: "config \<Rightarrow> library \<Rightarrow> nat \<Rightarrow> nat \<Rightarrow> cell" where
  "fit_fold_init cfg L i j s =
     (case lib_generate_params L (true_HMM s) (draws s) of
        (A_init, phi_init, pi_init) \<Rightarrow>
          (let s0 = s\<lparr>draws := Suc (draws s)\<rparr>
           in if i < length (y_train s0) then
                (let y = y_train s0 ! i;
                     s1 = s0\<lparr>calls := calls s0 @ [Call_fit (true_HMM s0) y]\<rparr>
                 in case lib_fit L (true_HMM s0) y A_init phi_init of
                      Inl e \<Rightarrow> (Some e, s1)
                    | Inr (lls, A, phi, p0) \<Rightarrow>
                        (case assign_mat4 (cfg_K cfg) (cfg_K cfg) (A_all_cv s1) i j A of
                           Inl e \<Rightarrow> (Some e, s1)
                         | Inr a' \<Rightarrow>
                             (let s2 = s1\<lparr>A_all_cv := a'\<rparr>
                              in case assign_mat4 (cfg_K cfg) (cfg_C cfg) (phi_all_cv s2) i j phi of
                                   Inl e \<Rightarrow> (Some e, s2)
                                 | Inr p' \<Rightarrow> (None, s2\<lparr>phi_all_cv := p', pi0 := p0\<rparr>))))
              else (Some IndexError, s0)))"

text \<open>
  Cell 8: \<open>true_HMM.n = train_size\<close>, the two four-dimensional arrays of zeros and
  the loops over the folds and the initializations.
\<close>

definition cell_cv_fit :: "config \<Rightarrow> library \<Rightarrow> cell" where
  "cell_cv_fit cfg L =
     and_then
       (\<lambda>s. (None, s\<lparr>true_HMM := (true_HMM s)\<lparr>hmm_n := train_size s\<rparr>,
                      A_all_cv := zeros4 (cfg_folds cfg) (cfg_inits_cv cfg) (cfg_K cfg) (cfg_K cfg),
                      phi_all_cv := zeros4 (cfg_folds cfg) (cfg_inits_cv cfg) (cfg_K cfg) (cfg_C cfg)\<rparr>))
       (for_each [0..<cfg_folds cfg]
          (\<lambda>i. for_each [0..<cfg_inits_cv cfg] (fit_fold_init cfg L i)))"

text \<open>
  Cell 9, the body of the loop:
  \<open>true_ll[i],_,_ = true_HMM.forwardPass(y_test[i,:],A_true,phi_true,pi0=None)\<close> and
  \<open>fit_ll[i],_,_ = true_HMM.forwardPass(y_test[i,:],A_all[i,bestix],phi_all[i,bestix])\<close>.
  The second call leaves \<open>pi0\<close> out; its default is taken to be \<open>None\<close>, the value
  the first call passes.
\<close>

definition score_fold :: "library \<Rightarrow> nat \<Rightarrow> cell" where
  "score_fold L i s =
     (if i < length (y_test s) then
        (let y = y_test s ! i;
             s1 = s\<lparr>calls := calls s @ [Call_forwardPass (true_HMM s) y]\<rparr>
         in case lib_forwardPass L (true_HMM s) y (A_true s) (phi_true s) None of
              Inl e \<Rightarrow> (Some e, s1)
            | Inr (ll, al, cs) \<Rightarrow>
                if i < length (true_ll s1) then
                  (let s2 = s1\<lparr>true_ll := (true_ll s1)[i := ll]\<rparr>
                   in if i < length (A_all_cv s2) \<and> bestix s2 < length (A_all_cv s2 ! i)
                         \<and> i < length (phi_all_cv s2) \<and> bestix s2 < length (phi_all_cv s2 ! i)
                      then
                        (let s3 = s2\<lparr>calls := calls s2 @ [Call_forwardPass (true_HMM s2) y]\<rparr>
                         in case lib_forwardPass L (true_HMM s2) y
                                   (A_all_cv s2 ! i ! bestix s2) (phi_all_cv s2 ! i ! bestix s2) None of
                              Inl e \<Rightarrow> (Some e, s3)
                            | Inr (ll', al', cs') \<Rightarrow>
                                if i < length (fit_ll s3)
                                then (None, s3\<lparr>fit_ll := (fit_ll s3)[i := ll']\<rparr>)
                                else (Some IndexError, s3))
                      else (Some IndexError, s2))
                else (Some IndexError, s1))
      else (Some IndexError, s))"

text \<open>
  Cell 9: \<open>true_HMM.n = test_size\<close>, \<open>true_ll = np.zeros(folds)\<close>,
  \<open>fit_ll = np.zeros(folds)\<close>, the loop over the folds, and the two printed means.
\<close>

definition cell_score :: "config \<Rightarrow> library \<Rightarrow> cell" where
  "cell_score cfg L =
     and_then
       (\<lambda>s. (None, s\<lparr>true_HMM := (true_HMM s)\<lparr>hmm_n := test_size s\<rparr>,
                      true_ll := replicate (cfg_folds cfg) 0,
                      fit_ll := replicate (cfg_folds cfg) 0\<rparr>))
       (and_then
          (for_each [0..<cfg_folds cfg] (score_fold L))
          (\<lambda>s. (None, s\<lparr>mean_true_ll := mean (true_ll s), mean_fit_ll := mean (fit_ll s)\<rparr>)))"

text \<open>The notebook, run from top to bottom.\<close>

definition run_notebook :: "config \<Rightarrow> library \<Rightarrow> error option \<times> nb_state" where
  "run_notebook cfg L =
     and_then (cell_instantiate cfg L)
       (and_then (cell_generate_data L)
          (and_then (cell_fit cfg L)
             (and_then (cell_best_fit L)
                (and_then (cell_split cfg)
                   (and_then (cell_cv_fit cfg L) (cell_score cfg L))))))
       initial_state"

subsection \<open>Shapes after the split\<close>

text \<open>
  The shapes that cell 7 is meant to leave behind: \<open>train_size\<close> and \<open>test_size\<close>,
  and the two arrays with one row per fold, of widths \<open>N - N div folds\<close> and
  \<open>N div folds\<close>.
\<close>

definition split_shapes :: "config \<Rightarrow> nb_state \<Rightarrow> bool" where
  "split_shapes cfg t \<longleftrightarrow>
     train_size t = cfg_N cfg - cfg_N cfg div cfg_folds cfg \<and>
     test_size t = cfg_N cfg div cfg_folds cfg \<and>
     length (y_train t) = cfg_folds cfg \<and>
     (\<forall>r \<in> set (y_train t). length r = cfg_N cfg - cfg_N cfg div cfg_folds cfg) \<and>
     length (y_test t) = cfg_folds cfg \<and>
     (\<forall>r \<in> set (y_test t). length r = cfg_N cfg div cfg_folds cfg)"

subsection \<open>A small configuration\<close>

text \<open>
  The notebook's configuration scaled down to six data points and three folds, small
  enough to run the model on.
\<close>

definition demo_config :: config where
  "demo_config =
     \<lparr>cfg_N = 6, cfg_K = 2, cfg_C = 2, cfg_inits = 2, cfg_inits_cv = 2, cfg_folds = 3\<rparr>"

subsection \<open>The call discipline\<close>

text \<open>
  A call of \<open>fit\<close> or \<open>forwardPass\<close> is made with the object's field \<open>n\<close> equal to the
  length of the sequence it is given.
\<close>

fun n_matches :: "call \<Rightarrow> bool" where
  "n_matches (Call_fit h y) \<longleftrightarrow> hmm_n h = length y"
| "n_matches (Call_forwardPass h y) \<longleftrightarrow> hmm_n h = length y"

definition calls_ok :: "nb_state \<Rightarrow> bool" where
  "calls_ok s \<longleftrightarrow> (\<forall>c \<in> set (calls s). n_matches c)"

text \<open>
  \<open>establishes P f Q\<close>: started in a state with \<open>P\<close>, the code \<open>f\<close> ends, whether it
  raises or not, in a state whose recorded calls all match, and with \<open>Q\<close> when it
  does not raise.
\<close>

definition establishes :: "(nb_state \<Rightarrow> bool) \<Rightarrow> cell \<Rightarrow> (nb_state \<Rightarrow> bool) \<Rightarrow> bool" where
  "establishes P f Q \<longleftrightarrow>
     (\<forall>s e s'. P s \<longrightarrow> f s = (e, s') \<longrightarrow> calls_ok s' \<and> (e = None \<longrightarrow> Q s'))"

text \<open>
  What the notebook relies on from \<open>generate_data\<close>, which is not in the slice: it
  simulates as many observations as the object's field \<open>n\<close> says.
\<close>

definition generates_n_points :: "library \<Rightarrow> bool" where
  "generates_n_points L \<longleftrightarrow>
     (\<forall>h j A phi. length (fst (lib_generate_data L h j A phi)) = hmm_n h)"

definition row_widths :: "nb_state \<Rightarrow> bool" where
  "row_widths s \<longleftrightarrow>
     (\<forall>r \<in> set (y_train s). length r = train_size s) \<and>
     (\<forall>r \<in> set (y_test s). length r = test_size s)"

section \<open>The fitting core, modelled from the specification\<close>

text \<open>
  The package's own code is not in the slice. The definitions of this section are
  written from the specification's sections 3 and 4 and follow its words.
\<close>

subsection \<open>Parameters\<close>

text \<open>
  Modelled from the spec: the shapes of the model parameters (section 3), a \<open>K \<times> K\<close>
  transition matrix, a \<open>K \<times> C\<close> emission matrix and an initial distribution of
  length \<open>K\<close>; the package's shape check is missing from the slice.
\<close>

definition well_shaped :: "nat \<Rightarrow> nat \<Rightarrow> mat \<Rightarrow> mat \<Rightarrow> vec \<Rightarrow> bool" where
  "well_shaped K C A phi p \<longleftrightarrow>
     length A = K \<and> (\<forall>row \<in> set A. length row = K) \<and>
     length phi = K \<and> (\<forall>row \<in> set phi. length row = C) \<and>
     length p = K"

text \<open>
  Modelled from the spec: the invariant of section 3, all entries non-negative and every
  row summing to 1 (exactly, over the reals); the package's validation is missing
  from the slice.
\<close>

definition stochastic :: "vec \<Rightarrow> bool" where
  "stochastic v \<longleftrightarrow> (\<forall>x \<in> set v. 0 \<le> x) \<and> sum_list v = 1"

definition valid_params :: "nat \<Rightarrow> nat \<Rightarrow> mat \<Rightarrow> mat \<Rightarrow> vec \<Rightarrow> bool" where
  "valid_params K C A phi p \<longleftrightarrow>
     well_shaped K C A phi p \<and>
     (\<forall>row \<in> set A. stochastic row) \<and> (\<forall>row \<in> set phi. stochastic row) \<and> stochastic p"

text \<open>
  Modelled from the spec: the initial distribution when none is passed is uniform,
  \<open>1/K\<close> (section 6); the default of \<open>forwardPass\<close> is missing from the slice.
\<close>

definition uniform :: "nat \<Rightarrow> vec" where
  "uniform K = replicate K (1 / real K)"

definition initial_distribution :: "nat \<Rightarrow> vec option \<Rightarrow> vec" where
  "initial_distribution K q0 = (case q0 of None \<Rightarrow> uniform K | Some q \<Rightarrow> q)"

subsection \<open>The forward recursion as the specification states it\<close>

text \<open>
  Modelled from the spec: the forward recursion of section 4.1,
  \<open>\<alpha>\<^sub>1(k) = \<pi>(k)\<cdot>\<phi>(k, y\<^sub>1)\<close> and
  \<open>\<alpha>\<^sub>t(k) = \<phi>(k, y\<^sub>t) \<cdot> \<Sum>\<^sub>i \<alpha>\<^sub>t\<^sub>-\<^sub>1(i)\<cdot>A(i,k)\<close>, and the total likelihood
  \<open>\<Sum>\<^sub>k \<alpha>\<^sub>T(k)\<close>. Times are counted from 0 here, so the specification's \<open>t = 1\<close> is
  \<open>t = 0\<close>.
\<close>

fun alpha_spec :: "nat \<Rightarrow> mat \<Rightarrow> mat \<Rightarrow> vec \<Rightarrow> obs list \<Rightarrow> nat \<Rightarrow> nat \<Rightarrow> real" where
  "alpha_spec K A phi p y 0 k = p ! k * phi ! k ! (y ! 0)"
| "alpha_spec K A phi p y (Suc t) k =
     phi ! k ! (y ! Suc t) * (\<Sum>i<K. alpha_spec K A phi p y t i * A ! i ! k)"

definition likelihood_spec :: "nat \<Rightarrow> mat \<Rightarrow> mat \<Rightarrow> vec \<Rightarrow> obs list \<Rightarrow> real" where
  "likelihood_spec K A phi p y = (\<Sum>k<K. alpha_spec K A phi p y (length y - 1) k)"

subsection \<open>The Engine's forward pass\<close>

text \<open>
  Modelled from the spec: one step of the numerically stable forward pass of section
  4.1, scheme (a): the forward vector is rescaled at every step and the scale factors
  are kept. \<open>predict\<close> is \<open>\<Sum>\<^sub>i a(i)\<cdot>A(i,k)\<close>, \<open>weight\<close> multiplies by the emission
  probabilities of the observed symbol, and \<open>rescale\<close> divides by the sum. The
  specification leaves a scale factor of zero open; dividing by it and taking its
  logarithm give no finite number, which is the error \<open>NonFiniteLikelihood\<close> here.
\<close>

definition predict :: "nat \<Rightarrow> mat \<Rightarrow> vec \<Rightarrow> vec" where
  "predict K A a = map (\<lambda>k. \<Sum>i<K. a ! i * A ! i ! k) [0..<K]"

definition weight :: "nat \<Rightarrow> mat \<Rightarrow> obs \<Rightarrow> vec \<Rightarrow> vec" where
  "weight K phi y v = map (\<lambda>k. phi ! k ! y * v ! k) [0..<K]"

definition rescale :: "vec \<Rightarrow> error + (vec \<times> real)" where
  "rescale v =
     (let c = sum_list v
      in if c \<le> 0 then Inl NonFiniteLikelihood else Inr (map (\<lambda>x. x / c) v, c))"

primrec forward_steps :: "nat \<Rightarrow> mat \<Rightarrow> mat \<Rightarrow> vec \<Rightarrow> obs list \<Rightarrow> error + (vec list \<times> real list)" where
  "forward_steps K A phi a [] = Inr ([], [])"
| "forward_steps K A phi a (y # ys) =
     (case rescale (weight K phi y (predict K A a)) of
        Inl e \<Rightarrow> Inl e
      | Inr (a', c) \<Rightarrow>
          (case forward_steps K A phi a' ys of
             Inl e \<Rightarrow> Inl e
           | Inr (as, cs) \<Rightarrow> Inr (a' # as, c # cs)))"

text \<open>
  Modelled from the spec: the Engine of section 4.1 as the method \<open>forwardPass\<close> of the
  model object, which is missing from the slice. It fails with \<open>DimensionMismatch\<close>
  when the shapes disagree with the object's \<open>K\<close> and \<open>C\<close>. As section 9 records of
  the reference, the number of time steps is not taken from the sequence but read from
  the object's field \<open>n\<close>: the pass runs over the first \<open>n\<close> observations, and reading
  observation \<open>t\<close> of a shorter sequence, or a symbol outside \<open>[0, C)\<close>, is an
  \<open>IndexError\<close>. \<open>forward_scaled\<close> returns the rescaled forward table and the scale
  factors.
\<close>

definition forward_scaled :: "HMM \<Rightarrow> obs list \<Rightarrow> mat \<Rightarrow> mat \<Rightarrow> vec option \<Rightarrow> error + (mat \<times> vec)" where
  "forward_scaled h y A phi q0 =
     (let K = hmm_k h; C = hmm_c h; T = hmm_n h; p = initial_distribution K q0
      in if \<not> well_shaped K C A phi p \<or> T = 0 then Inl DimensionMismatch
         else if length y < T \<or> (\<exists>t<T. C \<le> y ! t) then Inl IndexError
         else
           (case rescale (weight K phi (y ! 0) p) of
              Inl e \<Rightarrow> Inl e
            | Inr (a0, c0) \<Rightarrow>
                (case forward_steps K A phi a0 (tl (take T y)) of
                   Inl e \<Rightarrow> Inl e
                 | Inr (as, cs) \<Rightarrow> Inr (a0 # as, c0 # cs))))"

text \<open>
  Modelled from the spec: the value \<open>forwardPass\<close> returns, the log-likelihood as the
  sum of the logarithms of the scale factors, with the forward table and the scale
  factors (the notebook unpacks three values and reads the first).
\<close>

definition forwardPass :: "HMM \<Rightarrow> obs list \<Rightarrow> mat \<Rightarrow> mat \<Rightarrow> vec option \<Rightarrow> error + (real \<times> mat \<times> vec)" where
  "forwardPass h y A phi q0 =
     (case forward_scaled h y A phi q0 of
        Inl e \<Rightarrow> Inl e
      | Inr (alpha, cs) \<Rightarrow> Inr (sum_list (map ln cs), alpha, cs))"

text \<open>The forward probability that a rescaled table stands for: the entry times the scale factors so far.\<close>

definition unscaled :: "mat \<Rightarrow> vec \<Rightarrow> nat \<Rightarrow> nat \<Rightarrow> real" where
  "unscaled alpha cs t k = alpha ! t ! k * prod_list (take (Suc t) cs)"

subsection \<open>Best-fit selection\<close>

text \<open>
  Modelled from the spec: \<open>find_best_fit\<close> of \<open>glmhmm.utils\<close>, which is missing from the
  slice, after section 4.3: the initialization whose final log-likelihood, the last
  entry of its trajectory, is maximal, the lowest index among ties. The scan keeps the
  first maximum, as \<open>np.argmax\<close> does; no trajectory at all is a \<open>ValueError\<close> and an
  empty trajectory has no last entry (\<open>IndexError\<close>).
\<close>

primrec argmax_from :: "nat \<Rightarrow> nat \<Rightarrow> real \<Rightarrow> real list \<Rightarrow> nat" where
  "argmax_from i b m [] = b"
| "argmax_from i b m (x # xs) =
     (if m < x then argmax_from (Suc i) i x xs else argmax_from (Suc i) b m xs)"

definition argmax :: "real list \<Rightarrow> error + nat" where
  "argmax xs = (case xs of [] \<Rightarrow> Inl ValueError | x # rest \<Rightarrow> Inr (argmax_from 1 0 x rest))"

definition find_best_fit :: "real list list \<Rightarrow> error + nat" where
  "find_best_fit lls =
     (if \<exists>row \<in> set lls. row = [] then Inl IndexError
      else argmax (map last lls))"

subsection \<open>A library to run the notebook on\<close>

text \<open>
  The package is not part of the slice, so a run of the notebook needs a library to be
  supplied.  The one below is small enough to follow by hand: every transition matrix is
  the uniform \<open>demo_A\<close>, \<open>generate_params\<close> hands out one of three emission matrices
  depending on the draw, \<open>generate_data\<close> returns a sequence of zeros followed by ones,
  and \<open>fit\<close> returns its initial parameters unchanged, with the log likelihood of the
  sequence under them repeated over a trajectory of the width the notebook allocates.
  The forward pass and the best-fit selection are the ones of the previous section.
\<close>

definition demo_A :: mat where
  "demo_A = [[1/2, 1/2], [1/2, 1/2]]"

definition phi_even :: mat where
  "phi_even = [[3/4, 1/4], [1/4, 3/4]]"

definition phi_low :: mat where
  "phi_low = [[3/8, 5/8], [1/8, 7/8]]"

definition phi_high :: mat where
  "phi_high = [[7/8, 1/8], [5/8, 3/8]]"

definition demo_params :: "nat \<Rightarrow> mat \<times> mat \<times> vec" where
  "demo_params j =
     (demo_A,
      (if j \<in> {3, 5, 7} then phi_low else if j = 8 then phi_high else phi_even),
      [1/2, 1/2])"

definition demo_data :: "HMM \<Rightarrow> obs list \<times> nat list" where
  "demo_data h =
     (map (\<lambda>t. if 2 * t < hmm_n h then 0 else 1) [0..<hmm_n h], replicate (hmm_n h) 0)"

definition demo_fit :: "HMM \<Rightarrow> obs list \<Rightarrow> mat \<Rightarrow> mat \<Rightarrow> error + (real list \<times> mat \<times> mat \<times> vec)" where
  "demo_fit h y A phi =
     (case forwardPass h y A phi None of
        Inl e \<Rightarrow> Inl e
      | Inr (ll, alpha, cs) \<Rightarrow> Inr (replicate lls_width ll, A, phi, uniform (hmm_k h)))"

definition demo_library :: library where
  "demo_library =
     \<lparr>lib_generate_params = (\<lambda>h j. demo_params j),
      lib_generate_data = (\<lambda>h j A phi. demo_data h),
      lib_fit = demo_fit,
      lib_forwardPass = forwardPass,
      lib_find_best_fit = find_best_fit\<rparr>"

definition hmm_of :: "nat \<Rightarrow> HMM" where
  "hmm_of m = \<lparr>hmm_n = m, hmm_d = 0, hmm_c = 2, hmm_k = 2\<rparr>"

text \<open>
  The state in which the notebook, run on \<open>demo_config\<close> with \<open>demo_library\<close>, ends
  (lemma \<open>demo_run\<close> below).
\<close>

definition demo_final :: nb_state where
  "demo_final =
     \<lparr>true_HMM = hmm_of 2,
      A_true = demo_A,
      phi_true = phi_even,
      pi_true = [1 / 2, 1 / 2],
      true_y = [0, 0, 0, 1, 1, 1],
      true_z = [0, 0, 0, 0, 0, 0],
      lls_all = [replicate lls_width (ln (1/64)), replicate lls_width (ln (27/4096))],
      A_all = [demo_A, demo_A],
      phi_all = [phi_even, phi_low],
      pi0 = uniform 2,
      bestix = 0,
      train_size = 4,
      test_size = 2,
      y_train = [[0, 1, 1, 1], [0, 0, 1, 1], [0, 0, 0, 1]],
      y_test = [[0, 0], [0, 1], [1, 1]],
      A_all_cv = [[demo_A, demo_A], [demo_A, demo_A], [demo_A, demo_A]],
      phi_all_cv = [[phi_even, phi_low], [phi_even, phi_low], [phi_high, phi_even]],
      true_ll = [ln (1/4), ln (1/4), ln (1/4)],
      fit_ll = [ln (1/4), ln (1/4), ln (1/16)],
      mean_true_ll = Some ((ln (1/4) + ln (1/4) + ln (1/4)) / 3),
      mean_fit_ll = Some ((ln (1/4) + ln (1/4) + ln (1/16)) / 3),
      draws = 10,
      calls = [Call_fit (hmm_of 6) [0, 0, 0, 1, 1, 1],
         Call_fit (hmm_of 6) [0, 0, 0, 1, 1, 1],
         Call_fit (hmm_of 4) [0, 1, 1, 1],
         Call_fit (hmm_of 4) [0, 1, 1, 1],
         Call_fit (hmm_of 4) [0, 0, 1, 1],
         Call_fit (hmm_of 4) [0, 0, 1, 1],
         Call_fit (hmm_of 4) [0, 0, 0, 1],
         Call_fit (hmm_of 4) [0, 0, 0, 1],
         Call_forwardPass (hmm_of 2) [0, 0],
         Call_forwardPass (hmm_of 2) [0, 0],
         Call_forwardPass (hmm_of 2) [0, 1],
         Call_forwardPass (hmm_of 2) [0, 1],
         Call_forwardPass (hmm_of 2) [1, 1],
         Call_forwardPass (hmm_of 2) [1, 1]]\<rparr>"

section \<open>Properties of the notebook\<close>

subsection \<open>Loops and array assignment\<close>

lemma test_size_eq: "nat \<lfloor>(of_nat N :: rat) / of_nat k\<rfloor> = N div k"
  by (simp add: floor_divide_of_nat_eq)

lemma train_size_eq:
  assumes "0 < k"
  shows "nat \<lfloor>(of_nat N :: rat) - of_nat N / of_nat k\<rfloor> = N - (N div k + (if k dvd N then 0 else 1))"
proof -
  define q where "q = N div k"
  define r where "r = N mod k"
  have N: "N = q * k + r" and r: "r < k" using assms by (simp_all add: q_def r_def)
  have quot: "(of_nat N :: rat) / of_nat k = of_nat q + of_nat r / of_nat k"
    using assms by (simp add: N field_simps)
  have dv: "k dvd N \<longleftrightarrow> r = 0" by (simp add: r_def dvd_eq_mod_eq_0)
  have qle: "q \<le> N" by (simp add: q_def)
  show ?thesis
  proof (cases "r = 0")
    case True
    then have "(of_nat N :: rat) - of_nat N / of_nat k = of_int (int N - int q)"
      using quot by simp
    then have "\<lfloor>(of_nat N :: rat) - of_nat N / of_nat k\<rfloor> = int N - int q"
      by (simp only: floor_of_int)
    then show ?thesis using True dv qle by (simp add: q_def[symmetric])
  next
    case False
    have frac: "0 < (of_nat r :: rat) / of_nat k" "(of_nat r :: rat) / of_nat k < 1"
      using False r assms by simp_all
    have "\<lfloor>(of_nat N :: rat) - of_nat N / of_nat k\<rfloor> = int N - int q - 1"
      unfolding floor_eq_iff quot using frac by simp
    then show ?thesis using False dv qle by (simp add: q_def[symmetric] nat_diff_distrib')
  qed
qed

lemma for_each_invariant:
  assumes "for_each js body s = (e, s')" and "P s"
    and "\<And>i t e t'. i \<in> set js \<Longrightarrow> P t \<Longrightarrow> body i t = (e, t') \<Longrightarrow> P t'"
  shows "P s'"
  using assms
proof (induction js arbitrary: s)
  case Nil then show ?case by simp
next
  case (Cons i js)
  obtain e1 s1 where b: "body i s = (e1, s1)" by (cases "body i s")
  have p1: "P s1" using Cons.prems(3)[of i s e1 s1] Cons.prems(2) b by simp
  have step: "j \<in> set js \<Longrightarrow> P t \<Longrightarrow> body j t = (e, t') \<Longrightarrow> P t'" for j t e t'
    using Cons.prems(3)[of j t e t'] by simp
  show ?case
  proof (cases e1)
    case None
    then have "for_each js body s1 = (e, s')" using Cons.prems(1) b by simp
    then show ?thesis using Cons.IH[OF _ p1 step] by simp
  next
    case (Some a)
    then show ?thesis using Cons.prems(1) b p1 by simp
  qed
qed

lemma broadcast_to_length: "broadcast_to w v = Inr r \<Longrightarrow> length r = w"
  by (auto simp: broadcast_to_def split: if_splits)

lemma broadcast_to_exact: "length v = w \<Longrightarrow> broadcast_to w v = Inr v"
  by (simp add: broadcast_to_def)

lemma broadcast_to_Inr_iff: "(\<exists>r. broadcast_to w v = Inr r) \<longleftrightarrow> length v = w \<or> length v = 1"
  by (auto simp: broadcast_to_def)

lemma assign_row_length: "assign_row M i v = Inr M' \<Longrightarrow> length M' = length M"
  by (auto simp: assign_row_def split: if_splits sum.splits)

lemma assign_row_widths:
  assumes "assign_row M i v = Inr M'" and "\<forall>r \<in> set M. length r = w"
  shows "\<forall>r \<in> set M'. length r = w"
proof -
  from assms(1) obtain r where i: "i < length M" and b: "broadcast_to (length (M ! i)) v = Inr r"
    and M': "M' = M[i := r]"
    by (auto simp: assign_row_def split: if_splits sum.splits)
  have "length r = w" using broadcast_to_length[OF b] assms(2) i by simp
  moreover have "set M' \<subseteq> insert r (set M)" unfolding M' by (rule set_update_subset_insert)
  ultimately show ?thesis using assms(2) by auto
qed

lemma length_kfold_from: "length (kfold_from cur m szs) = length szs"
  by (induction szs arbitrary: cur) simp_all

lemma kfold_from_replicate_nth:
  "i < k \<Longrightarrow> kfold_from cur m (replicate k q) ! i =
     (filter (\<lambda>j. \<not> (cur + i * q \<le> j \<and> j < cur + i * q + q)) [0..<m],
      [cur + i * q..<cur + i * q + q])"
proof (induction k arbitrary: cur i)
  case 0 then show ?case by simp
next
  case (Suc k)
  show ?case
  proof (cases i)
    case 0 then show ?thesis by simp
  next
    case (Suc i')
    then have "i' < k" using Suc.prems by simp
    from Suc.IH[OF this, of "cur + q"] show ?thesis using Suc by (simp add: ac_simps)
  qed
qed

lemma length_filter_outside_block:
  assumes "a + sz \<le> m"
  shows "length (filter (\<lambda>j. \<not> (a \<le> j \<and> j < a + sz)) [0..<m]) = m - sz"
proof -
  have split: "[0..<m] = [0..<a] @ [a..<a + sz] @ [a + sz..<m]"
  proof -
    have "[0..<a + sz] = [0..<a] @ [a..<a + sz]" using upt_add_eq_append[of 0 a sz] by simp
    moreover have "[0..<m] = [0..<a + sz] @ [a + sz..<m]"
      using upt_add_eq_append[of 0 "a + sz" "m - (a + sz)"] assms by simp
    ultimately show ?thesis by simp
  qed
  have 1: "filter (\<lambda>j. \<not> (a \<le> j \<and> j < a + sz)) [0..<a] = [0..<a]" by (rule filter_True) auto
  have 2: "filter (\<lambda>j. \<not> (a \<le> j \<and> j < a + sz)) [a..<a + sz] = []" by (rule filter_False) auto
  have 3: "filter (\<lambda>j. \<not> (a \<le> j \<and> j < a + sz)) [a + sz..<m] = [a + sz..<m]" by (rule filter_True) auto
  show ?thesis unfolding split filter_append 1 2 3 using assms by simp
qed

lemma fold_sizes_dvd: "k dvd m \<Longrightarrow> fold_sizes k m = replicate k (m div k)"
  by (simp add: fold_sizes_def dvd_eq_mod_eq_0 map_replicate_trivial)

lemma fold_sizes_first: "2 \<le> k \<Longrightarrow> hd (fold_sizes k m) = m div k + (if 0 < m mod k then 1 else 0)"
  by (simp add: fold_sizes_def upt_conv_Cons hd_map)

lemma for_each_succeeds:
  assumes "P s"
    and "\<And>i t. i \<in> set js \<Longrightarrow> P t \<Longrightarrow> \<exists>t'. body i t = (None, t') \<and> P t'"
  shows "\<exists>s'. for_each js body s = (None, s') \<and> P s'"
  using assms
proof (induction js arbitrary: s)
  case Nil then show ?case by simp
next
  case (Cons i js)
  from Cons.prems(2)[of i s] Cons.prems(1) obtain s1 where b: "body i s = (None, s1)" and p1: "P s1"
    by auto
  have step: "j \<in> set js \<Longrightarrow> P t \<Longrightarrow> \<exists>t'. body j t = (None, t') \<and> P t'" for j t
    using Cons.prems(2)[of j t] by simp
  from Cons.IH[OF p1 step] show ?case using b by simp
qed

lemma for_each_first:
  assumes "for_each (i # js) body s = (None, s')"
  shows "\<exists>s1. body i s = (None, s1)"
  using assms by (cases "body i s") (auto split: option.splits)

lemma take_indices_ok:
  "\<forall>j \<in> set idx. j < length y \<Longrightarrow> take_indices y idx = Inr (map (\<lambda>j. y ! j) idx)"
  by (simp add: take_indices_def)

lemma take_indices_length: "take_indices y idx = Inr v \<Longrightarrow> length v = length idx"
  by (auto simp: take_indices_def split: if_splits)

lemma assign_row_ok:
  "i < length M \<Longrightarrow> length (M ! i) = length v \<Longrightarrow> assign_row M i v = Inr (M[i := v])"
  by (simp add: assign_row_def broadcast_to_def)

lemma assemble_fold_ok:
  assumes dvd: "cfg_folds cfg dvd cfg_N cfg" and k0: "0 < cfg_folds cfg"
    and i: "i < cfg_folds cfg"
    and y: "true_y t = y" "length y = cfg_N cfg"
    and sh: "split_shapes cfg t"
  shows "\<exists>t'. assemble_fold (kfold_from 0 (cfg_N cfg) (fold_sizes (cfg_folds cfg) (cfg_N cfg))) i t
            = (None, t') \<and> true_y t' = y \<and> split_shapes cfg t'"
proof -
  define k where "k = cfg_folds cfg"
  define N where "N = cfg_N cfg"
  define q where "q = N div k"
  have Nkq: "N = k * q" using dvd by (simp add: k_def N_def q_def)
  have "(i + 1) * q \<le> k * q" using i unfolding k_def by (intro mult_le_mono1) simp
  then have blk: "i * q + q \<le> N" using Nkq by simp
  define tri where "tri = filter (\<lambda>j. \<not> (i * q \<le> j \<and> j < i * q + q)) [0..<N]"
  define tei where "tei = [i * q..<i * q + q]"
  have nth: "kfold_from 0 N (fold_sizes k N) ! i = (tri, tei)"
    using kfold_from_replicate_nth[of i k 0 N q] i dvd
    by (simp add: fold_sizes_dvd k_def N_def q_def tri_def tei_def)
  have ltr: "length tri = N - q" unfolding tri_def using length_filter_outside_block[OF blk] .
  have lte: "length tei = q" by (simp add: tei_def)
  have t1: "take_indices (true_y t) tri = Inr (map (\<lambda>j. y ! j) tri)"
    using y by (simp add: take_indices_def N_def tri_def)
  have t2: "take_indices (true_y t) tei = Inr (map (\<lambda>j. y ! j) tei)"
    using y blk by (simp add: take_indices_def N_def tei_def)
  have shp: "length (y_train t) = k" "\<forall>r \<in> set (y_train t). length r = N - q"
    "length (y_test t) = k" "\<forall>r \<in> set (y_test t). length r = q"
    "train_size t = N - q" "test_size t = q"
    using sh by (simp_all add: split_shapes_def k_def N_def q_def)
  have ik: "i < k" using i by (simp add: k_def)
  have a1: "assign_row (y_train t) i (map (\<lambda>j. y ! j) tri) = Inr ((y_train t)[i := map (\<lambda>j. y ! j) tri])"
    using shp ik ltr by (intro assign_row_ok) auto
  have a2: "assign_row (y_test t) i (map (\<lambda>j. y ! j) tei) = Inr ((y_test t)[i := map (\<lambda>j. y ! j) tei])"
    using shp ik lte by (intro assign_row_ok) auto
  define t' where "t' = t\<lparr>y_train := (y_train t)[i := map (\<lambda>j. y ! j) tri],
                y_test := (y_test t)[i := map (\<lambda>j. y ! j) tei]\<rparr>"
  have run: "assemble_fold (kfold_from 0 N (fold_sizes k N)) i t = (None, t')"
    by (simp add: assemble_fold_def nth t1 t2 a1 a2 t'_def)
  have "split_shapes cfg t'"
    using shp ltr assign_row_widths[OF a1 shp(2)] assign_row_widths[OF a2 shp(4)]
    by (simp add: split_shapes_def k_def[symmetric] N_def[symmetric] q_def[symmetric] t'_def)
  moreover have "true_y t' = y" using y by (simp add: t'_def)
  ultimately show ?thesis using run by (auto simp: k_def N_def)
qed

lemma cell_split_ok:
  assumes len: "length (true_y s) = cfg_N cfg"
    and k2: "2 \<le> cfg_folds cfg" and kN: "cfg_folds cfg \<le> cfg_N cfg"
    and dvd: "cfg_folds cfg dvd cfg_N cfg"
  shows "\<exists>s'. cell_split cfg s = (None, s') \<and> true_y s' = true_y s \<and> split_shapes cfg s'"
proof -
  define k where "k = cfg_folds cfg"
  define N where "N = cfg_N cfg"
  define s1 where "s1 = s\<lparr>train_size := N - N div k, test_size := N div k,
      y_train := zeros2 k (N - N div k), y_test := zeros2 k (N div k)\<rparr>"
  have k0: "0 < k" using k2 by (simp add: k_def)
  have trs: "nat \<lfloor>(of_nat N :: rat) - of_nat N / of_nat k\<rfloor> = N - N div k"
    using train_size_eq[OF k0, of N] dvd by (simp add: k_def N_def)
  have kf: "KFold_split k (length (true_y s)) = Inr (kfold_from 0 N (fold_sizes k N))"
    using k2 kN len by (simp add: KFold_split_def k_def N_def)
  have unfold: "cell_split cfg s =
      for_each [0..<k] (assemble_fold (kfold_from 0 N (fold_sizes k N))) s1"
    using k0 kf trs
    by (simp add: cell_split_def Let_def test_size_eq k_def[symmetric] N_def[symmetric]
        s1_def[symmetric] length_kfold_from fold_sizes_def)
  have P1: "true_y s1 = true_y s \<and> split_shapes cfg s1"
    by (simp add: s1_def split_shapes_def zeros2_def k_def N_def)
  have "\<exists>s'. for_each [0..<k] (assemble_fold (kfold_from 0 N (fold_sizes k N))) s1 = (None, s')
          \<and> (true_y s' = true_y s \<and> split_shapes cfg s')"
  proof (rule for_each_succeeds[where P = "\<lambda>t. true_y t = true_y s \<and> split_shapes cfg t"])
    show "true_y s1 = true_y s \<and> split_shapes cfg s1" by (rule P1)
  next
    fix i t assume "i \<in> set [0..<k]" and "true_y t = true_y s \<and> split_shapes cfg t"
    then show "\<exists>t'. assemble_fold (kfold_from 0 N (fold_sizes k N)) i t = (None, t')
        \<and> (true_y t' = true_y s \<and> split_shapes cfg t')"
      using assemble_fold_ok[of cfg i t "true_y s"] dvd k0 len by (simp add: k_def N_def)
  qed
  then show ?thesis by (simp add: unfold)
qed

lemma cell_split_only_if:
  assumes len: "length (true_y s) = cfg_N cfg"
    and ok: "fst (cell_split cfg s) = None"
  shows "2 \<le> cfg_folds cfg \<and> cfg_folds cfg \<le> cfg_N cfg \<and> cfg_folds cfg dvd cfg_N cfg"
proof -
  define k where "k = cfg_folds cfg"
  define N where "N = cfg_N cfg"
  define q where "q = N div k"
  define tr where "tr = nat \<lfloor>(of_nat N :: rat) - of_nat N / of_nat k\<rfloor>"
  define s1 where "s1 = s\<lparr>train_size := tr, test_size := q,
      y_train := zeros2 k tr, y_test := zeros2 k q\<rparr>"
  have k0: "k \<noteq> 0" using ok by (cases "cfg_folds cfg = 0") (simp_all add: cell_split_def k_def)
  have cs: "cell_split cfg s =
     (case KFold_split k (length (true_y s1)) of
        Inl e \<Rightarrow> (Some e, s1)
      | Inr splits \<Rightarrow> for_each [0..<length splits] (assemble_fold splits) s1)"
    using k0 by (simp add: cell_split_def Let_def test_size_eq k_def[symmetric] N_def[symmetric]
        s1_def tr_def q_def cong: sum.case_cong)
  have ly: "length (true_y s1) = N" using len by (simp add: s1_def N_def)
  have k2: "2 \<le> k" and kN: "k \<le> N"
    using ok unfolding cs ly by (auto simp: KFold_split_def split: if_splits)
  define splits where "splits = kfold_from 0 N (fold_sizes k N)"
  have kf: "KFold_split k N = Inr splits" using k2 kN by (simp add: KFold_split_def splits_def)
  have lsp: "length splits = k" by (simp add: splits_def length_kfold_from fold_sizes_def)
  obtain s' where run: "for_each [0..<k] (assemble_fold splits) s1 = (None, s')"
    using ok unfolding cs ly kf by (cases "for_each [0..<k] (assemble_fold splits) s1") (simp add: lsp)
  have "[0..<k] = 0 # [1..<k]" using k2 by (simp add: upt_conv_Cons)
  with run obtain s2 where first: "assemble_fold splits 0 s1 = (None, s2)"
    using for_each_first[of 0 "[1..<k]" "assemble_fold splits" s1 s'] by auto
  define sz0 where "sz0 = N div k + (if 0 < N mod k then 1 else 0)"
  have fs: "fold_sizes k N = sz0 # map (\<lambda>i. N div k + (if i < N mod k then 1 else 0)) [1..<k]"
    using k2 by (simp add: fold_sizes_def upt_conv_Cons sz0_def)
  have sp0: "splits ! 0 = (filter (\<lambda>j. \<not> (0 \<le> j \<and> j < 0 + sz0)) [0..<N], [0..<0 + sz0])"
    by (simp add: splits_def fs)
  define tri where "tri = filter (\<lambda>j. \<not> (0 \<le> j \<and> j < 0 + sz0)) [0..<N]"
  have sp0': "splits ! 0 = (tri, [0..<sz0])" using sp0 by (simp add: tri_def)
  obtain te ytr where te: "take_indices (true_y s1) [0..<sz0] = Inr te"
    and a2: "\<exists>r. assign_row (y_test (s1\<lparr>y_train := ytr\<rparr>)) 0 te = Inr r"
    using first unfolding assemble_fold_def sp0'
    by (auto simp: Let_def split: sum.splits)
  have lte: "length te = sz0" using take_indices_length[OF te] by simp
  have "y_test (s1\<lparr>y_train := ytr\<rparr>) ! 0 = replicate q 0"
    using k2 by (simp add: s1_def zeros2_def)
  with a2 have "\<exists>r. broadcast_to q te = Inr r"
    by (auto simp: assign_row_def split: if_splits sum.splits)
  then have "sz0 = q \<or> sz0 = 1" using broadcast_to_Inr_iff[of q te] lte by simp
  moreover have "1 \<le> q" using kN k2 by (simp add: q_def div_greater_zero_iff Suc_le_eq)
  ultimately have "N mod k = 0" by (auto simp: sz0_def q_def split: if_splits)
  then show ?thesis using k2 kN by (simp add: k_def N_def dvd_eq_mod_eq_0)
qed

lemma kfold_sizes_dvd:
  assumes k2: "2 \<le> k" and kN: "k \<le> N" and dvd: "k dvd N"
  shows "\<exists>splits. KFold_split k N = Inr splits \<and> length splits = k \<and>
     (\<forall>i<k. length (fst (splits ! i)) = N - N div k \<and> length (snd (splits ! i)) = N div k)"
proof -
  define q where "q = N div k"
  have Nkq: "N = k * q" using dvd by (simp add: q_def)
  have blk: "i * q + q \<le> N" if "i < k" for i
  proof -
    have "(i + 1) * q \<le> k * q" using that by (intro mult_le_mono1) simp
    then show ?thesis using Nkq by simp
  qed
  have "KFold_split k N = Inr (kfold_from 0 N (replicate k q))"
    using k2 kN dvd by (simp add: KFold_split_def fold_sizes_dvd q_def)
  moreover have "length (kfold_from 0 N (replicate k q)) = k" by (simp add: length_kfold_from)
  moreover have "length (fst (kfold_from 0 N (replicate k q) ! i)) = N - q
      \<and> length (snd (kfold_from 0 N (replicate k q) ! i)) = q" if "i < k" for i
    using kfold_from_replicate_nth[OF that, of 0 N q] length_filter_outside_block[OF blk[OF that]]
    by simp
  ultimately show ?thesis by (auto simp: q_def)
qed

subsection \<open>The fold assembly (cell 7)\<close>

text \<open>
  Claim C10. With \<open>true_y\<close> holding \<open>N\<close> observations, cell 7 runs without raising
  exactly when \<open>KFold\<close> accepts the split (\<open>2 \<le> folds \<le> N\<close>) and \<open>folds\<close> divides
  \<open>N\<close>. When it does, \<open>y_train\<close> has shape \<open>(folds, N - N div folds)\<close> and \<open>y_test\<close>
  has shape \<open>(folds, N div folds)\<close>, and every fold of the split has exactly
  \<open>N - N div folds\<close> train indices and \<open>N div folds\<close> test indices. When \<open>folds\<close>
  does not divide \<open>N\<close>, the first fold has one test index more than a row of
  \<open>y_test\<close> holds and the assignment raises.
\<close>

theorem fold_assembly_needs_exact_division:
  assumes "length (true_y s) = cfg_N cfg"
  shows "(fst (cell_split cfg s) = None \<longleftrightarrow>
            2 \<le> cfg_folds cfg \<and> cfg_folds cfg \<le> cfg_N cfg \<and> cfg_folds cfg dvd cfg_N cfg) \<and>
         (fst (cell_split cfg s) = None \<longrightarrow>
            split_shapes cfg (snd (cell_split cfg s)) \<and>
            (\<exists>splits. KFold_split (cfg_folds cfg) (cfg_N cfg) = Inr splits \<and>
               length splits = cfg_folds cfg \<and>
               (\<forall>i<cfg_folds cfg.
                  length (fst (splits ! i)) = cfg_N cfg - cfg_N cfg div cfg_folds cfg \<and>
                  length (snd (splits ! i)) = cfg_N cfg div cfg_folds cfg)))"
proof -
  let ?good = "2 \<le> cfg_folds cfg \<and> cfg_folds cfg \<le> cfg_N cfg \<and> cfg_folds cfg dvd cfg_N cfg"
  have fwd: "fst (cell_split cfg s) = None \<Longrightarrow> ?good"
    using cell_split_only_if[OF assms] by simp
  have bwd: "?good \<Longrightarrow> fst (cell_split cfg s) = None \<and> split_shapes cfg (snd (cell_split cfg s))"
    using cell_split_ok[OF assms] by fastforce
  have sizes: "?good \<Longrightarrow> (\<exists>splits. KFold_split (cfg_folds cfg) (cfg_N cfg) = Inr splits \<and>
               length splits = cfg_folds cfg \<and>
               (\<forall>i<cfg_folds cfg.
                  length (fst (splits ! i)) = cfg_N cfg - cfg_N cfg div cfg_folds cfg \<and>
                  length (snd (splits ! i)) = cfg_N cfg div cfg_folds cfg))"
    using kfold_sizes_dvd[of "cfg_folds cfg" "cfg_N cfg"] by simp
  show ?thesis using fwd bwd sizes by blast
qed

theorem fold_assembly_needs_exact_division_witness:
  "length (true_y (initial_state\<lparr>true_y := [0, 0, 0, 1, 1, 1]\<rparr>)) = cfg_N demo_config \<and>
   fst (cell_split demo_config (initial_state\<lparr>true_y := [0, 0, 0, 1, 1, 1]\<rparr>)) = None \<and>
   cfg_folds demo_config dvd cfg_N demo_config \<and>
   split_shapes demo_config (snd (cell_split demo_config (initial_state\<lparr>true_y := [0, 0, 0, 1, 1, 1]\<rparr>)))"
proof -
  have h: "length (true_y (initial_state\<lparr>true_y := [0, 0, 0, 1, 1, 1]\<rparr>)) = cfg_N demo_config"
    by (simp add: demo_config_def)
  have ok: "fst (cell_split demo_config (initial_state\<lparr>true_y := [0, 0, 0, 1, 1, 1]\<rparr>)) = None"
    by code_simp
  show ?thesis
    using fold_assembly_needs_exact_division[OF h] h ok by blast
qed

text \<open>
  Two runs of the cell: six points in three folds, and seven points in three folds,
  where the first fold's three test points do not fit a row of width two.
\<close>

lemma cell_split_six_points:
  "y_train (snd (cell_split demo_config (initial_state\<lparr>true_y := [0, 0, 0, 1, 1, 1]\<rparr>)))
     = [[0, 1, 1, 1], [0, 0, 1, 1], [0, 0, 0, 1]] \<and>
   y_test (snd (cell_split demo_config (initial_state\<lparr>true_y := [0, 0, 0, 1, 1, 1]\<rparr>)))
     = [[0, 0], [0, 1], [1, 1]]"
  by code_simp

lemma cell_split_seven_points:
  "fst (cell_split (demo_config\<lparr>cfg_N := 7\<rparr>) (initial_state\<lparr>true_y := [0, 0, 0, 1, 1, 1, 1]\<rparr>))
     = Some ValueError"
  by code_simp

subsection \<open>The field \<open>n\<close> at every call\<close>

lemma establishesI:
  "(\<And>s e s'. P s \<Longrightarrow> f s = (e, s') \<Longrightarrow> calls_ok s' \<and> (e = None \<longrightarrow> Q s')) \<Longrightarrow> establishes P f Q"
  by (simp add: establishes_def)

lemma establishesD:
  "establishes P f Q \<Longrightarrow> P s \<Longrightarrow> f s = (e, s') \<Longrightarrow> calls_ok s' \<and> (e = None \<longrightarrow> Q s')"
  by (simp add: establishes_def)

lemma establishes_and_then:
  assumes "establishes P f Q" and "establishes Q g R"
  shows "establishes P (and_then f g) R"
proof (rule establishesI)
  fix s e s' assume P: "P s" and run: "and_then f g s = (e, s')"
  obtain e1 s1 where f: "f s = (e1, s1)" by (cases "f s")
  note d = establishesD[OF assms(1) P f]
  show "calls_ok s' \<and> (e = None \<longrightarrow> R s')"
  proof (cases e1)
    case None
    then have g: "g s1 = (e, s')" using run f by (simp add: and_then_def)
    have "Q s1" using d None by simp
    then show ?thesis using establishesD[OF assms(2) _ g] by simp
  next
    case (Some a)
    then show ?thesis using run f d by (auto simp: and_then_def)
  qed
qed

lemma establishes_for_each:
  assumes ok: "\<And>s. P s \<Longrightarrow> calls_ok s"
    and body: "\<And>i. i \<in> set js \<Longrightarrow> establishes P (body i) P"
  shows "establishes P (for_each js body) P"
  using body
proof (induction js)
  case Nil
  show ?case by (rule establishesI) (simp add: ok)
next
  case (Cons i js)
  have b: "establishes P (body i) P" using Cons.prems by simp
  have rest: "establishes P (for_each js body) P" using Cons by simp
  show ?case
  proof (rule establishesI)
    fix s e s' assume P: "P s" and run: "for_each (i # js) body s = (e, s')"
    obtain e1 s1 where f: "body i s = (e1, s1)" by (cases "body i s")
    note d = establishesD[OF b P f]
    show "calls_ok s' \<and> (e = None \<longrightarrow> P s')"
    proof (cases e1)
      case None
      then have g: "for_each js body s1 = (e, s')" using run f by simp
      have "P s1" using d None by simp
      then show ?thesis using establishesD[OF rest _ g] by simp
    next
      case (Some a)
      then show ?thesis using run f d by auto
    qed
  qed
qed

lemma establishes_weaken:
  "establishes P f Q \<Longrightarrow> (\<And>s. P' s \<Longrightarrow> P s) \<Longrightarrow> (\<And>s. Q s \<Longrightarrow> Q' s) \<Longrightarrow> establishes P' f Q'"
  unfolding establishes_def by blast

lemma calls_ok_append: "calls_ok s \<Longrightarrow> n_matches c \<Longrightarrow> calls s' = calls s @ [c] \<Longrightarrow> calls_ok s'"
  by (simp add: calls_ok_def)

lemma calls_ok_same: "calls_ok s \<Longrightarrow> calls s' = calls s \<Longrightarrow> calls_ok s'"
  by (simp add: calls_ok_def)

lemma establishes_instantiate:
  "establishes calls_ok (cell_instantiate cfg L)
     (\<lambda>s. calls_ok s \<and> hmm_n (true_HMM s) = cfg_N cfg)"
  by (rule establishesI)
     (auto simp: cell_instantiate_def Let_def calls_ok_def split: prod.splits)

lemma establishes_generate_data:
  assumes "generates_n_points L"
  shows "establishes (\<lambda>s. calls_ok s \<and> hmm_n (true_HMM s) = cfg_N cfg) (cell_generate_data L)
     (\<lambda>s. calls_ok s \<and> length (true_y s) = hmm_n (true_HMM s))"
proof (rule establishesI)
  fix s e s'
  assume P: "calls_ok s \<and> hmm_n (true_HMM s) = cfg_N cfg"
    and run: "cell_generate_data L s = (e, s')"
  obtain y z where g: "lib_generate_data L (true_HMM s) (draws s) (A_true s) (phi_true s) = (y, z)"
    by (cases "lib_generate_data L (true_HMM s) (draws s) (A_true s) (phi_true s)")
  have "length y = hmm_n (true_HMM s)"
    using assms g unfolding generates_n_points_def by (metis fst_conv)
  then show "calls_ok s' \<and> (e = None \<longrightarrow> calls_ok s' \<and> length (true_y s') = hmm_n (true_HMM s'))"
    using P run g by (auto simp: cell_generate_data_def calls_ok_def)
qed

lemma store_fit_frame:
  assumes "store_fit cfg i lls A phi p0 s = (e, s')"
  shows "calls s' = calls s \<and> true_HMM s' = true_HMM s \<and> true_y s' = true_y s"
  using assms by (auto simp: store_fit_def Let_def split: sum.splits)

lemma establishes_fit_init:
  "establishes (\<lambda>s. calls_ok s \<and> length (true_y s) = hmm_n (true_HMM s)) (fit_init cfg L i)
     (\<lambda>s. calls_ok s \<and> length (true_y s) = hmm_n (true_HMM s))"
proof (rule establishesI)
  fix s e s'
  assume P: "calls_ok s \<and> length (true_y s) = hmm_n (true_HMM s)"
    and run: "fit_init cfg L i s = (e, s')"
  define s1 where "s1 = s\<lparr>draws := Suc (draws s),
                      calls := calls s @ [Call_fit (true_HMM s) (true_y s)]\<rparr>"
  have ok1: "calls_ok s1" using P by (simp add: s1_def calls_ok_def)
  have fr1: "true_HMM s1 = true_HMM s" "true_y s1 = true_y s" by (simp_all add: s1_def)
  have "calls s' = calls s1 \<and> true_HMM s' = true_HMM s1 \<and> true_y s' = true_y s1"
  proof (cases "lib_fit L (true_HMM s) (true_y s) (fst (lib_generate_params L (true_HMM s) (draws s)))
                   (fst (snd (lib_generate_params L (true_HMM s) (draws s))))")
    case (Inl a)
    then show ?thesis using run by (auto simp: fit_init_def Let_def s1_def split: prod.splits)
  next
    case (Inr r)
    obtain lls A phi p0 where r: "r = (lls, A, phi, p0)" by (cases r) auto
    have "store_fit cfg i lls A phi p0 s1 = (e, s')"
      using run Inr r by (auto simp: fit_init_def Let_def s1_def split: prod.splits)
    then show ?thesis by (rule store_fit_frame)
  qed
  then show "calls_ok s' \<and> (e = None \<longrightarrow> calls_ok s' \<and> length (true_y s') = hmm_n (true_HMM s'))"
    using ok1 fr1 P by (simp add: calls_ok_def)
qed

lemma establishes_cell_fit:
  "establishes (\<lambda>s. calls_ok s \<and> length (true_y s) = hmm_n (true_HMM s)) (cell_fit cfg L)
     (\<lambda>s. calls_ok s \<and> length (true_y s) = hmm_n (true_HMM s))"
  unfolding cell_fit_def
proof (rule establishes_and_then)
  show "establishes (\<lambda>s. calls_ok s \<and> length (true_y s) = hmm_n (true_HMM s))
     (\<lambda>s. (None, s\<lparr>lls_all := zeros2 (cfg_inits cfg) lls_width,
                      A_all := zeros3 (cfg_inits cfg) (cfg_K cfg) (cfg_K cfg),
                      phi_all := zeros3 (cfg_inits cfg) (cfg_K cfg) (cfg_C cfg)\<rparr>))
     (\<lambda>s. calls_ok s \<and> length (true_y s) = hmm_n (true_HMM s))"
    by (rule establishesI) (auto simp: calls_ok_def)
  show "establishes (\<lambda>s. calls_ok s \<and> length (true_y s) = hmm_n (true_HMM s))
     (for_each [0..<cfg_inits cfg] (fit_init cfg L))
     (\<lambda>s. calls_ok s \<and> length (true_y s) = hmm_n (true_HMM s))"
    by (rule establishes_for_each) (simp_all add: establishes_fit_init)
qed

lemma establishes_best_fit:
  "establishes (\<lambda>s. calls_ok s \<and> length (true_y s) = hmm_n (true_HMM s)) (cell_best_fit L) calls_ok"
  by (rule establishesI)
     (auto simp: cell_best_fit_def Let_def calls_ok_def split: sum.splits if_splits)

lemma establishes_assemble_fold:
  "establishes (\<lambda>s. calls_ok s \<and> row_widths s) (assemble_fold splits i)
     (\<lambda>s. calls_ok s \<and> row_widths s)"
proof (rule establishesI)
  fix s e s'
  assume P: "calls_ok s \<and> row_widths s" and run: "assemble_fold splits i s = (e, s')"
  have "calls s' = calls s"
    using run by (auto simp: assemble_fold_def Let_def split: sum.splits prod.splits)
  moreover have "row_widths s'"
    using run P
    by (auto simp: assemble_fold_def Let_def row_widths_def split: sum.splits prod.splits
        dest: assign_row_widths)
  ultimately show "calls_ok s' \<and> (e = None \<longrightarrow> calls_ok s' \<and> row_widths s')"
    using P by (simp add: calls_ok_def)
qed

lemma establishes_cell_split:
  "establishes calls_ok (cell_split cfg) (\<lambda>s. calls_ok s \<and> row_widths s)"
proof (rule establishesI)
  fix s e s'
  assume P: "calls_ok s" and run: "cell_split cfg s = (e, s')"
  show "calls_ok s' \<and> (e = None \<longrightarrow> calls_ok s' \<and> row_widths s')"
  proof (cases "cfg_folds cfg = 0")
    case True
    then show ?thesis using run P by (auto simp: cell_split_def)
  next
    case False
    define s1 where "s1 = s\<lparr>train_size := nat \<lfloor>(of_nat (cfg_N cfg) :: rat) - of_nat (cfg_N cfg) / of_nat (cfg_folds cfg)\<rfloor>,
        test_size := nat \<lfloor>(of_nat (cfg_N cfg) :: rat) / of_nat (cfg_folds cfg)\<rfloor>,
        y_train := zeros2 (cfg_folds cfg) (nat \<lfloor>(of_nat (cfg_N cfg) :: rat) - of_nat (cfg_N cfg) / of_nat (cfg_folds cfg)\<rfloor>),
        y_test := zeros2 (cfg_folds cfg) (nat \<lfloor>(of_nat (cfg_N cfg) :: rat) / of_nat (cfg_folds cfg)\<rfloor>)\<rparr>"
    have P1: "calls_ok s1 \<and> row_widths s1"
      using P by (simp add: s1_def calls_ok_def row_widths_def zeros2_def)
    have cs: "cell_split cfg s =
       (case KFold_split (cfg_folds cfg) (length (true_y s1)) of
          Inl e \<Rightarrow> (Some e, s1)
        | Inr splits \<Rightarrow> for_each [0..<length splits] (assemble_fold splits) s1)"
      using False by (simp add: cell_split_def Let_def s1_def cong: sum.case_cong)
    show ?thesis
    proof (cases "KFold_split (cfg_folds cfg) (length (true_y s1))")
      case (Inl a)
      then show ?thesis using run cs P1 by auto
    next
      case (Inr splits)
      then have r: "for_each [0..<length splits] (assemble_fold splits) s1 = (e, s')"
        using run cs by simp
      have "establishes (\<lambda>s. calls_ok s \<and> row_widths s)
              (for_each [0..<length splits] (assemble_fold splits)) (\<lambda>s. calls_ok s \<and> row_widths s)"
        by (rule establishes_for_each) (simp_all add: establishes_assemble_fold)
      from establishesD[OF this P1 r] show ?thesis by simp
    qed
  qed
qed

lemma establishes_fit_fold_init:
  "establishes (\<lambda>s. calls_ok s \<and> row_widths s \<and> hmm_n (true_HMM s) = train_size s)
     (fit_fold_init cfg L i j)
     (\<lambda>s. calls_ok s \<and> row_widths s \<and> hmm_n (true_HMM s) = train_size s)"
proof (rule establishesI)
  fix s e s'
  assume P: "calls_ok s \<and> row_widths s \<and> hmm_n (true_HMM s) = train_size s"
    and run: "fit_fold_init cfg L i j s = (e, s')"
  let ?Q = "\<lambda>t. calls_ok t \<and> row_widths t \<and> hmm_n (true_HMM t) = train_size t"
  define s0 where "s0 = s\<lparr>draws := Suc (draws s)\<rparr>"
  have P0: "?Q s0" using P by (simp add: s0_def calls_ok_def row_widths_def)
  have "?Q s'"
  proof (cases "i < length (y_train s0)")
    case False
    then have "s' = s0" using run by (auto simp: fit_fold_init_def Let_def s0_def split: prod.splits)
    then show ?thesis using P0 by simp
  next
    case True
    define s1 where "s1 = s0\<lparr>calls := calls s0 @ [Call_fit (true_HMM s0) (y_train s0 ! i)]\<rparr>"
    have "length (y_train s0 ! i) = train_size s0"
      using True P0 by (simp add: row_widths_def)
    then have P1: "?Q s1" using P0 by (simp add: s1_def calls_ok_def row_widths_def)
    have fr: "calls s' = calls s1 \<and> y_train s' = y_train s1 \<and> y_test s' = y_test s1 \<and>
       train_size s' = train_size s1 \<and> test_size s' = test_size s1 \<and> true_HMM s' = true_HMM s1"
      using run True
      by (auto simp: fit_fold_init_def Let_def s0_def[symmetric] s1_def[symmetric]
          split: prod.splits sum.splits)
    then show ?thesis using P1 by (simp add: calls_ok_def row_widths_def)
  qed
  then show "calls_ok s' \<and> (e = None \<longrightarrow> ?Q s')" by simp
qed

lemma establishes_cell_cv_fit:
  "establishes (\<lambda>s. calls_ok s \<and> row_widths s) (cell_cv_fit cfg L) (\<lambda>s. calls_ok s \<and> row_widths s)"
proof -
  let ?Q = "\<lambda>t. calls_ok t \<and> row_widths t \<and> hmm_n (true_HMM t) = train_size t"
  have a: "establishes (\<lambda>s. calls_ok s \<and> row_widths s)
     (\<lambda>s. (None, s\<lparr>true_HMM := (true_HMM s)\<lparr>hmm_n := train_size s\<rparr>,
                      A_all_cv := zeros4 (cfg_folds cfg) (cfg_inits_cv cfg) (cfg_K cfg) (cfg_K cfg),
                      phi_all_cv := zeros4 (cfg_folds cfg) (cfg_inits_cv cfg) (cfg_K cfg) (cfg_C cfg)\<rparr>)) ?Q"
    by (rule establishesI) (auto simp: calls_ok_def row_widths_def)
  have inner: "establishes ?Q (for_each [0..<cfg_inits_cv cfg] (fit_fold_init cfg L i)) ?Q" for i
    by (rule establishes_for_each) (simp_all add: establishes_fit_fold_init)
  have b: "establishes ?Q (for_each [0..<cfg_folds cfg]
          (\<lambda>i. for_each [0..<cfg_inits_cv cfg] (fit_fold_init cfg L i))) ?Q"
    by (rule establishes_for_each) (simp_all add: inner)
  have "establishes (\<lambda>s. calls_ok s \<and> row_widths s) (cell_cv_fit cfg L) ?Q"
    unfolding cell_cv_fit_def by (rule establishes_and_then[OF a b])
  then show ?thesis by (rule establishes_weaken) simp_all
qed

lemma establishes_score_fold:
  "establishes (\<lambda>s. calls_ok s \<and> row_widths s \<and> hmm_n (true_HMM s) = test_size s)
     (score_fold L i)
     (\<lambda>s. calls_ok s \<and> row_widths s \<and> hmm_n (true_HMM s) = test_size s)"
proof (rule establishesI)
  fix s e s'
  assume P: "calls_ok s \<and> row_widths s \<and> hmm_n (true_HMM s) = test_size s"
    and run: "score_fold L i s = (e, s')"
  let ?Q = "\<lambda>t. calls_ok t \<and> row_widths t \<and> hmm_n (true_HMM t) = test_size t"
  have "?Q s'"
  proof (cases "i < length (y_test s)")
    case False
    then have "s' = s" using run by (auto simp: score_fold_def)
    then show ?thesis using P by simp
  next
    case True
    define c where "c = Call_forwardPass (true_HMM s) (y_test s ! i)"
    have "length (y_test s ! i) = test_size s" using True P by (simp add: row_widths_def)
    then have c: "n_matches c" using P by (simp add: c_def)
    have fr: "(calls s' = calls s @ [c] \<or> calls s' = calls s @ [c, c]) \<and>
       y_train s' = y_train s \<and> y_test s' = y_test s \<and>
       train_size s' = train_size s \<and> test_size s' = test_size s \<and> true_HMM s' = true_HMM s"
      using run True
      by (auto simp: score_fold_def Let_def c_def split: prod.splits sum.splits if_splits)
    then show ?thesis using P c by (auto simp: calls_ok_def row_widths_def)
  qed
  then show "calls_ok s' \<and> (e = None \<longrightarrow> ?Q s')" by simp
qed

lemma establishes_cell_score:
  "establishes (\<lambda>s. calls_ok s \<and> row_widths s) (cell_score cfg L) calls_ok"
proof -
  let ?Q = "\<lambda>t. calls_ok t \<and> row_widths t \<and> hmm_n (true_HMM t) = test_size t"
  have a: "establishes (\<lambda>s. calls_ok s \<and> row_widths s)
     (\<lambda>s. (None, s\<lparr>true_HMM := (true_HMM s)\<lparr>hmm_n := test_size s\<rparr>,
                      true_ll := replicate (cfg_folds cfg) 0,
                      fit_ll := replicate (cfg_folds cfg) 0\<rparr>)) ?Q"
    by (rule establishesI) (auto simp: calls_ok_def row_widths_def)
  have b: "establishes ?Q (for_each [0..<cfg_folds cfg] (score_fold L)) ?Q"
    by (rule establishes_for_each) (simp_all add: establishes_score_fold)
  have c: "establishes ?Q
     (\<lambda>s. (None, s\<lparr>mean_true_ll := mean (true_ll s), mean_fit_ll := mean (fit_ll s)\<rparr>)) calls_ok"
    by (rule establishesI) (auto simp: calls_ok_def)
  show ?thesis
    unfolding cell_score_def
    by (rule establishes_and_then[OF a establishes_and_then[OF b c]])
qed

text \<open>
  Claim C9.  Every call of \<open>fit\<close> and of \<open>forwardPass\<close> that a run of the notebook
  makes is made with the object's field \<open>n\<close> equal to the length of the sequence it
  passes: cell 5 fits the \<open>N\<close> generated points with \<open>n = N\<close>, cell 8 sets \<open>n\<close> to
  \<open>train_size\<close> before it fits the training rows, and cell 9 sets it to \<open>test_size\<close>
  before it scores the test rows.  This holds for every configuration and every
  library whose \<open>generate_data\<close> returns \<open>n\<close> observations, and at whatever cell the
  run stops.
\<close>

theorem every_call_has_n_equal_to_sequence_length:
  assumes "generates_n_points L"
  shows "\<forall>c \<in> set (calls (snd (run_notebook cfg L))). n_matches c"
proof -
  let ?Q2 = "\<lambda>s. calls_ok s \<and> length (true_y s) = hmm_n (true_HMM s)"
  let ?Q5 = "\<lambda>s. calls_ok s \<and> row_widths s"
  have tail: "establishes calls_ok
     (and_then (cell_split cfg) (and_then (cell_cv_fit cfg L) (cell_score cfg L))) calls_ok"
    by (rule establishes_and_then[OF establishes_cell_split
          establishes_and_then[OF establishes_cell_cv_fit establishes_cell_score]])
  have mid: "establishes ?Q2
     (and_then (cell_fit cfg L) (and_then (cell_best_fit L)
        (and_then (cell_split cfg) (and_then (cell_cv_fit cfg L) (cell_score cfg L))))) calls_ok"
    by (rule establishes_and_then[OF establishes_cell_fit
          establishes_and_then[OF establishes_best_fit tail]])
  have all: "establishes calls_ok
     (and_then (cell_instantiate cfg L)
       (and_then (cell_generate_data L)
          (and_then (cell_fit cfg L)
             (and_then (cell_best_fit L)
                (and_then (cell_split cfg)
                   (and_then (cell_cv_fit cfg L) (cell_score cfg L))))))) calls_ok"
    by (rule establishes_and_then[OF establishes_instantiate
          establishes_and_then[OF establishes_generate_data[OF assms] mid]])
  have "calls_ok initial_state" by (simp add: calls_ok_def initial_state_def)
  from establishesD[OF all this, of "fst (run_notebook cfg L)" "snd (run_notebook cfg L)"]
  show ?thesis by (simp add: run_notebook_def calls_ok_def)
qed

subsection \<open>The best-fit selection\<close>

lemma argmax_from_spec:
  "(argmax_from i b m xs = b \<and> (\<forall>x \<in> set xs. x \<le> m)) \<or>
   (i \<le> argmax_from i b m xs \<and> argmax_from i b m xs < i + length xs \<and>
    m < xs ! (argmax_from i b m xs - i) \<and>
    (\<forall>x \<in> set xs. x \<le> xs ! (argmax_from i b m xs - i)) \<and>
    (\<forall>j < argmax_from i b m xs - i. xs ! j < xs ! (argmax_from i b m xs - i)))"
proof (induction xs arbitrary: i b m)
  case Nil
  then show ?case by simp
next
  case (Cons x xs)
  show ?case
  proof (cases "m < x")
    case True
    define r where "r = argmax_from (Suc i) i x xs"
    have res: "argmax_from i b m (x # xs) = r" using True by (simp add: r_def)
    from Cons.IH[of "Suc i" i x] consider
      (stay) "r = i" "\<forall>z \<in> set xs. z \<le> x"
      | (move) "Suc i \<le> r" "r < Suc i + length xs" "x < xs ! (r - Suc i)"
          "\<forall>z \<in> set xs. z \<le> xs ! (r - Suc i)" "\<forall>j < r - Suc i. xs ! j < xs ! (r - Suc i)"
      unfolding r_def by blast
    then show ?thesis
    proof cases
      case stay
      then show ?thesis unfolding res using True by auto
    next
      case move
      have idx: "(x # xs) ! (r - i) = xs ! (r - Suc i)" using move(1) by (simp add: nth_Cons')
      have lt: "\<forall>j < r - i. (x # xs) ! j < xs ! (r - Suc i)"
      proof (intro allI impI)
        fix j assume "j < r - i"
        then show "(x # xs) ! j < xs ! (r - Suc i)"
          using move(3,5) by (cases j) auto
      qed
      show ?thesis unfolding res idx using move True lt by (intro disjI2) auto
    qed
  next
    case False
    define r where "r = argmax_from (Suc i) b m xs"
    have res: "argmax_from i b m (x # xs) = r" using False by (simp add: r_def)
    from Cons.IH[of "Suc i" b m] consider
      (stay) "r = b" "\<forall>z \<in> set xs. z \<le> m"
      | (move) "Suc i \<le> r" "r < Suc i + length xs" "m < xs ! (r - Suc i)"
          "\<forall>z \<in> set xs. z \<le> xs ! (r - Suc i)" "\<forall>j < r - Suc i. xs ! j < xs ! (r - Suc i)"
      unfolding r_def by blast
    then show ?thesis
    proof cases
      case stay
      then show ?thesis unfolding res using False by auto
    next
      case move
      have idx: "(x # xs) ! (r - i) = xs ! (r - Suc i)" using move(1) by (simp add: nth_Cons')
      have lt: "\<forall>j < r - i. (x # xs) ! j < xs ! (r - Suc i)"
      proof (intro allI impI)
        fix j assume "j < r - i"
        then show "(x # xs) ! j < xs ! (r - Suc i)"
          using move(3,5) False by (cases j) auto
      qed
      show ?thesis unfolding res idx using move False lt by (intro disjI2) auto
    qed
  qed
qed

lemma argmax_first_maximum:
  assumes "argmax xs = Inr r"
  shows "r < length xs \<and> (\<forall>j < length xs. xs ! j \<le> xs ! r) \<and> (\<forall>j < r. xs ! j < xs ! r)"
proof -
  from assms obtain x rest where xs: "xs = x # rest" and r: "r = argmax_from 1 0 x rest"
    by (auto simp: argmax_def split: list.splits)
  have "(r = 0 \<and> (\<forall>z \<in> set rest. z \<le> x)) \<or>
     (1 \<le> r \<and> r < 1 + length rest \<and> x < rest ! (r - 1) \<and>
      (\<forall>z \<in> set rest. z \<le> rest ! (r - 1)) \<and> (\<forall>j < r - 1. rest ! j < rest ! (r - 1)))"
    unfolding r by (rule argmax_from_spec)
  then consider
    (stay) "r = 0" "\<forall>z \<in> set rest. z \<le> x"
    | (move) "1 \<le> r" "r < 1 + length rest" "x < rest ! (r - 1)"
        "\<forall>z \<in> set rest. z \<le> rest ! (r - 1)" "\<forall>j < r - 1. rest ! j < rest ! (r - 1)"
    by blast
  then show ?thesis
  proof cases
    case stay
    have "\<forall>j < length xs. xs ! j \<le> x"
      using stay(2) by (auto simp: xs nth_Cons' )
    then show ?thesis using stay(1) by (simp add: xs)
  next
    case move
    have idx: "xs ! r = rest ! (r - 1)" using move(1) by (simp add: xs nth_Cons')
    have le: "\<forall>j < length xs. xs ! j \<le> rest ! (r - 1)"
      using move(3,4) by (auto simp: xs nth_Cons' )
    have lt: "\<forall>j < r. xs ! j < rest ! (r - 1)"
    proof (intro allI impI)
      fix j assume "j < r"
      then show "xs ! j < rest ! (r - 1)" using move(3,5) by (cases j) (auto simp: xs)
    qed
    show ?thesis unfolding idx using move(2) le lt by (simp add: xs)
  qed
qed

text \<open>
  Claim C4.  \<open>find_best_fit\<close> returns the index of the initialization whose trajectory
  ends in the largest value, and among several that end in that value the one with the
  lowest index.  It returns an index whenever there is at least one trajectory and none
  is empty; whenever it returns \<open>b\<close>, no trajectory ends higher than trajectory \<open>b\<close>
  and every trajectory before \<open>b\<close> ends strictly lower.
\<close>

theorem find_best_fit_selects_first_maximal_final_value:
  "(lls \<noteq> [] \<and> (\<forall>row \<in> set lls. row \<noteq> []) \<longrightarrow> (\<exists>b. find_best_fit lls = Inr b)) \<and>
   (\<forall>b. find_best_fit lls = Inr b \<longrightarrow>
      b < length lls \<and>
      (\<forall>j < length lls. last (lls ! j) \<le> last (lls ! b)) \<and>
      (\<forall>j < b. last (lls ! j) < last (lls ! b)))"
proof (rule conjI)
  show "lls \<noteq> [] \<and> (\<forall>row \<in> set lls. row \<noteq> []) \<longrightarrow> (\<exists>b. find_best_fit lls = Inr b)"
    by (cases lls) (auto simp: find_best_fit_def argmax_def)
next
  show "\<forall>b. find_best_fit lls = Inr b \<longrightarrow>
      b < length lls \<and>
      (\<forall>j < length lls. last (lls ! j) \<le> last (lls ! b)) \<and>
      (\<forall>j < b. last (lls ! j) < last (lls ! b))"
  proof (rule allI, rule impI)
    fix b assume b: "find_best_fit lls = Inr b"
    then have "argmax (map last lls) = Inr b"
      by (simp add: find_best_fit_def split: if_splits)
    note am = argmax_first_maximum[OF this]
    have 1: "b < length lls" using am by simp
    have 2: "last (lls ! j) \<le> last (lls ! b)" if "j < length lls" for j
    proof -
      have "j < length (map last lls)" using that by simp
      then have "map last lls ! j \<le> map last lls ! b" using am by blast
      then show ?thesis using that 1 by simp
    qed
    have 3: "last (lls ! j) < last (lls ! b)" if "j < b" for j
    proof -
      have "j < length lls" using that 1 by simp
      moreover have "map last lls ! j < map last lls ! b" using am that by blast
      ultimately show ?thesis using 1 by simp
    qed
    show "b < length lls \<and>
      (\<forall>j < length lls. last (lls ! j) \<le> last (lls ! b)) \<and>
      (\<forall>j < b. last (lls ! j) < last (lls ! b))"
      using 1 2 3 by blast
  qed
qed

subsection \<open>The forward pass\<close>

lemma sum_list_map_upt: "sum_list (map f [0..<K]) = (\<Sum>k<K. f k)"
  by (induction K) simp_all

lemma sum_list_eq_sum_nth: "length a = K \<Longrightarrow> sum_list a = (\<Sum>k<K. a ! k)"
  by (simp add: sum_list_sum_nth atLeast0LessThan)

lemma rescale_Inr:
  assumes "rescale v = Inr (a, c)"
  shows "c = sum_list v \<and> 0 < c \<and> a = map (\<lambda>x. x / c) v"
  using assms by (auto simp: rescale_def Let_def split: if_splits)

lemma rescale_Inl: "rescale v = Inl e \<Longrightarrow> e = NonFiniteLikelihood \<and> sum_list v \<le> 0"
  by (auto simp: rescale_def Let_def split: if_splits)

lemma rescale_pos: "0 < sum_list v \<Longrightarrow> rescale v = Inr (map (\<lambda>x. x / sum_list v) v, sum_list v)"
  by (simp add: rescale_def Let_def)

lemma length_weight [simp]: "length (weight K phi y v) = K"
  by (simp add: weight_def)

lemma weight_nth [simp]: "k < K \<Longrightarrow> weight K phi y v ! k = phi ! k ! y * v ! k"
  by (simp add: weight_def)

lemma length_predict [simp]: "length (predict K A a) = K"
  by (simp add: predict_def)

lemma predict_nth [simp]: "k < K \<Longrightarrow> predict K A a ! k = (\<Sum>i<K. a ! i * A ! i ! k)"
  by (simp add: predict_def)

lemma sum_list_weight: "sum_list (weight K phi y v) = (\<Sum>k<K. phi ! k ! y * v ! k)"
  by (simp add: weight_def sum_list_map_upt)

lemma normalized_sum:
  assumes "0 < sum_list (v :: real list)"
  shows "sum_list (map (\<lambda>x. x / sum_list v) v) = 1"
proof -
  have "sum_list (map (\<lambda>x. x / c) v) = sum_list v / c" for c :: real
    by (induction v) (simp_all add: add_divide_distrib)
  then show ?thesis using assms by simp
qed

lemma forward_steps_spec:
  assumes "forward_steps K A phi a ys = Inr (as, cs)"
    and "\<forall>k<K. a ! k * P = alpha_spec K A phi p y t k"
    and "\<forall>j<length ys. ys ! j = y ! (Suc t + j)"
  shows "length as = length ys \<and> length cs = length ys \<and>
         (\<forall>c \<in> set cs. 0 < c) \<and> (\<forall>a' \<in> set as. length a' = K \<and> sum_list a' = 1) \<and>
         (\<forall>j<length ys. \<forall>k<K.
            as ! j ! k * (P * prod_list (take (Suc j) cs)) = alpha_spec K A phi p y (Suc t + j) k)"
  using assms
proof (induction ys arbitrary: a P t as cs)
  case Nil
  then show ?case by simp
next
  case (Cons y1 ys)
  define v where "v = weight K phi y1 (predict K A a)"
  from Cons.prems(1) obtain a' c as' cs' where
    r: "rescale v = Inr (a', c)" and rest: "forward_steps K A phi a' ys = Inr (as', cs')"
    and as: "as = a' # as'" and cs: "cs = c # cs'"
    by (auto simp: v_def split: sum.splits prod.splits)
  note rs = rescale_Inr[OF r]
  have c: "0 < c" and cv: "c = sum_list v" and a': "a' = map (\<lambda>x. x / c) v" using rs by simp_all
  have la': "length a' = K" by (simp add: a' v_def)
  have sa': "sum_list a' = 1" using normalized_sum[of v] c cv a' by simp
  have y1: "y1 = y ! Suc t" using Cons.prems(3) by auto
  have step: "a' ! k * (P * c) = alpha_spec K A phi p y (Suc t) k" if "k < K" for k
  proof -
    have "a' ! k * (P * c) = v ! k * P" using c that by (simp add: a' v_def)
    also have "\<dots> = phi ! k ! y1 * (\<Sum>i<K. (a ! i * P) * A ! i ! k)"
      using that by (simp add: v_def sum_distrib_left mult_ac)
    also have "\<dots> = phi ! k ! y1 * (\<Sum>i<K. alpha_spec K A phi p y t i * A ! i ! k)"
      using Cons.prems(2) by simp
    finally show ?thesis by (simp add: y1)
  qed
  have ys: "\<forall>j<length ys. ys ! j = y ! (Suc (Suc t) + j)"
    using Cons.prems(3) by fastforce
  note IH = Cons.IH[OF rest _ ys, of "P * c"]
  have ih: "length as' = length ys \<and> length cs' = length ys \<and>
         (\<forall>c \<in> set cs'. 0 < c) \<and> (\<forall>a' \<in> set as'. length a' = K \<and> sum_list a' = 1) \<and>
         (\<forall>j<length ys. \<forall>k<K.
            as' ! j ! k * (P * c * prod_list (take (Suc j) cs')) = alpha_spec K A phi p y (Suc (Suc t) + j) k)"
    using IH step by blast
  have main: "as ! j ! k * (P * prod_list (take (Suc j) cs)) = alpha_spec K A phi p y (Suc t + j) k"
    if "j < length (y1 # ys)" "k < K" for j k
  proof (cases j)
    case 0
    then show ?thesis using step[OF that(2)] by (simp add: as cs)
  next
    case (Suc j')
    then have "j' < length ys" using that(1) by simp
    then have "as' ! j' ! k * (P * c * prod_list (take (Suc j') cs')) =
        alpha_spec K A phi p y (Suc (Suc t) + j') k" using ih that(2) by blast
    then show ?thesis by (simp add: Suc as cs mult.assoc)
  qed
  show ?case using ih c la' sa' main by (auto simp: as cs)
qed

lemma valid_entries:
  assumes "valid_params K C A phi p"
  shows "i < K \<Longrightarrow> k < K \<Longrightarrow> 0 \<le> A ! i ! k"
    and "k < K \<Longrightarrow> c < C \<Longrightarrow> 0 \<le> phi ! k ! c"
    and "k < K \<Longrightarrow> 0 \<le> p ! k"
  using assms unfolding valid_params_def well_shaped_def stochastic_def
  by (metis nth_mem)+

lemma unscaled_step:
  assumes "\<forall>k<K. a ! k * P = alpha_spec K A phi p y t k" and "k < K"
  shows "weight K phi (y ! Suc t) (predict K A a) ! k * P = alpha_spec K A phi p y (Suc t) k"
proof -
  have "weight K phi (y ! Suc t) (predict K A a) ! k * P
      = phi ! k ! (y ! Suc t) * (\<Sum>i<K. (a ! i * P) * A ! i ! k)"
    using assms(2) by (simp add: sum_distrib_left mult_ac)
  also have "\<dots> = phi ! k ! (y ! Suc t) * (\<Sum>i<K. alpha_spec K A phi p y t i * A ! i ! k)"
    using assms(1) by simp
  finally show ?thesis by simp
qed

lemma alpha_spec_nonneg:
  assumes "valid_params K C A phi p" and "\<forall>t<length y. y ! t < C"
  shows "t < length y \<Longrightarrow> k < K \<Longrightarrow> 0 \<le> alpha_spec K A phi p y t k"
proof (induction t arbitrary: k)
  case 0
  then show ?case using valid_entries[OF assms(1)] assms(2) by simp
next
  case (Suc t)
  have "0 \<le> (\<Sum>i<K. alpha_spec K A phi p y t i * A ! i ! k)"
    using Suc valid_entries(1)[OF assms(1)] by (intro sum_nonneg mult_nonneg_nonneg) auto
  moreover have "0 \<le> phi ! k ! (y ! Suc t)"
    using Suc.prems assms(2) valid_entries(2)[OF assms(1)] by simp
  ultimately show ?case by simp
qed

lemma alpha_spec_zero_propagates:
  assumes "\<forall>k<K. alpha_spec K A phi p y t k = 0"
  shows "\<forall>k<K. alpha_spec K A phi p y (t + m) k = 0"
  using assms by (induction m) simp_all

lemma likelihood_pos_earlier:
  assumes v: "valid_params K C A phi p" and y: "\<forall>t<length y. y ! t < C"
    and later: "0 < (\<Sum>k<K. alpha_spec K A phi p y (t + m) k)" and "t + m < length y"
  shows "0 < (\<Sum>k<K. alpha_spec K A phi p y t k)"
proof (rule ccontr)
  assume "\<not> 0 < (\<Sum>k<K. alpha_spec K A phi p y t k)"
  moreover have nn: "\<forall>k\<in>{..<K}. 0 \<le> alpha_spec K A phi p y t k"
    using alpha_spec_nonneg[OF v y, of t] assms(4) by simp
  then have "0 \<le> (\<Sum>k<K. alpha_spec K A phi p y t k)" by (intro sum_nonneg) simp
  ultimately have "(\<Sum>k<K. alpha_spec K A phi p y t k) = 0" by simp
  then have "\<forall>k<K. alpha_spec K A phi p y t k = 0"
    using nn sum_nonneg_eq_0_iff[of "{..<K}" "alpha_spec K A phi p y t"] by auto
  from alpha_spec_zero_propagates[OF this, of m] later show False by simp
qed

lemma forward_steps_total:
  assumes v: "valid_params K C A phi p" and y: "\<forall>t<length y. y ! t < C"
    and "\<forall>k<K. a ! k * P = alpha_spec K A phi p y t k"
    and "0 < P"
    and "\<forall>j<length ys. ys ! j = y ! (Suc t + j)"
    and "t + length ys < length y"
    and "0 < (\<Sum>k<K. alpha_spec K A phi p y (t + length ys) k)"
  shows "\<exists>as cs. forward_steps K A phi a ys = Inr (as, cs)"
  using assms(3-)
proof (induction ys arbitrary: a P t)
  case Nil
  then show ?case by simp
next
  case (Cons y1 ys)
  define w where "w = weight K phi y1 (predict K A a)"
  have y1: "y1 = y ! Suc t" using Cons.prems(3) by auto
  have wk: "w ! k * P = alpha_spec K A phi p y (Suc t) k" if "k < K" for k
    using unscaled_step[OF Cons.prems(1) that] by (simp add: w_def y1)
  have "length w = K" by (simp add: w_def)
  then have "sum_list w * P = (\<Sum>k<K. w ! k * P)"
    by (simp only: sum_list_eq_sum_nth[of w K] sum_distrib_right)
  also have "\<dots> = (\<Sum>k<K. alpha_spec K A phi p y (Suc t) k)" using wk by simp
  also have "\<dots> > 0"
    using likelihood_pos_earlier[OF v y, of "Suc t" "length ys"] Cons.prems(4,5) by simp
  finally have "0 < sum_list w * P" .
  then have c: "0 < sum_list w" using Cons.prems(2) by (simp add: zero_less_mult_iff)
  define a' where "a' = map (\<lambda>x. x / sum_list w) w"
  have r: "rescale w = Inr (a', sum_list w)" using rescale_pos[OF c] by (simp add: a'_def)
  have a'k: "\<forall>k<K. a' ! k * (P * sum_list w) = alpha_spec K A phi p y (Suc t) k"
  proof (intro allI impI)
    fix k assume k: "k < K"
    then have "a' ! k = w ! k / sum_list w" using \<open>length w = K\<close> by (simp add: a'_def)
    then have "a' ! k * (P * sum_list w) = w ! k * P" using c by simp
    then show "a' ! k * (P * sum_list w) = alpha_spec K A phi p y (Suc t) k"
      using wk[OF k] by simp
  qed
  have ys: "\<forall>j<length ys. ys ! j = y ! (Suc (Suc t) + j)" using Cons.prems(3) by fastforce
  have "\<exists>as cs. forward_steps K A phi a' ys = Inr (as, cs)"
    using Cons.IH[OF a'k _ ys] Cons.prems(2,4,5) c by simp
  then show ?case using r by (auto simp: w_def[symmetric])
qed

lemma forward_steps_error: "forward_steps K A phi a ys = Inl e \<Longrightarrow> e = NonFiniteLikelihood"
  by (induction ys arbitrary: a) (auto split: sum.splits prod.splits dest: rescale_Inl)

lemma sum_list_ln: "\<forall>c \<in> set cs. 0 < c \<Longrightarrow> sum_list (map ln cs) = ln (prod_list cs) \<and> 0 < prod_list (cs :: real list)"
  by (induction cs) (simp_all add: ln_mult)

lemma forward_scaled_unfold:
  assumes v: "well_shaped (hmm_k h) (hmm_c h) A phi (initial_distribution (hmm_k h) q0)"
    and n: "hmm_n h = length y" and T: "1 \<le> length y" and sym: "\<forall>t<length y. y ! t < hmm_c h"
  shows "forward_scaled h y A phi q0 =
     (case rescale (weight (hmm_k h) phi (y ! 0) (initial_distribution (hmm_k h) q0)) of
        Inl e \<Rightarrow> Inl e
      | Inr (a0, c0) \<Rightarrow>
          (case forward_steps (hmm_k h) A phi a0 (tl y) of
             Inl e \<Rightarrow> Inl e
           | Inr (as, cs) \<Rightarrow> Inr (a0 # as, c0 # cs)))"
proof -
  have ne: "(\<exists>t<length y. hmm_c h \<le> y ! t) = False" using sym by (auto simp: not_le)
  have y: "y \<noteq> []" "take (length y) y = y" using T by auto
  show ?thesis
    using v n y by (simp add: forward_scaled_def Let_def ne
        cong: sum.case_cong prod.case_cong)
qed

lemma forward_scaled_success:
  assumes v: "well_shaped (hmm_k h) (hmm_c h) A phi (initial_distribution (hmm_k h) q0)"
    and n: "hmm_n h = length y" and T: "1 \<le> length y" and sym: "\<forall>t<length y. y ! t < hmm_c h"
    and ok: "forward_scaled h y A phi q0 = Inr (alpha, cs)"
  shows "length alpha = length y \<and> (\<forall>c \<in> set cs. 0 < c) \<and>
         (\<forall>t<length y. \<forall>k<hmm_k h.
            unscaled alpha cs t k =
              alpha_spec (hmm_k h) A phi (initial_distribution (hmm_k h) q0) y t k) \<and>
         likelihood_spec (hmm_k h) A phi (initial_distribution (hmm_k h) q0) y = prod_list cs"
proof -
  define K where "K = hmm_k h"
  define p where "p = initial_distribution K q0"
  define w0 where "w0 = weight K phi (y ! 0) p"
  from ok obtain a0 c0 as cs1 where
    r: "rescale w0 = Inr (a0, c0)" and fs: "forward_steps K A phi a0 (tl y) = Inr (as, cs1)"
    and alpha: "alpha = a0 # as" and cs: "cs = c0 # cs1"
    unfolding forward_scaled_unfold[OF v n T sym] K_def[symmetric] p_def[symmetric] w0_def[symmetric]
    by (auto split: sum.splits prod.splits)
  note rs = rescale_Inr[OF r]
  have c0: "0 < c0" and a0: "a0 = map (\<lambda>x. x / c0) w0" and c0s: "c0 = sum_list w0"
    using rs by simp_all
  have lw: "length w0 = K" by (simp add: w0_def)
  have a0k: "\<forall>k<K. a0 ! k * c0 = alpha_spec K A phi p y 0 k"
    using c0 lw by (simp add: a0 w0_def mult.commute)
  have tl: "\<forall>j<length (tl y). tl y ! j = y ! (Suc 0 + j)"
    by (simp add: nth_tl)
  note sp = forward_steps_spec[OF fs a0k tl]
  have las: "length as = length y - 1" and lcs: "length cs1 = length y - 1" using sp by simp_all
  have len: "length alpha = length y" using las T by (simp add: alpha)
  have pos: "\<forall>c \<in> set cs. 0 < c" using sp c0 by (simp add: cs)
  have un: "unscaled alpha cs t k = alpha_spec K A phi p y t k" if "t < length y" "k < K" for t k
  proof (cases t)
    case 0
    then show ?thesis using a0k that(2) by (simp add: unscaled_def alpha cs)
  next
    case (Suc j)
    then have "j < length (tl y)" using that(1) by simp
    then have "as ! j ! k * (c0 * prod_list (take (Suc j) cs1)) = alpha_spec K A phi p y (Suc 0 + j) k"
      using sp that(2) by blast
    then show ?thesis by (simp add: unscaled_def alpha cs Suc)
  qed
  have norm: "(\<Sum>k<K. alpha ! (length y - 1) ! k) = 1"
  proof (cases "length y - 1")
    case 0
    have "sum_list a0 = 1" using normalized_sum[of w0] c0 c0s a0 by simp
    moreover have "length a0 = K" by (simp add: a0 lw)
    ultimately show ?thesis using 0 by (simp add: alpha sum_list_eq_sum_nth[of a0 K])
  next
    case (Suc j)
    then have "as ! j \<in> set as" using las by simp
    then have "length (as ! j) = K" "sum_list (as ! j) = 1" using sp by blast+
    then show ?thesis using Suc by (simp add: alpha sum_list_eq_sum_nth[of "as ! j" K])
  qed
  have tk: "take (Suc (length y - Suc 0)) cs = cs" using lcs by (simp add: cs)
  have "likelihood_spec K A phi p y = (\<Sum>k<K. unscaled alpha cs (length y - 1) k)"
    unfolding likelihood_spec_def using un[of "length y - 1"] T by simp
  also have "\<dots> = (\<Sum>k<K. alpha ! (length y - 1) ! k) * prod_list cs"
    by (simp add: unscaled_def tk sum_distrib_right)
  finally have "likelihood_spec K A phi p y = prod_list cs" using norm by simp
  then show ?thesis using len pos un by (simp add: K_def p_def)
qed

lemma forward_scaled_total:
  assumes v: "valid_params (hmm_k h) (hmm_c h) A phi (initial_distribution (hmm_k h) q0)"
    and n: "hmm_n h = length y" and T: "1 \<le> length y" and sym: "\<forall>t<length y. y ! t < hmm_c h"
    and L: "0 < likelihood_spec (hmm_k h) A phi (initial_distribution (hmm_k h) q0) y"
  shows "\<exists>alpha cs. forward_scaled h y A phi q0 = Inr (alpha, cs)"
proof -
  define K where "K = hmm_k h"
  define p where "p = initial_distribution K q0"
  define w0 where "w0 = weight K phi (y ! 0) p"
  have ws: "well_shaped (hmm_k h) (hmm_c h) A phi (initial_distribution (hmm_k h) q0)"
    using v by (simp add: valid_params_def)
  have v': "valid_params K (hmm_c h) A phi p" using v by (simp add: K_def p_def)
  have lw: "length w0 = K" by (simp add: w0_def)
  have w0k: "w0 ! k = alpha_spec K A phi p y 0 k" if "k < K" for k
    using that by (simp add: w0_def mult.commute)
  have "sum_list w0 = (\<Sum>k<K. alpha_spec K A phi p y 0 k)"
    using w0k by (simp add: sum_list_eq_sum_nth[OF lw])
  also have "\<dots> > 0"
    using likelihood_pos_earlier[OF v' sym, of 0 "length y - 1"] L T
    by (simp add: likelihood_spec_def K_def p_def)
  finally have c0: "0 < sum_list w0" .
  define a0 where "a0 = map (\<lambda>x. x / sum_list w0) w0"
  have r: "rescale w0 = Inr (a0, sum_list w0)" using rescale_pos[OF c0] by (simp add: a0_def)
  have a0k: "\<forall>k<K. a0 ! k * sum_list w0 = alpha_spec K A phi p y 0 k"
    using c0 lw w0k by (simp add: a0_def)
  have tl: "\<forall>j<length (tl y). tl y ! j = y ! (Suc 0 + j)" by (simp add: nth_tl)
  have "\<exists>as cs. forward_steps K A phi a0 (tl y) = Inr (as, cs)"
    using forward_steps_total[OF v' sym a0k c0 tl] L T
    by (simp add: likelihood_spec_def K_def p_def)
  then show ?thesis
    unfolding forward_scaled_unfold[OF ws n T sym] K_def[symmetric] p_def[symmetric] w0_def[symmetric]
    using r by auto
qed

lemma forward_scaled_error:
  assumes v: "well_shaped (hmm_k h) (hmm_c h) A phi (initial_distribution (hmm_k h) q0)"
    and n: "hmm_n h = length y" and T: "1 \<le> length y" and sym: "\<forall>t<length y. y ! t < hmm_c h"
    and err: "forward_scaled h y A phi q0 = Inl e"
  shows "e = NonFiniteLikelihood"
  using err unfolding forward_scaled_unfold[OF v n T sym]
  by (auto split: sum.splits prod.splits dest: rescale_Inl forward_steps_error)

text \<open>
  Claim C6.  For valid parameters and a sequence \<open>y\<close> of \<open>T \<ge> 1\<close> symbols, passed with
  the field \<open>n\<close> equal to \<open>T\<close>, the forward pass computes the forward recursion: the
  scaled table it returns, multiplied back by its scale factors, is
  \<open>\<alpha>\<^sub>1(k) = \<pi>(k) \<phi>(k, y\<^sub>1)\<close> and \<open>\<alpha>\<^sub>t(k) = \<phi>(k, y\<^sub>t) \<Sum>\<^sub>i \<alpha>\<^sub>t\<^sub>-\<^sub>1(i) A(i, k)\<close>, and the log
  likelihood it returns is the logarithm of \<open>\<Sum>\<^sub>k \<alpha>\<^sub>T(k)\<close>.  When that sum is zero the
  sequence is impossible under the parameters and the pass reports it instead of
  returning a logarithm.
\<close>

theorem forwardPass_is_the_forward_recursion:
  assumes v: "valid_params (hmm_k h) (hmm_c h) A phi (initial_distribution (hmm_k h) q0)"
    and n: "hmm_n h = length y" and T: "1 \<le> length y" and sym: "\<forall>t<length y. y ! t < hmm_c h"
  shows "if 0 < likelihood_spec (hmm_k h) A phi (initial_distribution (hmm_k h) q0) y
         then \<exists>alpha cs.
                forwardPass h y A phi q0 =
                  Inr (ln (likelihood_spec (hmm_k h) A phi (initial_distribution (hmm_k h) q0) y), alpha, cs) \<and>
                length alpha = length y \<and>
                (\<forall>t<length y. \<forall>k<hmm_k h.
                   unscaled alpha cs t k =
                     alpha_spec (hmm_k h) A phi (initial_distribution (hmm_k h) q0) y t k)
         else forwardPass h y A phi q0 = Inl NonFiniteLikelihood"
proof -
  have ws: "well_shaped (hmm_k h) (hmm_c h) A phi (initial_distribution (hmm_k h) q0)"
    using v by (simp add: valid_params_def)
  show ?thesis
  proof (cases "0 < likelihood_spec (hmm_k h) A phi (initial_distribution (hmm_k h) q0) y")
    case True
    from forward_scaled_total[OF v n T sym True] obtain alpha cs where
      ok: "forward_scaled h y A phi q0 = Inr (alpha, cs)" by blast
    note f = forward_scaled_success[OF ws n T sym ok]
    have "sum_list (map ln cs) = ln (prod_list cs)" using sum_list_ln[of cs] f by blast
    then have "forwardPass h y A phi q0 =
        Inr (ln (likelihood_spec (hmm_k h) A phi (initial_distribution (hmm_k h) q0) y), alpha, cs)"
      using ok f by (simp add: forwardPass_def)
    then show ?thesis using True f by auto
  next
    case False
    have "forward_scaled h y A phi q0 = Inl NonFiniteLikelihood"
    proof (cases "forward_scaled h y A phi q0")
      case (Inl e)
      then show ?thesis using forward_scaled_error[OF ws n T sym Inl] by simp
    next
      case (Inr r)
      obtain alpha cs where "r = (alpha, cs)" by (cases r)
      with Inr have ok: "forward_scaled h y A phi q0 = Inr (alpha, cs)" by simp
      note f = forward_scaled_success[OF ws n T sym ok]
      have "0 < prod_list cs" using sum_list_ln[of cs] f by blast
      then show ?thesis using f False by simp
    qed
    then show ?thesis using False by (simp add: forwardPass_def)
  qed
qed

subsection \<open>A run of the notebook\<close>

text \<open>
  The notebook is run on \<open>demo_config\<close> with \<open>demo_library\<close>, cell by cell.  With the
  uniform transition matrix every row of the predicted state distribution is the same,
  which gives the forward pass a closed form and keeps the evaluation short.
\<close>

lemma predict_demo_A:
  assumes "length a = 2" and "sum_list a = 1"
  shows "predict 2 demo_A a = [1/2, 1/2]"
proof -
  obtain a0 a1 where a: "a = [a0, a1]"
    using assms(1) by (cases a; cases "tl a") (auto simp: numeral_2_eq_2 length_Suc_conv)
  have "a0 + a1 = 1" using assms(2) by (simp add: a)
  then have "a0 / 2 + a1 / 2 = 1 / 2" by (simp add: add_divide_distrib[symmetric])
  then show ?thesis
    by (simp add: predict_def demo_A_def a numeral_2_eq_2 lessThan_Suc)
qed

lemma forward_steps_demo:
  assumes step: "\<And>y. y < 2 \<Longrightarrow>
      rescale (weight 2 phi y [1/2, 1/2]) = Inr (post y, c y) \<and> length (post y) = 2 \<and> sum_list (post y) = 1"
    and "length a = 2" and "sum_list a = 1" and "\<forall>y \<in> set ys. y < 2"
  shows "forward_steps 2 demo_A phi a ys = Inr (map post ys, map c ys)"
  using assms(2-)
proof (induction ys arbitrary: a)
  case Nil
  then show ?case by simp
next
  case (Cons y ys)
  have y: "y < 2" using Cons.prems(3) by simp
  note s = step[OF y]
  have "forward_steps 2 demo_A phi (post y) ys = Inr (map post ys, map c ys)"
    using Cons.IH[of "post y"] s Cons.prems(3) by simp
  then show ?case
    using s by (simp add: predict_demo_A[OF Cons.prems(1,2)])
qed

lemma forward_scaled_demo:
  assumes step: "\<And>y. y < 2 \<Longrightarrow>
      rescale (weight 2 phi y [1/2, 1/2]) = Inr (post y, c y) \<and> length (post y) = 2 \<and> sum_list (post y) = 1"
    and shape: "length phi = 2" "\<forall>row \<in> set phi. length row = 2"
    and y: "y \<noteq> []" "\<forall>t<length y. y ! t < 2"
  shows "forward_scaled (hmm_of (length y)) y demo_A phi None = Inr (map post y, map c y)"
proof -
  obtain y0 ys where yy: "y = y0 # ys" using y(1) by (cases y) auto
  have y0: "y0 < 2" using y(2) by (auto simp: yy)
  have ys: "\<forall>z \<in> set ys. z < 2"
  proof
    fix z assume "z \<in> set ys"
    then obtain j where "j < length ys" "ys ! j = z" by (auto simp: in_set_conv_nth)
    then show "z < 2" using y(2)[rule_format, of "Suc j"] by (simp add: yy)
  qed
  have ws: "well_shaped (hmm_k (hmm_of (length y))) (hmm_c (hmm_of (length y))) demo_A phi
      (initial_distribution (hmm_k (hmm_of (length y))) None)"
    using shape by (simp add: well_shaped_def hmm_of_def demo_A_def initial_distribution_def uniform_def)
  have u: "initial_distribution 2 None = [1/2, 1/2]"
    by (simp add: initial_distribution_def uniform_def numeral_2_eq_2)
  note s0 = step[OF y0]
  have fs: "forward_steps 2 demo_A phi (post y0) ys = Inr (map post ys, map c ys)"
    using forward_steps_demo[OF step _ _ ys, of "post y0"] s0 by simp
  have "forward_scaled (hmm_of (length y)) y demo_A phi None =
     (case rescale (weight 2 phi (y ! 0) (initial_distribution 2 None)) of
        Inl e \<Rightarrow> Inl e
      | Inr (a0, c0) \<Rightarrow>
          (case forward_steps 2 demo_A phi a0 (tl y) of
             Inl e \<Rightarrow> Inl e
           | Inr (as, cs) \<Rightarrow> Inr (a0 # as, c0 # cs)))"
  proof -
    have l: "1 \<le> length y" using y(1) by (cases y) auto
    have sym: "\<forall>t<length y. y ! t < hmm_c (hmm_of (length y))" using y(2) by (simp add: hmm_of_def)
    have n: "hmm_n (hmm_of (length y)) = length y" by (simp add: hmm_of_def)
    have k: "hmm_k (hmm_of (length y)) = 2" by (simp add: hmm_of_def)
    show ?thesis using forward_scaled_unfold[OF ws n l sym] unfolding k .
  qed
  then show ?thesis using s0 fs by (simp add: yy u)
qed

lemma step_even:
  "y < 2 \<Longrightarrow> rescale (weight 2 phi_even y [1/2, 1/2])
      = Inr (if y = 0 then [3/4, 1/4] else [1/4, 3/4], 1/2)
     \<and> length (if y = 0 then [3/4, 1/4] else [1/4, 3/4 :: real]) = 2
     \<and> sum_list (if y = 0 then [3/4, 1/4] else [1/4, 3/4 :: real]) = 1"
  by (cases "y = 0") (auto simp: rescale_def weight_def phi_even_def numeral_2_eq_2 less_Suc_eq Let_def)

lemma step_low:
  "y < 2 \<Longrightarrow> rescale (weight 2 phi_low y [1/2, 1/2])
      = Inr (if y = 0 then [3/4, 1/4] else [5/12, 7/12], if y = 0 then 1/4 else 3/4)
     \<and> length (if y = 0 then [3/4, 1/4] else [5/12, 7/12 :: real]) = 2
     \<and> sum_list (if y = 0 then [3/4, 1/4] else [5/12, 7/12 :: real]) = 1"
  by (cases "y = 0") (auto simp: rescale_def weight_def phi_low_def numeral_2_eq_2 less_Suc_eq Let_def)

lemma step_high:
  "y < 2 \<Longrightarrow> rescale (weight 2 phi_high y [1/2, 1/2])
      = Inr (if y = 0 then [7/12, 5/12] else [1/4, 3/4], if y = 0 then 3/4 else 1/4)
     \<and> length (if y = 0 then [7/12, 5/12] else [1/4, 3/4 :: real]) = 2
     \<and> sum_list (if y = 0 then [7/12, 5/12] else [1/4, 3/4 :: real]) = 1"
  by (cases "y = 0") (auto simp: rescale_def weight_def phi_high_def numeral_2_eq_2 less_Suc_eq Let_def)

lemma forwardPass_demo:
  assumes step: "\<And>y. y < 2 \<Longrightarrow>
      rescale (weight 2 phi y [1/2, 1/2]) = Inr (post y, c y) \<and> length (post y) = 2 \<and> sum_list (post y) = 1"
    and shape: "length phi = 2" "\<forall>row \<in> set phi. length row = 2"
    and y: "y \<noteq> []" "\<forall>z \<in> set y. z < 2"
    and n: "length y = m"
  shows "forwardPass (hmm_of m) y demo_A phi None
           = Inr (ln (prod_list (map c y)), map post y, map c y)"
proof -
  have sym: "\<forall>t<length y. y ! t < 2" using y(2) by simp
  have pos: "\<forall>x \<in> set (map c y). 0 < x"
  proof
    fix x assume "x \<in> set (map c y)"
    then obtain z where z: "z \<in> set y" "x = c z" by auto
    then have "rescale (weight 2 phi z [1/2, 1/2]) = Inr (post z, c z)" using step y(2) by blast
    then show "0 < x" using rescale_Inr z(2) by blast
  qed
  have "sum_list (map ln (map c y)) = ln (prod_list (map c y))"
    using sum_list_ln[OF pos] by simp
  then show ?thesis
    using forward_scaled_demo[OF step shape y(1) sym] n by (simp add: forwardPass_def)
qed


lemma pass_fit_full_even:
  "forwardPass (hmm_of 6) [0,0,0,1,1,1] demo_A phi_even None = Inr (ln (1/64), [[3/4,1/4],[3/4,1/4],[3/4,1/4],[1/4,3/4],[1/4,3/4],[1/4,3/4]], [1/2,1/2,1/2,1/2,1/2,1/2])"
  using forwardPass_demo[OF step_even, of "[0,0,0,1,1,1]" 6] by (simp add: phi_even_def)

lemma pass_fit_full_low:
  "forwardPass (hmm_of 6) [0,0,0,1,1,1] demo_A phi_low None = Inr (ln (27/4096), [[3/4,1/4],[3/4,1/4],[3/4,1/4],[5/12,7/12],[5/12,7/12],[5/12,7/12]], [1/4,1/4,1/4,3/4,3/4,3/4])"
  using forwardPass_demo[OF step_low, of "[0,0,0,1,1,1]" 6] by (simp add: phi_low_def)

lemma pass_fit_fold0_even:
  "forwardPass (hmm_of 4) [0,1,1,1] demo_A phi_even None = Inr (ln (1/16), [[3/4,1/4],[1/4,3/4],[1/4,3/4],[1/4,3/4]], [1/2,1/2,1/2,1/2])"
  using forwardPass_demo[OF step_even, of "[0,1,1,1]" 4] by (simp add: phi_even_def)

lemma pass_fit_fold0_low:
  "forwardPass (hmm_of 4) [0,1,1,1] demo_A phi_low None = Inr (ln (27/256), [[3/4,1/4],[5/12,7/12],[5/12,7/12],[5/12,7/12]], [1/4,3/4,3/4,3/4])"
  using forwardPass_demo[OF step_low, of "[0,1,1,1]" 4] by (simp add: phi_low_def)

lemma pass_fit_fold1_even:
  "forwardPass (hmm_of 4) [0,0,1,1] demo_A phi_even None = Inr (ln (1/16), [[3/4,1/4],[3/4,1/4],[1/4,3/4],[1/4,3/4]], [1/2,1/2,1/2,1/2])"
  using forwardPass_demo[OF step_even, of "[0,0,1,1]" 4] by (simp add: phi_even_def)

lemma pass_fit_fold1_low:
  "forwardPass (hmm_of 4) [0,0,1,1] demo_A phi_low None = Inr (ln (9/256), [[3/4,1/4],[3/4,1/4],[5/12,7/12],[5/12,7/12]], [1/4,1/4,3/4,3/4])"
  using forwardPass_demo[OF step_low, of "[0,0,1,1]" 4] by (simp add: phi_low_def)

lemma pass_fit_fold2_high:
  "forwardPass (hmm_of 4) [0,0,0,1] demo_A phi_high None = Inr (ln (27/256), [[7/12,5/12],[7/12,5/12],[7/12,5/12],[1/4,3/4]], [3/4,3/4,3/4,1/4])"
  using forwardPass_demo[OF step_high, of "[0,0,0,1]" 4] by (simp add: phi_high_def)

lemma pass_fit_fold2_even:
  "forwardPass (hmm_of 4) [0,0,0,1] demo_A phi_even None = Inr (ln (1/16), [[3/4,1/4],[3/4,1/4],[3/4,1/4],[1/4,3/4]], [1/2,1/2,1/2,1/2])"
  using forwardPass_demo[OF step_even, of "[0,0,0,1]" 4] by (simp add: phi_even_def)

lemma pass_score_test0_even:
  "forwardPass (hmm_of 2) [0,0] demo_A phi_even None = Inr (ln (1/4), [[3/4,1/4],[3/4,1/4]], [1/2,1/2])"
  using forwardPass_demo[OF step_even, of "[0,0]" 2] by (simp add: phi_even_def)

lemma pass_score_test1_even:
  "forwardPass (hmm_of 2) [0,1] demo_A phi_even None = Inr (ln (1/4), [[3/4,1/4],[1/4,3/4]], [1/2,1/2])"
  using forwardPass_demo[OF step_even, of "[0,1]" 2] by (simp add: phi_even_def)

lemma pass_score_test2_even:
  "forwardPass (hmm_of 2) [1,1] demo_A phi_even None = Inr (ln (1/4), [[1/4,3/4],[1/4,3/4]], [1/2,1/2])"
  using forwardPass_demo[OF step_even, of "[1,1]" 2] by (simp add: phi_even_def)

lemma pass_score_test2_high:
  "forwardPass (hmm_of 2) [1,1] demo_A phi_high None = Inr (ln (1/16), [[1/4,3/4],[1/4,3/4]], [1/4,1/4])"
  using forwardPass_demo[OF step_high, of "[1,1]" 2] by (simp add: phi_high_def)

lemma pass_score_test0_low:
  "forwardPass (hmm_of 2) [0,0] demo_A phi_low None = Inr (ln (1/16), [[3/4,1/4],[3/4,1/4]], [1/4,1/4])"
  using forwardPass_demo[OF step_low, of "[0,0]" 2] by (simp add: phi_low_def)

lemma assign_mat_ok:
  "i < length T \<Longrightarrow> broadcast_to2 r w V = Inr V \<Longrightarrow> assign_mat r w T i V = Inr (T[i := V])"
  by (simp add: assign_mat_def)

lemma assign_mat4_ok:
  "i < length Q \<Longrightarrow> j < length (Q ! i) \<Longrightarrow> broadcast_to2 r w V = Inr V \<Longrightarrow>
   assign_mat4 r w Q i j V = Inr (Q[i := (Q ! i)[j := V]])"
  by (simp add: assign_mat4_def assign_mat_ok)

lemma broadcast_rows_exact:
  "\<forall>row \<in> set V. length row = w \<Longrightarrow> broadcast_rows w V = Inr V"
  by (induction V) (simp_all add: broadcast_to_def)

lemma broadcast_to2_exact:
  "length V = r \<Longrightarrow> \<forall>row \<in> set V. length row = w \<Longrightarrow> broadcast_to2 r w V = Inr V"
  by (simp add: broadcast_to2_def broadcast_rows_exact)

lemma fit_init_ok:
  assumes "lib_generate_params L (true_HMM s) (draws s) = (A0, phi0, p0')"
    and "lib_fit L (true_HMM s) (true_y s) A0 phi0 = Inr (lls, A, phi, q)"
    and "i < length (lls_all s)" and "length (lls_all s ! i) = length lls"
    and "i < length (A_all s)" and "broadcast_to2 (cfg_K cfg) (cfg_K cfg) A = Inr A"
    and "i < length (phi_all s)" and "broadcast_to2 (cfg_K cfg) (cfg_C cfg) phi = Inr phi"
  shows "fit_init cfg L i s =
     (None, s\<lparr>draws := Suc (draws s),
               calls := calls s @ [Call_fit (true_HMM s) (true_y s)],
               lls_all := (lls_all s)[i := lls],
               A_all := (A_all s)[i := A],
               phi_all := (phi_all s)[i := phi],
               pi0 := q\<rparr>)"
  using assms by (simp add: fit_init_def store_fit_def Let_def assign_row_ok assign_mat_ok)

lemma fit_fold_init_ok:
  assumes "lib_generate_params L (true_HMM s) (draws s) = (A0, phi0, p0')"
    and "i < length (y_train s)"
    and "lib_fit L (true_HMM s) (y_train s ! i) A0 phi0 = Inr (lls, A, phi, q)"
    and "i < length (A_all_cv s)" and "j < length (A_all_cv s ! i)"
    and "broadcast_to2 (cfg_K cfg) (cfg_K cfg) A = Inr A"
    and "i < length (phi_all_cv s)" and "j < length (phi_all_cv s ! i)"
    and "broadcast_to2 (cfg_K cfg) (cfg_C cfg) phi = Inr phi"
  shows "fit_fold_init cfg L i j s =
     (None, s\<lparr>draws := Suc (draws s),
               calls := calls s @ [Call_fit (true_HMM s) (y_train s ! i)],
               A_all_cv := (A_all_cv s)[i := (A_all_cv s ! i)[j := A]],
               phi_all_cv := (phi_all_cv s)[i := (phi_all_cv s ! i)[j := phi]],
               pi0 := q\<rparr>)"
  using assms by (simp add: fit_fold_init_def Let_def assign_mat4_ok)

lemma score_fold_ok:
  assumes "i < length (y_test s)"
    and "lib_forwardPass L (true_HMM s) (y_test s ! i) (A_true s) (phi_true s) None = Inr (ll, al, cs)"
    and "i < length (true_ll s)"
    and "i < length (A_all_cv s)" and "bestix s < length (A_all_cv s ! i)"
    and "i < length (phi_all_cv s)" and "bestix s < length (phi_all_cv s ! i)"
    and "lib_forwardPass L (true_HMM s) (y_test s ! i)
           (A_all_cv s ! i ! bestix s) (phi_all_cv s ! i ! bestix s) None = Inr (ll', al', cs')"
    and "i < length (fit_ll s)"
  shows "score_fold L i s =
     (None, s\<lparr>calls := calls s @ [Call_forwardPass (true_HMM s) (y_test s ! i),
                                    Call_forwardPass (true_HMM s) (y_test s ! i)],
               true_ll := (true_ll s)[i := ll],
               fit_ll := (fit_ll s)[i := ll']\<rparr>)"
  using assms by (simp add: score_fold_def Let_def)

lemma demo_fit_eval:
  "forwardPass h y A phi None = Inr (ll, al, cs) \<Longrightarrow>
   demo_fit h y A phi = Inr (replicate lls_width ll, A, phi, uniform (hmm_k h))"
  by (simp add: demo_fit_def)

lemma demo_shapes:
  "broadcast_to2 2 2 demo_A = Inr demo_A" "broadcast_to2 2 2 phi_even = Inr phi_even"
  "broadcast_to2 2 2 phi_low = Inr phi_low" "broadcast_to2 2 2 phi_high = Inr phi_high"
  by (simp_all add: broadcast_to2_exact demo_A_def phi_even_def phi_low_def phi_high_def)

lemma upt_small: "[0..<2] = [0, Suc 0]" "[0..<3] = [0, Suc 0, 2]"
  by (simp_all add: upt_rec)

lemma assemble_fold_step:
  assumes "splits ! i = (tr, te)"
    and "take_indices (true_y s) tr = Inr a" and "take_indices (true_y s) te = Inr b"
    and "assign_row (y_train s) i a = Inr ytr" and "assign_row (y_test s) i b = Inr yte"
  shows "assemble_fold splits i s = (None, s\<lparr>y_train := ytr, y_test := yte\<rparr>)"
  using assms by (simp add: assemble_fold_def)

lemma for_each_two:
  "body 0 s = (None, s1) \<Longrightarrow> body 1 s1 = (None, s2) \<Longrightarrow>
   for_each [0..<2] body s = (None, s2)"
  by (simp add: upt_rec)

lemma for_each_three:
  "body 0 s = (None, s1) \<Longrightarrow> body 1 s1 = (None, s2) \<Longrightarrow> body 2 s2 = (None, s3) \<Longrightarrow>
   for_each [0..<3] body s = (None, s3)"
proof -
  assume a: "body 0 s = (None, s1)" "body 1 s1 = (None, s2)" "body 2 s2 = (None, s3)"
  have "[0..<3] = [0, 1, 2::nat]" by (simp add: upt_rec)
  then show ?thesis using a by simp
qed

lemma and_then_ok: "f s = (None, s1) \<Longrightarrow> g s1 = r \<Longrightarrow> and_then f g s = r"
  by (simp add: and_then_def)

lemma cell_split_unfold:
  assumes "cfg_folds cfg \<noteq> 0"
    and "KFold_split (cfg_folds cfg) (length (true_y s)) = Inr splits"
  shows "cell_split cfg s =
     for_each [0..<length splits] (assemble_fold splits)
       (s\<lparr>train_size := nat \<lfloor>(of_nat (cfg_N cfg) :: rat) - of_nat (cfg_N cfg) / of_nat (cfg_folds cfg)\<rfloor>,
          test_size := nat \<lfloor>(of_nat (cfg_N cfg) :: rat) / of_nat (cfg_folds cfg)\<rfloor>,
          y_train := zeros2 (cfg_folds cfg) (nat \<lfloor>(of_nat (cfg_N cfg) :: rat) - of_nat (cfg_N cfg) / of_nat (cfg_folds cfg)\<rfloor>),
          y_test := zeros2 (cfg_folds cfg) (nat \<lfloor>(of_nat (cfg_N cfg) :: rat) / of_nat (cfg_folds cfg)\<rfloor>)\<rparr>)"
  using assms by (simp add: cell_split_def Let_def)

lemma demo_split:
  assumes "true_y s = [0, 0, 0, 1, 1, 1]"
  shows "cell_split demo_config s =
    (None, s\<lparr>train_size := 4, test_size := 2,
              y_train := [[0, 1, 1, 1], [0, 0, 1, 1], [0, 0, 0, 1]],
              y_test := [[0, 0], [0, 1], [1, 1]]\<rparr>)"
proof -
  define s1 where "s1 = s\<lparr>train_size := 4, test_size := 2,
      y_train := zeros2 3 4, y_test := zeros2 3 2\<rparr>"
  have tr: "nat \<lfloor>(6::rat) - 6 / 3\<rfloor> = 4" and te: "nat \<lfloor>(6::rat) / 3\<rfloor> = 2" by simp_all
  have kf: "KFold_split 3 6 = Inr [([2, 3, 4, 5], [0, 1]), ([0, 1, 4, 5], [2, 3]), ([0, 1, 2, 3], [4, 5])]"
    by code_simp
  have y: "true_y t = [0, 0, 0, 1, 1, 1]" if "true_y t = true_y s" for t using assms that by simp
  have t0: "take_indices [0, 0, 0, 1, 1, 1::nat] [2, 3, 4, 5] = Inr [0, 1, 1, 1]"
       "take_indices [0, 0, 0, 1, 1, 1::nat] [0, 1] = Inr [0, 0]"
       "take_indices [0, 0, 0, 1, 1, 1::nat] [0, 1, 4, 5] = Inr [0, 0, 1, 1]"
       "take_indices [0, 0, 0, 1, 1, 1::nat] [2, 3] = Inr [0, 1]"
       "take_indices [0, 0, 0, 1, 1, 1::nat] [0, 1, 2, 3] = Inr [0, 0, 0, 1]"
       "take_indices [0, 0, 0, 1, 1, 1::nat] [4, 5] = Inr [1, 1]"
    by code_simp+
  have a0: "assign_row (zeros2 3 4) 0 [0, 1, 1, 1::nat] = Inr [[0, 1, 1, 1], [0, 0, 0, 0], [0, 0, 0, 0]]"
    "assign_row (zeros2 3 2) 0 [0, 0::nat] = Inr [[0, 0], [0, 0], [0, 0]]"
    "assign_row [[0, 1, 1, 1], [0, 0, 0, 0], [0, 0, 0, 0]] 1 [0, 0, 1, 1::nat] = Inr [[0, 1, 1, 1], [0, 0, 1, 1], [0, 0, 0, 0]]"
    "assign_row [[0, 0], [0, 0], [0, 0]] 1 [0, 1::nat] = Inr [[0, 0], [0, 1], [0, 0]]"
    "assign_row [[0, 1, 1, 1], [0, 0, 1, 1], [0, 0, 0, 0]] 2 [0, 0, 0, 1::nat] = Inr [[0, 1, 1, 1], [0, 0, 1, 1], [0, 0, 0, 1]]"
    "assign_row [[0, 0], [0, 1], [0, 0]] 2 [1, 1::nat] = Inr [[0, 0], [0, 1], [1, 1]]"
    by code_simp+
  let ?sp = "[([2, 3, 4, 5], [0, 1]), ([0, 1, 4, 5], [2, 3]), ([0, 1, 2, 3], [4, 5::nat])]"
  define s2 where "s2 = s1\<lparr>y_train := [[0, 1, 1, 1], [0, 0, 0, 0], [0, 0, 0, 0]], y_test := [[0, 0], [0, 0], [0, 0]]\<rparr>"
  define s3 where "s3 = s2\<lparr>y_train := [[0, 1, 1, 1], [0, 0, 1, 1], [0, 0, 0, 0]], y_test := [[0, 0], [0, 1], [0, 0]]\<rparr>"
  define s4 where "s4 = s3\<lparr>y_train := [[0, 1, 1, 1], [0, 0, 1, 1], [0, 0, 0, 1]], y_test := [[0, 0], [0, 1], [1, 1]]\<rparr>"
  have y1: "true_y s1 = [0, 0, 0, 1, 1, 1]" "true_y s2 = [0, 0, 0, 1, 1, 1]"
    "true_y s3 = [0, 0, 0, 1, 1, 1]"
    by (simp_all add: s1_def s2_def s3_def assms)
  have f0: "assemble_fold ?sp 0 s1 = (None, s2)"
  proof -
    have "?sp ! 0 = ([2, 3, 4, 5], [0, 1])" by simp
    moreover have "take_indices (true_y s1) [2, 3, 4, 5] = Inr [0, 1, 1, 1]"
      unfolding y1 by (rule t0)
    moreover have "take_indices (true_y s1) [0, 1] = Inr [0, 0]"
      unfolding y1 by (rule t0)
    moreover have "assign_row (y_train s1) 0 [0, 1, 1, 1] = Inr [[0, 1, 1, 1], [0, 0, 0, 0], [0, 0, 0, 0]]"
      using a0(1) by (simp add: s1_def)
    moreover have "assign_row (y_test s1) 0 [0, 0] = Inr [[0, 0], [0, 0], [0, 0]]"
      using a0(2) by (simp add: s1_def)
    ultimately show ?thesis unfolding s2_def by (rule assemble_fold_step)
  qed
  have f1: "assemble_fold ?sp 1 s2 = (None, s3)"
  proof -
    have "?sp ! 1 = ([0, 1, 4, 5], [2, 3])" by simp
    moreover have "take_indices (true_y s2) [0, 1, 4, 5] = Inr [0, 0, 1, 1]"
      unfolding y1 by (rule t0)
    moreover have "take_indices (true_y s2) [2, 3] = Inr [0, 1]"
      unfolding y1 by (rule t0)
    moreover have "assign_row (y_train s2) 1 [0, 0, 1, 1] = Inr [[0, 1, 1, 1], [0, 0, 1, 1], [0, 0, 0, 0]]"
      using a0(3) by (simp add: s2_def)
    moreover have "assign_row (y_test s2) 1 [0, 1] = Inr [[0, 0], [0, 1], [0, 0]]"
      using a0(4) by (simp add: s2_def)
    ultimately show ?thesis unfolding s3_def by (rule assemble_fold_step)
  qed
  have f2: "assemble_fold ?sp 2 s3 = (None, s4)"
  proof -
    have "?sp ! 2 = ([0, 1, 2, 3], [4, 5])" by simp
    moreover have "take_indices (true_y s3) [0, 1, 2, 3] = Inr [0, 0, 0, 1]"
      unfolding y1 by (rule t0)
    moreover have "take_indices (true_y s3) [4, 5] = Inr [1, 1]"
      unfolding y1 by (rule t0)
    moreover have "assign_row (y_train s3) 2 [0, 0, 0, 1] = Inr [[0, 1, 1, 1], [0, 0, 1, 1], [0, 0, 0, 1]]"
      using a0(5) by (simp add: s3_def)
    moreover have "assign_row (y_test s3) 2 [1, 1] = Inr [[0, 0], [0, 1], [1, 1]]"
      using a0(6) by (simp add: s3_def)
    ultimately show ?thesis unfolding s4_def by (rule assemble_fold_step)
  qed
  have u3: "[0..<3] = [0, 1, 2]" by (simp add: upt_rec)
  have len: "length (true_y s) = 6" using assms by simp
  have kf': "KFold_split (cfg_folds demo_config) (length (true_y s)) = Inr ?sp"
    unfolding len using kf by (simp add: demo_config_def)
  have st: "s\<lparr>train_size := nat \<lfloor>(of_nat (cfg_N demo_config) :: rat) - of_nat (cfg_N demo_config) / of_nat (cfg_folds demo_config)\<rfloor>,
          test_size := nat \<lfloor>(of_nat (cfg_N demo_config) :: rat) / of_nat (cfg_folds demo_config)\<rfloor>,
          y_train := zeros2 (cfg_folds demo_config) (nat \<lfloor>(of_nat (cfg_N demo_config) :: rat) - of_nat (cfg_N demo_config) / of_nat (cfg_folds demo_config)\<rfloor>),
          y_test := zeros2 (cfg_folds demo_config) (nat \<lfloor>(of_nat (cfg_N demo_config) :: rat) / of_nat (cfg_folds demo_config)\<rfloor>)\<rparr> = s1"
    by (simp add: demo_config_def s1_def tr te)
  have lsp: "length ?sp = 3" by simp
  have "cell_split demo_config s = for_each [0..<3] (assemble_fold ?sp) s1"
    using cell_split_unfold[OF _ kf'] unfolding st lsp by (simp add: demo_config_def)
  also have "\<dots> = (None, s4)" by (rule for_each_three[OF f0 f1 f2])
  finally show ?thesis by (simp add: s4_def s3_def s2_def s1_def)
qed

lemma demo_data_six: "demo_data (hmm_of 6) = ([0, 0, 0, 1, 1, 1], [0, 0, 0, 0, 0, 0])"
  by code_simp

lemma zeros_small:
  "zeros2 2 lls_width = [replicate lls_width 0, replicate lls_width 0]"
  "zeros3 2 2 2 = [[[0, 0], [0, 0]], [[0, 0], [0, 0]]]"
  "zeros4 3 2 2 2 = [[[[0, 0], [0, 0]], [[0, 0], [0, 0]]], [[[0, 0], [0, 0]], [[0, 0], [0, 0]]],
                     [[[0, 0], [0, 0]], [[0, 0], [0, 0]]]]"
  "replicate 3 (0::real) = [0, 0, 0]"
  by (simp_all add: zeros2_def zeros3_def zeros4_def numeral_2_eq_2 numeral_3_eq_3)

lemma lls_width_pos: "lls_width \<noteq> 0"
  by (simp add: lls_width_def)

lemma demo_best: 
  "find_best_fit [replicate lls_width (ln (1/64)), replicate lls_width (ln (27/4096))] = Inr 0"
  by (simp add: find_best_fit_def argmax_def lls_width_pos)

lemma demo_config_simps:
  "cfg_N demo_config = 6" "cfg_K demo_config = 2" "cfg_C demo_config = 2"
  "cfg_inits demo_config = 2" "cfg_inits_cv demo_config = 2" "cfg_folds demo_config = 3"
  by (simp_all add: demo_config_def)

lemma demo_library_simps:
  "lib_generate_params demo_library h j = demo_params j"
  "lib_generate_data demo_library h j A phi = demo_data h"
  "lib_fit demo_library = demo_fit"
  "lib_forwardPass demo_library = forwardPass"
  "lib_find_best_fit demo_library = find_best_fit"
  by (simp_all add: demo_library_def)

lemma demo_params_simps:
  "demo_params 0 = (demo_A, phi_even, [1/2, 1/2])"
  "demo_params 2 = (demo_A, phi_even, [1/2, 1/2])"
  "demo_params 3 = (demo_A, phi_low, [1/2, 1/2])"
  "demo_params 4 = (demo_A, phi_even, [1/2, 1/2])"
  "demo_params 5 = (demo_A, phi_low, [1/2, 1/2])"
  "demo_params 6 = (demo_A, phi_even, [1/2, 1/2])"
  "demo_params 7 = (demo_A, phi_low, [1/2, 1/2])"
  "demo_params 8 = (demo_A, phi_high, [1/2, 1/2])"
  "demo_params 9 = (demo_A, phi_even, [1/2, 1/2])"
  by (simp_all add: demo_params_def)

lemma hmm_of_simps:
  "hmm_n (hmm_of m) = m" "hmm_k (hmm_of m) = 2" "hmm_c (hmm_of m) = 2"
  "(hmm_of m)\<lparr>hmm_n := m'\<rparr> = hmm_of m'"
  by (simp_all add: hmm_of_def)

lemma demo_fit_init_step:
  assumes "true_HMM s = hmm_of m" and "true_y s = y" and "draws s = d"
    and "demo_params d = (demo_A, phi, p)"
    and "forwardPass (hmm_of m) y demo_A phi None = Inr (ll, al, cs)"
  shows "i < length (lls_all s) \<Longrightarrow> length (lls_all s ! i) = lls_width \<Longrightarrow>
         i < length (A_all s) \<Longrightarrow> i < length (phi_all s) \<Longrightarrow>
         broadcast_to2 2 2 phi = Inr phi \<Longrightarrow>
         fit_init demo_config demo_library i s =
           (None, s\<lparr>draws := Suc d,
                     calls := calls s @ [Call_fit (hmm_of m) y],
                     lls_all := (lls_all s)[i := replicate lls_width ll],
                     A_all := (A_all s)[i := demo_A],
                     phi_all := (phi_all s)[i := phi],
                     pi0 := uniform 2\<rparr>)"
proof -
  assume a: "i < length (lls_all s)" "length (lls_all s ! i) = lls_width"
    "i < length (A_all s)" "i < length (phi_all s)" "broadcast_to2 2 2 phi = Inr phi"
  have g: "lib_generate_params demo_library (true_HMM s) (draws s) = (demo_A, phi, p)"
    using assms(3,4) by (simp add: demo_library_simps)
  have f: "lib_fit demo_library (true_HMM s) (true_y s) demo_A phi
            = Inr (replicate lls_width ll, demo_A, phi, uniform 2)"
    using demo_fit_eval[OF assms(5)] assms(1,2) by (simp add: demo_library_simps hmm_of_simps)
  show ?thesis
    using fit_init_ok[OF g f, of i demo_config] a assms(1,2,3)
    by (simp add: demo_config_simps demo_shapes)
qed

lemma demo_fit_fold_step:
  assumes "true_HMM s = hmm_of m" and "draws s = d"
    and "demo_params d = (demo_A, phi, p)"
    and "y_train s ! i = y"
    and "forwardPass (hmm_of m) y demo_A phi None = Inr (ll, al, cs)"
  shows "i < length (y_train s) \<Longrightarrow> i < length (A_all_cv s) \<Longrightarrow> j < length (A_all_cv s ! i) \<Longrightarrow>
         i < length (phi_all_cv s) \<Longrightarrow> j < length (phi_all_cv s ! i) \<Longrightarrow>
         broadcast_to2 2 2 phi = Inr phi \<Longrightarrow>
         fit_fold_init demo_config demo_library i j s =
           (None, s\<lparr>draws := Suc d,
                     calls := calls s @ [Call_fit (hmm_of m) y],
                     A_all_cv := (A_all_cv s)[i := (A_all_cv s ! i)[j := demo_A]],
                     phi_all_cv := (phi_all_cv s)[i := (phi_all_cv s ! i)[j := phi]],
                     pi0 := uniform 2\<rparr>)"
proof -
  assume a: "i < length (y_train s)" "i < length (A_all_cv s)" "j < length (A_all_cv s ! i)"
    "i < length (phi_all_cv s)" "j < length (phi_all_cv s ! i)" "broadcast_to2 2 2 phi = Inr phi"
  have g: "lib_generate_params demo_library (true_HMM s) (draws s) = (demo_A, phi, p)"
    using assms(2,3) by (simp add: demo_library_simps)
  have f: "lib_fit demo_library (true_HMM s) (y_train s ! i) demo_A phi
            = Inr (replicate lls_width ll, demo_A, phi, uniform 2)"
    using demo_fit_eval[OF assms(5)] assms(1,4) by (simp add: demo_library_simps hmm_of_simps)
  show ?thesis
    using fit_fold_init_ok[OF g a(1) f, of j demo_config] a assms(1,2,4)
    by (simp add: demo_config_simps demo_shapes)
qed

lemma demo_score_step:
  assumes "true_HMM s = hmm_of m" and "y_test s ! i = y"
    and "A_true s = A1" and "phi_true s = phi1"
    and "forwardPass (hmm_of m) y A1 phi1 None = Inr (ll, al, cs)"
    and "A_all_cv s ! i ! bestix s = A2" and "phi_all_cv s ! i ! bestix s = phi2"
    and "forwardPass (hmm_of m) y A2 phi2 None = Inr (ll', al', cs')"
  shows "i < length (y_test s) \<Longrightarrow> i < length (true_ll s) \<Longrightarrow> i < length (fit_ll s) \<Longrightarrow>
         i < length (A_all_cv s) \<Longrightarrow> bestix s < length (A_all_cv s ! i) \<Longrightarrow>
         i < length (phi_all_cv s) \<Longrightarrow> bestix s < length (phi_all_cv s ! i) \<Longrightarrow>
         score_fold demo_library i s =
           (None, s\<lparr>calls := calls s @ [Call_forwardPass (hmm_of m) y, Call_forwardPass (hmm_of m) y],
                     true_ll := (true_ll s)[i := ll],
                     fit_ll := (fit_ll s)[i := ll']\<rparr>)"
proof -
  assume a: "i < length (y_test s)" "i < length (true_ll s)" "i < length (fit_ll s)"
    "i < length (A_all_cv s)" "bestix s < length (A_all_cv s ! i)"
    "i < length (phi_all_cv s)" "bestix s < length (phi_all_cv s ! i)"
  have t: "lib_forwardPass demo_library (true_HMM s) (y_test s ! i) (A_true s) (phi_true s) None
             = Inr (ll, al, cs)"
    using assms(1-5) by (simp add: demo_library_simps)
  have f: "lib_forwardPass demo_library (true_HMM s) (y_test s ! i)
             (A_all_cv s ! i ! bestix s) (phi_all_cv s ! i ! bestix s) None = Inr (ll', al', cs')"
    using assms(1,2,6,7,8) by (simp add: demo_library_simps)
  show ?thesis
    using score_fold_ok[OF a(1) t a(2) a(4) a(5) a(6) a(7) f a(3)] assms(1,2) by simp
qed

lemma and_then_alloc: "g (u s) = r \<Longrightarrow> and_then (\<lambda>s. (None, u s)) g s = r"
  by (simp add: and_then_def)


lemma demo_run: "run_notebook demo_config demo_library = (None, demo_final)"
proof -
  define S1 where "S1 = initial_state\<lparr>true_HMM := hmm_of 6,
      A_true := demo_A,
      phi_true := phi_even,
      pi_true := [1 / 2, 1 / 2],
      draws := 1\<rparr>"
  have F_S1:
    "true_HMM S1 = hmm_of 6"
    "A_true S1 = demo_A"
    "phi_true S1 = phi_even"
    "pi_true S1 = [1 / 2, 1 / 2]"
    "true_y S1 = []"
    "true_z S1 = []"
    "lls_all S1 = []"
    "A_all S1 = []"
    "phi_all S1 = []"
    "pi0 S1 = []"
    "bestix S1 = 0"
    "train_size S1 = 0"
    "test_size S1 = 0"
    "y_train S1 = []"
    "y_test S1 = []"
    "A_all_cv S1 = []"
    "phi_all_cv S1 = []"
    "true_ll S1 = []"
    "fit_ll S1 = []"
    "mean_true_ll S1 = None"
    "mean_fit_ll S1 = None"
    "draws S1 = 1"
    "calls S1 = []"
    by (simp_all add: S1_def initial_state_def)
  have c3: "cell_instantiate demo_config demo_library initial_state = (None, S1)"
    by (simp add: cell_instantiate_def demo_config_simps demo_library_simps demo_params_simps
        S1_def hmm_of_def initial_state_def)
  define S2 where "S2 = S1\<lparr>true_y := [0, 0, 0, 1, 1, 1],
      true_z := [0, 0, 0, 0, 0, 0],
      draws := 2\<rparr>"
  have F_S2:
    "true_HMM S2 = hmm_of 6"
    "A_true S2 = demo_A"
    "phi_true S2 = phi_even"
    "pi_true S2 = [1 / 2, 1 / 2]"
    "true_y S2 = [0, 0, 0, 1, 1, 1]"
    "true_z S2 = [0, 0, 0, 0, 0, 0]"
    "lls_all S2 = []"
    "A_all S2 = []"
    "phi_all S2 = []"
    "pi0 S2 = []"
    "bestix S2 = 0"
    "train_size S2 = 0"
    "test_size S2 = 0"
    "y_train S2 = []"
    "y_test S2 = []"
    "A_all_cv S2 = []"
    "phi_all_cv S2 = []"
    "true_ll S2 = []"
    "fit_ll S2 = []"
    "mean_true_ll S2 = None"
    "mean_fit_ll S2 = None"
    "draws S2 = 2"
    "calls S2 = []"
    by (simp_all add: S2_def F_S1)
  have c4: "cell_generate_data demo_library S1 = (None, S2)"
    using demo_data_six by (simp add: cell_generate_data_def demo_library_simps F_S1 S2_def)
  define S3 where "S3 = S2\<lparr>lls_all := [replicate lls_width 0, replicate lls_width 0],
      A_all := [[[0, 0], [0, 0]], [[0, 0], [0, 0]]],
      phi_all := [[[0, 0], [0, 0]], [[0, 0], [0, 0]]]\<rparr>"
  have F_S3:
    "true_HMM S3 = hmm_of 6"
    "A_true S3 = demo_A"
    "phi_true S3 = phi_even"
    "pi_true S3 = [1 / 2, 1 / 2]"
    "true_y S3 = [0, 0, 0, 1, 1, 1]"
    "true_z S3 = [0, 0, 0, 0, 0, 0]"
    "lls_all S3 = [replicate lls_width 0, replicate lls_width 0]"
    "A_all S3 = [[[0, 0], [0, 0]], [[0, 0], [0, 0]]]"
    "phi_all S3 = [[[0, 0], [0, 0]], [[0, 0], [0, 0]]]"
    "pi0 S3 = []"
    "bestix S3 = 0"
    "train_size S3 = 0"
    "test_size S3 = 0"
    "y_train S3 = []"
    "y_test S3 = []"
    "A_all_cv S3 = []"
    "phi_all_cv S3 = []"
    "true_ll S3 = []"
    "fit_ll S3 = []"
    "mean_true_ll S3 = None"
    "mean_fit_ll S3 = None"
    "draws S3 = 2"
    "calls S3 = []"
    by (simp_all add: S3_def F_S2)
  have a5: "S2\<lparr>lls_all := zeros2 2 lls_width, A_all := zeros3 2 2 2,
      phi_all := zeros3 2 2 2\<rparr> = S3"
    by (simp add: S3_def zeros_small)
  define S4 where "S4 = S3\<lparr>draws := 3,
      calls := [Call_fit (hmm_of 6) [0, 0, 0, 1, 1, 1]],
      lls_all := [replicate lls_width (ln (1/64)), replicate lls_width 0],
      A_all := [demo_A, [[0, 0], [0, 0]]],
      phi_all := [phi_even, [[0, 0], [0, 0]]],
      pi0 := uniform 2\<rparr>"
  have F_S4:
    "true_HMM S4 = hmm_of 6"
    "A_true S4 = demo_A"
    "phi_true S4 = phi_even"
    "pi_true S4 = [1 / 2, 1 / 2]"
    "true_y S4 = [0, 0, 0, 1, 1, 1]"
    "true_z S4 = [0, 0, 0, 0, 0, 0]"
    "lls_all S4 = [replicate lls_width (ln (1/64)), replicate lls_width 0]"
    "A_all S4 = [demo_A, [[0, 0], [0, 0]]]"
    "phi_all S4 = [phi_even, [[0, 0], [0, 0]]]"
    "pi0 S4 = uniform 2"
    "bestix S4 = 0"
    "train_size S4 = 0"
    "test_size S4 = 0"
    "y_train S4 = []"
    "y_test S4 = []"
    "A_all_cv S4 = []"
    "phi_all_cv S4 = []"
    "true_ll S4 = []"
    "fit_ll S4 = []"
    "mean_true_ll S4 = None"
    "mean_fit_ll S4 = None"
    "draws S4 = 3"
    "calls S4 = [Call_fit (hmm_of 6) [0, 0, 0, 1, 1, 1]]"
    by (simp_all add: S4_def F_S3)
  have i5_0: "fit_init demo_config demo_library 0 S3 = (None, S4)"
    using demo_fit_init_step[OF F_S3(1) F_S3(5) F_S3(22) demo_params_simps(2) pass_fit_full_even, where i = 0]
    by (simp add: F_S3 S4_def demo_shapes)
  define S5 where "S5 = S4\<lparr>draws := 4,
      calls := [Call_fit (hmm_of 6) [0, 0, 0, 1, 1, 1], Call_fit (hmm_of 6) [0, 0, 0, 1, 1, 1]],
      lls_all := [replicate lls_width (ln (1/64)), replicate lls_width (ln (27/4096))],
      A_all := [demo_A, demo_A],
      phi_all := [phi_even, phi_low],
      pi0 := uniform 2\<rparr>"
  have F_S5:
    "true_HMM S5 = hmm_of 6"
    "A_true S5 = demo_A"
    "phi_true S5 = phi_even"
    "pi_true S5 = [1 / 2, 1 / 2]"
    "true_y S5 = [0, 0, 0, 1, 1, 1]"
    "true_z S5 = [0, 0, 0, 0, 0, 0]"
    "lls_all S5 = [replicate lls_width (ln (1/64)), replicate lls_width (ln (27/4096))]"
    "A_all S5 = [demo_A, demo_A]"
    "phi_all S5 = [phi_even, phi_low]"
    "pi0 S5 = uniform 2"
    "bestix S5 = 0"
    "train_size S5 = 0"
    "test_size S5 = 0"
    "y_train S5 = []"
    "y_test S5 = []"
    "A_all_cv S5 = []"
    "phi_all_cv S5 = []"
    "true_ll S5 = []"
    "fit_ll S5 = []"
    "mean_true_ll S5 = None"
    "mean_fit_ll S5 = None"
    "draws S5 = 4"
    "calls S5 = [Call_fit (hmm_of 6) [0, 0, 0, 1, 1, 1], Call_fit (hmm_of 6) [0, 0, 0, 1, 1, 1]]"
    by (simp_all add: S5_def F_S4)
  have i5_1: "fit_init demo_config demo_library 1 S4 = (None, S5)"
    using demo_fit_init_step[OF F_S4(1) F_S4(5) F_S4(22) demo_params_simps(3) pass_fit_full_low, where i = 1]
    by (simp add: F_S4 S5_def demo_shapes)
  have c5: "cell_fit demo_config demo_library S2 = (None, S5)"
    unfolding cell_fit_def demo_config_simps
    by (rule and_then_alloc, unfold a5, rule for_each_two[OF i5_0 i5_1])
  define S6 where "S6 = S5\<lparr>bestix := 0\<rparr>"
  have F_S6:
    "true_HMM S6 = hmm_of 6"
    "A_true S6 = demo_A"
    "phi_true S6 = phi_even"
    "pi_true S6 = [1 / 2, 1 / 2]"
    "true_y S6 = [0, 0, 0, 1, 1, 1]"
    "true_z S6 = [0, 0, 0, 0, 0, 0]"
    "lls_all S6 = [replicate lls_width (ln (1/64)), replicate lls_width (ln (27/4096))]"
    "A_all S6 = [demo_A, demo_A]"
    "phi_all S6 = [phi_even, phi_low]"
    "pi0 S6 = uniform 2"
    "bestix S6 = 0"
    "train_size S6 = 0"
    "test_size S6 = 0"
    "y_train S6 = []"
    "y_test S6 = []"
    "A_all_cv S6 = []"
    "phi_all_cv S6 = []"
    "true_ll S6 = []"
    "fit_ll S6 = []"
    "mean_true_ll S6 = None"
    "mean_fit_ll S6 = None"
    "draws S6 = 4"
    "calls S6 = [Call_fit (hmm_of 6) [0, 0, 0, 1, 1, 1], Call_fit (hmm_of 6) [0, 0, 0, 1, 1, 1]]"
    by (simp_all add: S6_def F_S5)
  have c6: "cell_best_fit demo_library S5 = (None, S6)"
    using demo_best by (simp add: cell_best_fit_def demo_library_simps F_S5 S6_def Let_def)
  define S7 where "S7 = S6\<lparr>train_size := 4,
      test_size := 2,
      y_train := [[0, 1, 1, 1], [0, 0, 1, 1], [0, 0, 0, 1]],
      y_test := [[0, 0], [0, 1], [1, 1]]\<rparr>"
  have F_S7:
    "true_HMM S7 = hmm_of 6"
    "A_true S7 = demo_A"
    "phi_true S7 = phi_even"
    "pi_true S7 = [1 / 2, 1 / 2]"
    "true_y S7 = [0, 0, 0, 1, 1, 1]"
    "true_z S7 = [0, 0, 0, 0, 0, 0]"
    "lls_all S7 = [replicate lls_width (ln (1/64)), replicate lls_width (ln (27/4096))]"
    "A_all S7 = [demo_A, demo_A]"
    "phi_all S7 = [phi_even, phi_low]"
    "pi0 S7 = uniform 2"
    "bestix S7 = 0"
    "train_size S7 = 4"
    "test_size S7 = 2"
    "y_train S7 = [[0, 1, 1, 1], [0, 0, 1, 1], [0, 0, 0, 1]]"
    "y_test S7 = [[0, 0], [0, 1], [1, 1]]"
    "A_all_cv S7 = []"
    "phi_all_cv S7 = []"
    "true_ll S7 = []"
    "fit_ll S7 = []"
    "mean_true_ll S7 = None"
    "mean_fit_ll S7 = None"
    "draws S7 = 4"
    "calls S7 = [Call_fit (hmm_of 6) [0, 0, 0, 1, 1, 1], Call_fit (hmm_of 6) [0, 0, 0, 1, 1, 1]]"
    by (simp_all add: S7_def F_S6)
  have c7: "cell_split demo_config S6 = (None, S7)"
    unfolding S7_def by (rule demo_split[OF F_S6(5)])
  define S8 where "S8 = S7\<lparr>true_HMM := hmm_of 4,
      A_all_cv := [[[[0, 0], [0, 0]],
          [[0, 0], [0, 0]]],
          [[[0, 0], [0, 0]],
          [[0, 0], [0, 0]]],
          [[[0, 0], [0, 0]],
          [[0, 0], [0, 0]]]],
      phi_all_cv := [[[[0, 0], [0, 0]],
          [[0, 0], [0, 0]]],
          [[[0, 0], [0, 0]],
          [[0, 0], [0, 0]]],
          [[[0, 0], [0, 0]],
          [[0, 0], [0, 0]]]]\<rparr>"
  have F_S8:
    "true_HMM S8 = hmm_of 4"
    "A_true S8 = demo_A"
    "phi_true S8 = phi_even"
    "pi_true S8 = [1 / 2, 1 / 2]"
    "true_y S8 = [0, 0, 0, 1, 1, 1]"
    "true_z S8 = [0, 0, 0, 0, 0, 0]"
    "lls_all S8 = [replicate lls_width (ln (1/64)), replicate lls_width (ln (27/4096))]"
    "A_all S8 = [demo_A, demo_A]"
    "phi_all S8 = [phi_even, phi_low]"
    "pi0 S8 = uniform 2"
    "bestix S8 = 0"
    "train_size S8 = 4"
    "test_size S8 = 2"
    "y_train S8 = [[0, 1, 1, 1], [0, 0, 1, 1], [0, 0, 0, 1]]"
    "y_test S8 = [[0, 0], [0, 1], [1, 1]]"
    "A_all_cv S8 = [[[[0, 0], [0, 0]],
        [[0, 0], [0, 0]]],
        [[[0, 0], [0, 0]],
        [[0, 0], [0, 0]]],
        [[[0, 0], [0, 0]],
        [[0, 0], [0, 0]]]]"
    "phi_all_cv S8 = [[[[0, 0], [0, 0]],
        [[0, 0], [0, 0]]],
        [[[0, 0], [0, 0]],
        [[0, 0], [0, 0]]],
        [[[0, 0], [0, 0]],
        [[0, 0], [0, 0]]]]"
    "true_ll S8 = []"
    "fit_ll S8 = []"
    "mean_true_ll S8 = None"
    "mean_fit_ll S8 = None"
    "draws S8 = 4"
    "calls S8 = [Call_fit (hmm_of 6) [0, 0, 0, 1, 1, 1], Call_fit (hmm_of 6) [0, 0, 0, 1, 1, 1]]"
    by (simp_all add: S8_def F_S7)
  have a8: "S7\<lparr>true_HMM := (true_HMM S7)\<lparr>hmm_n := train_size S7\<rparr>,
      A_all_cv := zeros4 3 2 2 2, phi_all_cv := zeros4 3 2 2 2\<rparr> = S8"
    by (simp add: S8_def zeros_small F_S7 hmm_of_simps)
  define S9 where "S9 = S8\<lparr>draws := 5,
      calls := [Call_fit (hmm_of 6) [0, 0, 0, 1, 1, 1],
          Call_fit (hmm_of 6) [0, 0, 0, 1, 1, 1],
          Call_fit (hmm_of 4) [0, 1, 1, 1]],
      A_all_cv := [[demo_A, [[0, 0], [0, 0]]],
          [[[0, 0], [0, 0]],
          [[0, 0], [0, 0]]],
          [[[0, 0], [0, 0]],
          [[0, 0], [0, 0]]]],
      phi_all_cv := [[phi_even, [[0, 0], [0, 0]]],
          [[[0, 0], [0, 0]],
          [[0, 0], [0, 0]]],
          [[[0, 0], [0, 0]],
          [[0, 0], [0, 0]]]],
      pi0 := uniform 2\<rparr>"
  have F_S9:
    "true_HMM S9 = hmm_of 4"
    "A_true S9 = demo_A"
    "phi_true S9 = phi_even"
    "pi_true S9 = [1 / 2, 1 / 2]"
    "true_y S9 = [0, 0, 0, 1, 1, 1]"
    "true_z S9 = [0, 0, 0, 0, 0, 0]"
    "lls_all S9 = [replicate lls_width (ln (1/64)), replicate lls_width (ln (27/4096))]"
    "A_all S9 = [demo_A, demo_A]"
    "phi_all S9 = [phi_even, phi_low]"
    "pi0 S9 = uniform 2"
    "bestix S9 = 0"
    "train_size S9 = 4"
    "test_size S9 = 2"
    "y_train S9 = [[0, 1, 1, 1], [0, 0, 1, 1], [0, 0, 0, 1]]"
    "y_test S9 = [[0, 0], [0, 1], [1, 1]]"
    "A_all_cv S9 = [[demo_A, [[0, 0], [0, 0]]],
        [[[0, 0], [0, 0]],
        [[0, 0], [0, 0]]],
        [[[0, 0], [0, 0]],
        [[0, 0], [0, 0]]]]"
    "phi_all_cv S9 = [[phi_even, [[0, 0], [0, 0]]],
        [[[0, 0], [0, 0]],
        [[0, 0], [0, 0]]],
        [[[0, 0], [0, 0]],
        [[0, 0], [0, 0]]]]"
    "true_ll S9 = []"
    "fit_ll S9 = []"
    "mean_true_ll S9 = None"
    "mean_fit_ll S9 = None"
    "draws S9 = 5"
    "calls S9 = [Call_fit (hmm_of 6) [0, 0, 0, 1, 1, 1],
        Call_fit (hmm_of 6) [0, 0, 0, 1, 1, 1],
        Call_fit (hmm_of 4) [0, 1, 1, 1]]"
    by (simp_all add: S9_def F_S8)
  have y8_0_0: "y_train S8 ! 0 = [0, 1, 1, 1]" by (simp add: F_S8)
  have i8_0_0: "fit_fold_init demo_config demo_library 0 0 S8 = (None, S9)"
    using demo_fit_fold_step[OF F_S8(1) F_S8(22) demo_params_simps(4) y8_0_0 pass_fit_fold0_even, where j = 0]
    by (simp add: F_S8 S9_def demo_shapes)
  define S10 where "S10 = S9\<lparr>draws := 6,
      calls := [Call_fit (hmm_of 6) [0, 0, 0, 1, 1, 1],
          Call_fit (hmm_of 6) [0, 0, 0, 1, 1, 1],
          Call_fit (hmm_of 4) [0, 1, 1, 1],
          Call_fit (hmm_of 4) [0, 1, 1, 1]],
      A_all_cv := [[demo_A, demo_A], [[[0, 0], [0, 0]],
          [[0, 0], [0, 0]]],
          [[[0, 0], [0, 0]],
          [[0, 0], [0, 0]]]],
      phi_all_cv := [[phi_even, phi_low], [[[0, 0], [0, 0]],
          [[0, 0], [0, 0]]],
          [[[0, 0], [0, 0]],
          [[0, 0], [0, 0]]]],
      pi0 := uniform 2\<rparr>"
  have F_S10:
    "true_HMM S10 = hmm_of 4"
    "A_true S10 = demo_A"
    "phi_true S10 = phi_even"
    "pi_true S10 = [1 / 2, 1 / 2]"
    "true_y S10 = [0, 0, 0, 1, 1, 1]"
    "true_z S10 = [0, 0, 0, 0, 0, 0]"
    "lls_all S10 = [replicate lls_width (ln (1/64)), replicate lls_width (ln (27/4096))]"
    "A_all S10 = [demo_A, demo_A]"
    "phi_all S10 = [phi_even, phi_low]"
    "pi0 S10 = uniform 2"
    "bestix S10 = 0"
    "train_size S10 = 4"
    "test_size S10 = 2"
    "y_train S10 = [[0, 1, 1, 1], [0, 0, 1, 1], [0, 0, 0, 1]]"
    "y_test S10 = [[0, 0], [0, 1], [1, 1]]"
    "A_all_cv S10 = [[demo_A, demo_A], [[[0, 0], [0, 0]],
        [[0, 0], [0, 0]]],
        [[[0, 0], [0, 0]],
        [[0, 0], [0, 0]]]]"
    "phi_all_cv S10 = [[phi_even, phi_low], [[[0, 0], [0, 0]],
        [[0, 0], [0, 0]]],
        [[[0, 0], [0, 0]],
        [[0, 0], [0, 0]]]]"
    "true_ll S10 = []"
    "fit_ll S10 = []"
    "mean_true_ll S10 = None"
    "mean_fit_ll S10 = None"
    "draws S10 = 6"
    "calls S10 = [Call_fit (hmm_of 6) [0, 0, 0, 1, 1, 1],
        Call_fit (hmm_of 6) [0, 0, 0, 1, 1, 1],
        Call_fit (hmm_of 4) [0, 1, 1, 1],
        Call_fit (hmm_of 4) [0, 1, 1, 1]]"
    by (simp_all add: S10_def F_S9)
  have y8_0_1: "y_train S9 ! 0 = [0, 1, 1, 1]" by (simp add: F_S9)
  have i8_0_1: "fit_fold_init demo_config demo_library 0 1 S9 = (None, S10)"
    using demo_fit_fold_step[OF F_S9(1) F_S9(22) demo_params_simps(5) y8_0_1 pass_fit_fold0_low, where j = 1]
    by (simp add: F_S9 S10_def demo_shapes)
  have o8_0: "for_each [0..<2] (fit_fold_init demo_config demo_library 0) S8 = (None, S10)"
    by (rule for_each_two[OF i8_0_0 i8_0_1])
  define S11 where "S11 = S10\<lparr>draws := 7,
      calls := [Call_fit (hmm_of 6) [0, 0, 0, 1, 1, 1],
          Call_fit (hmm_of 6) [0, 0, 0, 1, 1, 1],
          Call_fit (hmm_of 4) [0, 1, 1, 1],
          Call_fit (hmm_of 4) [0, 1, 1, 1],
          Call_fit (hmm_of 4) [0, 0, 1, 1]],
      A_all_cv := [[demo_A, demo_A], [demo_A, [[0, 0], [0, 0]]], [[[0, 0], [0, 0]], [[0, 0], [0, 0]]]],
      phi_all_cv := [[phi_even, phi_low], [phi_even, [[0, 0], [0, 0]]], [[[0, 0], [0, 0]], [[0, 0], [0, 0]]]],
      pi0 := uniform 2\<rparr>"
  have F_S11:
    "true_HMM S11 = hmm_of 4"
    "A_true S11 = demo_A"
    "phi_true S11 = phi_even"
    "pi_true S11 = [1 / 2, 1 / 2]"
    "true_y S11 = [0, 0, 0, 1, 1, 1]"
    "true_z S11 = [0, 0, 0, 0, 0, 0]"
    "lls_all S11 = [replicate lls_width (ln (1/64)), replicate lls_width (ln (27/4096))]"
    "A_all S11 = [demo_A, demo_A]"
    "phi_all S11 = [phi_even, phi_low]"
    "pi0 S11 = uniform 2"
    "bestix S11 = 0"
    "train_size S11 = 4"
    "test_size S11 = 2"
    "y_train S11 = [[0, 1, 1, 1], [0, 0, 1, 1], [0, 0, 0, 1]]"
    "y_test S11 = [[0, 0], [0, 1], [1, 1]]"
    "A_all_cv S11 = [[demo_A, demo_A], [demo_A, [[0, 0], [0, 0]]], [[[0, 0], [0, 0]], [[0, 0], [0, 0]]]]"
    "phi_all_cv S11 = [[phi_even, phi_low], [phi_even, [[0, 0], [0, 0]]],
        [[[0, 0], [0, 0]],
        [[0, 0], [0, 0]]]]"
    "true_ll S11 = []"
    "fit_ll S11 = []"
    "mean_true_ll S11 = None"
    "mean_fit_ll S11 = None"
    "draws S11 = 7"
    "calls S11 = [Call_fit (hmm_of 6) [0, 0, 0, 1, 1, 1],
        Call_fit (hmm_of 6) [0, 0, 0, 1, 1, 1],
        Call_fit (hmm_of 4) [0, 1, 1, 1],
        Call_fit (hmm_of 4) [0, 1, 1, 1],
        Call_fit (hmm_of 4) [0, 0, 1, 1]]"
    by (simp_all add: S11_def F_S10)
  have y8_1_0: "y_train S10 ! 1 = [0, 0, 1, 1]" by (simp add: F_S10)
  have i8_1_0: "fit_fold_init demo_config demo_library 1 0 S10 = (None, S11)"
    using demo_fit_fold_step[OF F_S10(1) F_S10(22) demo_params_simps(6) y8_1_0 pass_fit_fold1_even, where j = 0]
    by (simp add: F_S10 S11_def demo_shapes)
  define S12 where "S12 = S11\<lparr>draws := 8,
      calls := [Call_fit (hmm_of 6) [0, 0, 0, 1, 1, 1],
          Call_fit (hmm_of 6) [0, 0, 0, 1, 1, 1],
          Call_fit (hmm_of 4) [0, 1, 1, 1],
          Call_fit (hmm_of 4) [0, 1, 1, 1],
          Call_fit (hmm_of 4) [0, 0, 1, 1],
          Call_fit (hmm_of 4) [0, 0, 1, 1]],
      A_all_cv := [[demo_A, demo_A], [demo_A, demo_A], [[[0, 0], [0, 0]], [[0, 0], [0, 0]]]],
      phi_all_cv := [[phi_even, phi_low], [phi_even, phi_low], [[[0, 0], [0, 0]], [[0, 0], [0, 0]]]],
      pi0 := uniform 2\<rparr>"
  have F_S12:
    "true_HMM S12 = hmm_of 4"
    "A_true S12 = demo_A"
    "phi_true S12 = phi_even"
    "pi_true S12 = [1 / 2, 1 / 2]"
    "true_y S12 = [0, 0, 0, 1, 1, 1]"
    "true_z S12 = [0, 0, 0, 0, 0, 0]"
    "lls_all S12 = [replicate lls_width (ln (1/64)), replicate lls_width (ln (27/4096))]"
    "A_all S12 = [demo_A, demo_A]"
    "phi_all S12 = [phi_even, phi_low]"
    "pi0 S12 = uniform 2"
    "bestix S12 = 0"
    "train_size S12 = 4"
    "test_size S12 = 2"
    "y_train S12 = [[0, 1, 1, 1], [0, 0, 1, 1], [0, 0, 0, 1]]"
    "y_test S12 = [[0, 0], [0, 1], [1, 1]]"
    "A_all_cv S12 = [[demo_A, demo_A], [demo_A, demo_A], [[[0, 0], [0, 0]], [[0, 0], [0, 0]]]]"
    "phi_all_cv S12 = [[phi_even, phi_low], [phi_even, phi_low], [[[0, 0], [0, 0]], [[0, 0], [0, 0]]]]"
    "true_ll S12 = []"
    "fit_ll S12 = []"
    "mean_true_ll S12 = None"
    "mean_fit_ll S12 = None"
    "draws S12 = 8"
    "calls S12 = [Call_fit (hmm_of 6) [0, 0, 0, 1, 1, 1],
        Call_fit (hmm_of 6) [0, 0, 0, 1, 1, 1],
        Call_fit (hmm_of 4) [0, 1, 1, 1],
        Call_fit (hmm_of 4) [0, 1, 1, 1],
        Call_fit (hmm_of 4) [0, 0, 1, 1],
        Call_fit (hmm_of 4) [0, 0, 1, 1]]"
    by (simp_all add: S12_def F_S11)
  have y8_1_1: "y_train S11 ! 1 = [0, 0, 1, 1]" by (simp add: F_S11)
  have i8_1_1: "fit_fold_init demo_config demo_library 1 1 S11 = (None, S12)"
    using demo_fit_fold_step[OF F_S11(1) F_S11(22) demo_params_simps(7) y8_1_1 pass_fit_fold1_low, where j = 1]
    by (simp add: F_S11 S12_def demo_shapes)
  have o8_1: "for_each [0..<2] (fit_fold_init demo_config demo_library 1) S10 = (None, S12)"
    by (rule for_each_two[OF i8_1_0 i8_1_1])
  define S13 where "S13 = S12\<lparr>draws := 9,
      calls := [Call_fit (hmm_of 6) [0, 0, 0, 1, 1, 1],
          Call_fit (hmm_of 6) [0, 0, 0, 1, 1, 1],
          Call_fit (hmm_of 4) [0, 1, 1, 1],
          Call_fit (hmm_of 4) [0, 1, 1, 1],
          Call_fit (hmm_of 4) [0, 0, 1, 1],
          Call_fit (hmm_of 4) [0, 0, 1, 1],
          Call_fit (hmm_of 4) [0, 0, 0, 1]],
      A_all_cv := [[demo_A, demo_A], [demo_A, demo_A], [demo_A, [[0, 0], [0, 0]]]],
      phi_all_cv := [[phi_even, phi_low], [phi_even, phi_low], [phi_high, [[0, 0], [0, 0]]]],
      pi0 := uniform 2\<rparr>"
  have F_S13:
    "true_HMM S13 = hmm_of 4"
    "A_true S13 = demo_A"
    "phi_true S13 = phi_even"
    "pi_true S13 = [1 / 2, 1 / 2]"
    "true_y S13 = [0, 0, 0, 1, 1, 1]"
    "true_z S13 = [0, 0, 0, 0, 0, 0]"
    "lls_all S13 = [replicate lls_width (ln (1/64)), replicate lls_width (ln (27/4096))]"
    "A_all S13 = [demo_A, demo_A]"
    "phi_all S13 = [phi_even, phi_low]"
    "pi0 S13 = uniform 2"
    "bestix S13 = 0"
    "train_size S13 = 4"
    "test_size S13 = 2"
    "y_train S13 = [[0, 1, 1, 1], [0, 0, 1, 1], [0, 0, 0, 1]]"
    "y_test S13 = [[0, 0], [0, 1], [1, 1]]"
    "A_all_cv S13 = [[demo_A, demo_A], [demo_A, demo_A], [demo_A, [[0, 0], [0, 0]]]]"
    "phi_all_cv S13 = [[phi_even, phi_low], [phi_even, phi_low], [phi_high, [[0, 0], [0, 0]]]]"
    "true_ll S13 = []"
    "fit_ll S13 = []"
    "mean_true_ll S13 = None"
    "mean_fit_ll S13 = None"
    "draws S13 = 9"
    "calls S13 = [Call_fit (hmm_of 6) [0, 0, 0, 1, 1, 1],
        Call_fit (hmm_of 6) [0, 0, 0, 1, 1, 1],
        Call_fit (hmm_of 4) [0, 1, 1, 1],
        Call_fit (hmm_of 4) [0, 1, 1, 1],
        Call_fit (hmm_of 4) [0, 0, 1, 1],
        Call_fit (hmm_of 4) [0, 0, 1, 1],
        Call_fit (hmm_of 4) [0, 0, 0, 1]]"
    by (simp_all add: S13_def F_S12)
  have y8_2_0: "y_train S12 ! 2 = [0, 0, 0, 1]" by (simp add: F_S12)
  have i8_2_0: "fit_fold_init demo_config demo_library 2 0 S12 = (None, S13)"
    using demo_fit_fold_step[OF F_S12(1) F_S12(22) demo_params_simps(8) y8_2_0 pass_fit_fold2_high, where j = 0]
    by (simp add: F_S12 S13_def demo_shapes)
  define S14 where "S14 = S13\<lparr>draws := 10,
      calls := [Call_fit (hmm_of 6) [0, 0, 0, 1, 1, 1],
          Call_fit (hmm_of 6) [0, 0, 0, 1, 1, 1],
          Call_fit (hmm_of 4) [0, 1, 1, 1],
          Call_fit (hmm_of 4) [0, 1, 1, 1],
          Call_fit (hmm_of 4) [0, 0, 1, 1],
          Call_fit (hmm_of 4) [0, 0, 1, 1],
          Call_fit (hmm_of 4) [0, 0, 0, 1],
          Call_fit (hmm_of 4) [0, 0, 0, 1]],
      A_all_cv := [[demo_A, demo_A], [demo_A, demo_A], [demo_A, demo_A]],
      phi_all_cv := [[phi_even, phi_low], [phi_even, phi_low], [phi_high, phi_even]],
      pi0 := uniform 2\<rparr>"
  have F_S14:
    "true_HMM S14 = hmm_of 4"
    "A_true S14 = demo_A"
    "phi_true S14 = phi_even"
    "pi_true S14 = [1 / 2, 1 / 2]"
    "true_y S14 = [0, 0, 0, 1, 1, 1]"
    "true_z S14 = [0, 0, 0, 0, 0, 0]"
    "lls_all S14 = [replicate lls_width (ln (1/64)), replicate lls_width (ln (27/4096))]"
    "A_all S14 = [demo_A, demo_A]"
    "phi_all S14 = [phi_even, phi_low]"
    "pi0 S14 = uniform 2"
    "bestix S14 = 0"
    "train_size S14 = 4"
    "test_size S14 = 2"
    "y_train S14 = [[0, 1, 1, 1], [0, 0, 1, 1], [0, 0, 0, 1]]"
    "y_test S14 = [[0, 0], [0, 1], [1, 1]]"
    "A_all_cv S14 = [[demo_A, demo_A], [demo_A, demo_A], [demo_A, demo_A]]"
    "phi_all_cv S14 = [[phi_even, phi_low], [phi_even, phi_low], [phi_high, phi_even]]"
    "true_ll S14 = []"
    "fit_ll S14 = []"
    "mean_true_ll S14 = None"
    "mean_fit_ll S14 = None"
    "draws S14 = 10"
    "calls S14 = [Call_fit (hmm_of 6) [0, 0, 0, 1, 1, 1],
        Call_fit (hmm_of 6) [0, 0, 0, 1, 1, 1],
        Call_fit (hmm_of 4) [0, 1, 1, 1],
        Call_fit (hmm_of 4) [0, 1, 1, 1],
        Call_fit (hmm_of 4) [0, 0, 1, 1],
        Call_fit (hmm_of 4) [0, 0, 1, 1],
        Call_fit (hmm_of 4) [0, 0, 0, 1],
        Call_fit (hmm_of 4) [0, 0, 0, 1]]"
    by (simp_all add: S14_def F_S13)
  have y8_2_1: "y_train S13 ! 2 = [0, 0, 0, 1]" by (simp add: F_S13)
  have i8_2_1: "fit_fold_init demo_config demo_library 2 1 S13 = (None, S14)"
    using demo_fit_fold_step[OF F_S13(1) F_S13(22) demo_params_simps(9) y8_2_1 pass_fit_fold2_even, where j = 1]
    by (simp add: F_S13 S14_def demo_shapes)
  have o8_2: "for_each [0..<2] (fit_fold_init demo_config demo_library 2) S12 = (None, S14)"
    by (rule for_each_two[OF i8_2_0 i8_2_1])
  have c8: "cell_cv_fit demo_config demo_library S7 = (None, S14)"
    unfolding cell_cv_fit_def demo_config_simps
    by (rule and_then_alloc, unfold a8,
        rule for_each_three[where body = "\<lambda>i. for_each [0..<2] (fit_fold_init demo_config demo_library i)",
          OF o8_0 o8_1 o8_2])
  define S15 where "S15 = S14\<lparr>true_HMM := hmm_of 2,
      true_ll := [0, 0, 0],
      fit_ll := [0, 0, 0]\<rparr>"
  have F_S15:
    "true_HMM S15 = hmm_of 2"
    "A_true S15 = demo_A"
    "phi_true S15 = phi_even"
    "pi_true S15 = [1 / 2, 1 / 2]"
    "true_y S15 = [0, 0, 0, 1, 1, 1]"
    "true_z S15 = [0, 0, 0, 0, 0, 0]"
    "lls_all S15 = [replicate lls_width (ln (1/64)), replicate lls_width (ln (27/4096))]"
    "A_all S15 = [demo_A, demo_A]"
    "phi_all S15 = [phi_even, phi_low]"
    "pi0 S15 = uniform 2"
    "bestix S15 = 0"
    "train_size S15 = 4"
    "test_size S15 = 2"
    "y_train S15 = [[0, 1, 1, 1], [0, 0, 1, 1], [0, 0, 0, 1]]"
    "y_test S15 = [[0, 0], [0, 1], [1, 1]]"
    "A_all_cv S15 = [[demo_A, demo_A], [demo_A, demo_A], [demo_A, demo_A]]"
    "phi_all_cv S15 = [[phi_even, phi_low], [phi_even, phi_low], [phi_high, phi_even]]"
    "true_ll S15 = [0, 0, 0]"
    "fit_ll S15 = [0, 0, 0]"
    "mean_true_ll S15 = None"
    "mean_fit_ll S15 = None"
    "draws S15 = 10"
    "calls S15 = [Call_fit (hmm_of 6) [0, 0, 0, 1, 1, 1],
        Call_fit (hmm_of 6) [0, 0, 0, 1, 1, 1],
        Call_fit (hmm_of 4) [0, 1, 1, 1],
        Call_fit (hmm_of 4) [0, 1, 1, 1],
        Call_fit (hmm_of 4) [0, 0, 1, 1],
        Call_fit (hmm_of 4) [0, 0, 1, 1],
        Call_fit (hmm_of 4) [0, 0, 0, 1],
        Call_fit (hmm_of 4) [0, 0, 0, 1]]"
    by (simp_all add: S15_def F_S14)
  have a9: "S14\<lparr>true_HMM := (true_HMM S14)\<lparr>hmm_n := test_size S14\<rparr>,
      true_ll := replicate 3 0, fit_ll := replicate 3 0\<rparr> = S15"
    by (simp add: S15_def zeros_small F_S14 hmm_of_simps)
  define S16 where "S16 = S15\<lparr>calls := [Call_fit (hmm_of 6) [0, 0, 0, 1, 1, 1],
      Call_fit (hmm_of 6) [0, 0, 0, 1, 1, 1],
      Call_fit (hmm_of 4) [0, 1, 1, 1],
      Call_fit (hmm_of 4) [0, 1, 1, 1],
      Call_fit (hmm_of 4) [0, 0, 1, 1],
      Call_fit (hmm_of 4) [0, 0, 1, 1],
      Call_fit (hmm_of 4) [0, 0, 0, 1],
      Call_fit (hmm_of 4) [0, 0, 0, 1],
      Call_forwardPass (hmm_of 2) [0, 0],
      Call_forwardPass (hmm_of 2) [0, 0]],
      true_ll := [ln (1/4), 0, 0],
      fit_ll := [ln (1/4), 0, 0]\<rparr>"
  have F_S16:
    "true_HMM S16 = hmm_of 2"
    "A_true S16 = demo_A"
    "phi_true S16 = phi_even"
    "pi_true S16 = [1 / 2, 1 / 2]"
    "true_y S16 = [0, 0, 0, 1, 1, 1]"
    "true_z S16 = [0, 0, 0, 0, 0, 0]"
    "lls_all S16 = [replicate lls_width (ln (1/64)), replicate lls_width (ln (27/4096))]"
    "A_all S16 = [demo_A, demo_A]"
    "phi_all S16 = [phi_even, phi_low]"
    "pi0 S16 = uniform 2"
    "bestix S16 = 0"
    "train_size S16 = 4"
    "test_size S16 = 2"
    "y_train S16 = [[0, 1, 1, 1], [0, 0, 1, 1], [0, 0, 0, 1]]"
    "y_test S16 = [[0, 0], [0, 1], [1, 1]]"
    "A_all_cv S16 = [[demo_A, demo_A], [demo_A, demo_A], [demo_A, demo_A]]"
    "phi_all_cv S16 = [[phi_even, phi_low], [phi_even, phi_low], [phi_high, phi_even]]"
    "true_ll S16 = [ln (1/4), 0, 0]"
    "fit_ll S16 = [ln (1/4), 0, 0]"
    "mean_true_ll S16 = None"
    "mean_fit_ll S16 = None"
    "draws S16 = 10"
    "calls S16 = [Call_fit (hmm_of 6) [0, 0, 0, 1, 1, 1],
        Call_fit (hmm_of 6) [0, 0, 0, 1, 1, 1],
        Call_fit (hmm_of 4) [0, 1, 1, 1],
        Call_fit (hmm_of 4) [0, 1, 1, 1],
        Call_fit (hmm_of 4) [0, 0, 1, 1],
        Call_fit (hmm_of 4) [0, 0, 1, 1],
        Call_fit (hmm_of 4) [0, 0, 0, 1],
        Call_fit (hmm_of 4) [0, 0, 0, 1],
        Call_forwardPass (hmm_of 2) [0, 0],
        Call_forwardPass (hmm_of 2) [0, 0]]"
    by (simp_all add: S16_def F_S15)
  have y9_0: "y_test S15 ! 0 = [0, 0]" "A_all_cv S15 ! 0 ! bestix S15 = demo_A"
    "phi_all_cv S15 ! 0 ! bestix S15 = phi_even"
    by (simp_all add: F_S15)
  have i9_0: "score_fold demo_library 0 S15 = (None, S16)"
    using demo_score_step[OF F_S15(1) y9_0(1) F_S15(2) F_S15(3) pass_score_test0_even y9_0(2) y9_0(3) pass_score_test0_even]
    by (simp add: F_S15 S16_def)
  define S17 where "S17 = S16\<lparr>calls := [Call_fit (hmm_of 6) [0, 0, 0, 1, 1, 1],
      Call_fit (hmm_of 6) [0, 0, 0, 1, 1, 1],
      Call_fit (hmm_of 4) [0, 1, 1, 1],
      Call_fit (hmm_of 4) [0, 1, 1, 1],
      Call_fit (hmm_of 4) [0, 0, 1, 1],
      Call_fit (hmm_of 4) [0, 0, 1, 1],
      Call_fit (hmm_of 4) [0, 0, 0, 1],
      Call_fit (hmm_of 4) [0, 0, 0, 1],
      Call_forwardPass (hmm_of 2) [0, 0],
      Call_forwardPass (hmm_of 2) [0, 0],
      Call_forwardPass (hmm_of 2) [0, 1],
      Call_forwardPass (hmm_of 2) [0, 1]],
      true_ll := [ln (1/4), ln (1/4), 0],
      fit_ll := [ln (1/4), ln (1/4), 0]\<rparr>"
  have F_S17:
    "true_HMM S17 = hmm_of 2"
    "A_true S17 = demo_A"
    "phi_true S17 = phi_even"
    "pi_true S17 = [1 / 2, 1 / 2]"
    "true_y S17 = [0, 0, 0, 1, 1, 1]"
    "true_z S17 = [0, 0, 0, 0, 0, 0]"
    "lls_all S17 = [replicate lls_width (ln (1/64)), replicate lls_width (ln (27/4096))]"
    "A_all S17 = [demo_A, demo_A]"
    "phi_all S17 = [phi_even, phi_low]"
    "pi0 S17 = uniform 2"
    "bestix S17 = 0"
    "train_size S17 = 4"
    "test_size S17 = 2"
    "y_train S17 = [[0, 1, 1, 1], [0, 0, 1, 1], [0, 0, 0, 1]]"
    "y_test S17 = [[0, 0], [0, 1], [1, 1]]"
    "A_all_cv S17 = [[demo_A, demo_A], [demo_A, demo_A], [demo_A, demo_A]]"
    "phi_all_cv S17 = [[phi_even, phi_low], [phi_even, phi_low], [phi_high, phi_even]]"
    "true_ll S17 = [ln (1/4), ln (1/4), 0]"
    "fit_ll S17 = [ln (1/4), ln (1/4), 0]"
    "mean_true_ll S17 = None"
    "mean_fit_ll S17 = None"
    "draws S17 = 10"
    "calls S17 = [Call_fit (hmm_of 6) [0, 0, 0, 1, 1, 1],
        Call_fit (hmm_of 6) [0, 0, 0, 1, 1, 1],
        Call_fit (hmm_of 4) [0, 1, 1, 1],
        Call_fit (hmm_of 4) [0, 1, 1, 1],
        Call_fit (hmm_of 4) [0, 0, 1, 1],
        Call_fit (hmm_of 4) [0, 0, 1, 1],
        Call_fit (hmm_of 4) [0, 0, 0, 1],
        Call_fit (hmm_of 4) [0, 0, 0, 1],
        Call_forwardPass (hmm_of 2) [0, 0],
        Call_forwardPass (hmm_of 2) [0, 0],
        Call_forwardPass (hmm_of 2) [0, 1],
        Call_forwardPass (hmm_of 2) [0, 1]]"
    by (simp_all add: S17_def F_S16)
  have y9_1: "y_test S16 ! 1 = [0, 1]" "A_all_cv S16 ! 1 ! bestix S16 = demo_A"
    "phi_all_cv S16 ! 1 ! bestix S16 = phi_even"
    by (simp_all add: F_S16)
  have i9_1: "score_fold demo_library 1 S16 = (None, S17)"
    using demo_score_step[OF F_S16(1) y9_1(1) F_S16(2) F_S16(3) pass_score_test1_even y9_1(2) y9_1(3) pass_score_test1_even]
    by (simp add: F_S16 S17_def)
  define S18 where "S18 = S17\<lparr>calls := [Call_fit (hmm_of 6) [0, 0, 0, 1, 1, 1],
      Call_fit (hmm_of 6) [0, 0, 0, 1, 1, 1],
      Call_fit (hmm_of 4) [0, 1, 1, 1],
      Call_fit (hmm_of 4) [0, 1, 1, 1],
      Call_fit (hmm_of 4) [0, 0, 1, 1],
      Call_fit (hmm_of 4) [0, 0, 1, 1],
      Call_fit (hmm_of 4) [0, 0, 0, 1],
      Call_fit (hmm_of 4) [0, 0, 0, 1],
      Call_forwardPass (hmm_of 2) [0, 0],
      Call_forwardPass (hmm_of 2) [0, 0],
      Call_forwardPass (hmm_of 2) [0, 1],
      Call_forwardPass (hmm_of 2) [0, 1],
      Call_forwardPass (hmm_of 2) [1, 1],
      Call_forwardPass (hmm_of 2) [1, 1]],
      true_ll := [ln (1/4), ln (1/4), ln (1/4)],
      fit_ll := [ln (1/4), ln (1/4), ln (1/16)]\<rparr>"
  have F_S18:
    "true_HMM S18 = hmm_of 2"
    "A_true S18 = demo_A"
    "phi_true S18 = phi_even"
    "pi_true S18 = [1 / 2, 1 / 2]"
    "true_y S18 = [0, 0, 0, 1, 1, 1]"
    "true_z S18 = [0, 0, 0, 0, 0, 0]"
    "lls_all S18 = [replicate lls_width (ln (1/64)), replicate lls_width (ln (27/4096))]"
    "A_all S18 = [demo_A, demo_A]"
    "phi_all S18 = [phi_even, phi_low]"
    "pi0 S18 = uniform 2"
    "bestix S18 = 0"
    "train_size S18 = 4"
    "test_size S18 = 2"
    "y_train S18 = [[0, 1, 1, 1], [0, 0, 1, 1], [0, 0, 0, 1]]"
    "y_test S18 = [[0, 0], [0, 1], [1, 1]]"
    "A_all_cv S18 = [[demo_A, demo_A], [demo_A, demo_A], [demo_A, demo_A]]"
    "phi_all_cv S18 = [[phi_even, phi_low], [phi_even, phi_low], [phi_high, phi_even]]"
    "true_ll S18 = [ln (1/4), ln (1/4), ln (1/4)]"
    "fit_ll S18 = [ln (1/4), ln (1/4), ln (1/16)]"
    "mean_true_ll S18 = None"
    "mean_fit_ll S18 = None"
    "draws S18 = 10"
    "calls S18 = [Call_fit (hmm_of 6) [0, 0, 0, 1, 1, 1],
        Call_fit (hmm_of 6) [0, 0, 0, 1, 1, 1],
        Call_fit (hmm_of 4) [0, 1, 1, 1],
        Call_fit (hmm_of 4) [0, 1, 1, 1],
        Call_fit (hmm_of 4) [0, 0, 1, 1],
        Call_fit (hmm_of 4) [0, 0, 1, 1],
        Call_fit (hmm_of 4) [0, 0, 0, 1],
        Call_fit (hmm_of 4) [0, 0, 0, 1],
        Call_forwardPass (hmm_of 2) [0, 0],
        Call_forwardPass (hmm_of 2) [0, 0],
        Call_forwardPass (hmm_of 2) [0, 1],
        Call_forwardPass (hmm_of 2) [0, 1],
        Call_forwardPass (hmm_of 2) [1, 1],
        Call_forwardPass (hmm_of 2) [1, 1]]"
    by (simp_all add: S18_def F_S17)
  have y9_2: "y_test S17 ! 2 = [1, 1]" "A_all_cv S17 ! 2 ! bestix S17 = demo_A"
    "phi_all_cv S17 ! 2 ! bestix S17 = phi_high"
    by (simp_all add: F_S17)
  have i9_2: "score_fold demo_library 2 S17 = (None, S18)"
    using demo_score_step[OF F_S17(1) y9_2(1) F_S17(2) F_S17(3) pass_score_test2_even y9_2(2) y9_2(3) pass_score_test2_high]
    by (simp add: F_S17 S18_def)
  define S19 where "S19 = S18\<lparr>mean_true_ll := Some ((ln (1/4) + ln (1/4) + ln (1/4)) / 3),
      mean_fit_ll := Some ((ln (1/4) + ln (1/4) + ln (1/16)) / 3)\<rparr>"
  have F_S19:
    "true_HMM S19 = hmm_of 2"
    "A_true S19 = demo_A"
    "phi_true S19 = phi_even"
    "pi_true S19 = [1 / 2, 1 / 2]"
    "true_y S19 = [0, 0, 0, 1, 1, 1]"
    "true_z S19 = [0, 0, 0, 0, 0, 0]"
    "lls_all S19 = [replicate lls_width (ln (1/64)), replicate lls_width (ln (27/4096))]"
    "A_all S19 = [demo_A, demo_A]"
    "phi_all S19 = [phi_even, phi_low]"
    "pi0 S19 = uniform 2"
    "bestix S19 = 0"
    "train_size S19 = 4"
    "test_size S19 = 2"
    "y_train S19 = [[0, 1, 1, 1], [0, 0, 1, 1], [0, 0, 0, 1]]"
    "y_test S19 = [[0, 0], [0, 1], [1, 1]]"
    "A_all_cv S19 = [[demo_A, demo_A], [demo_A, demo_A], [demo_A, demo_A]]"
    "phi_all_cv S19 = [[phi_even, phi_low], [phi_even, phi_low], [phi_high, phi_even]]"
    "true_ll S19 = [ln (1/4), ln (1/4), ln (1/4)]"
    "fit_ll S19 = [ln (1/4), ln (1/4), ln (1/16)]"
    "mean_true_ll S19 = Some ((ln (1/4) + ln (1/4) + ln (1/4)) / 3)"
    "mean_fit_ll S19 = Some ((ln (1/4) + ln (1/4) + ln (1/16)) / 3)"
    "draws S19 = 10"
    "calls S19 = [Call_fit (hmm_of 6) [0, 0, 0, 1, 1, 1],
        Call_fit (hmm_of 6) [0, 0, 0, 1, 1, 1],
        Call_fit (hmm_of 4) [0, 1, 1, 1],
        Call_fit (hmm_of 4) [0, 1, 1, 1],
        Call_fit (hmm_of 4) [0, 0, 1, 1],
        Call_fit (hmm_of 4) [0, 0, 1, 1],
        Call_fit (hmm_of 4) [0, 0, 0, 1],
        Call_fit (hmm_of 4) [0, 0, 0, 1],
        Call_forwardPass (hmm_of 2) [0, 0],
        Call_forwardPass (hmm_of 2) [0, 0],
        Call_forwardPass (hmm_of 2) [0, 1],
        Call_forwardPass (hmm_of 2) [0, 1],
        Call_forwardPass (hmm_of 2) [1, 1],
        Call_forwardPass (hmm_of 2) [1, 1]]"
    by (simp_all add: S19_def F_S18)
  have m9: "S18\<lparr>mean_true_ll := mean (true_ll S18), mean_fit_ll := mean (fit_ll S18)\<rparr> = S19"
    by (simp add: S19_def F_S18 mean_def)
  have c9: "cell_score demo_config demo_library S14 = (None, S19)"
    unfolding cell_score_def demo_config_simps
    by (rule and_then_alloc, unfold a9, rule and_then_ok,
        rule for_each_three[OF i9_0 i9_1 i9_2], unfold m9, rule refl)
  have fin: "S19 = demo_final"
    by (rule nb_state.equality) (simp_all add: F_S19 demo_final_def)
  show ?thesis
    unfolding run_notebook_def fin[symmetric]
    by (rule and_then_ok, rule c3, rule and_then_ok, rule c4, rule and_then_ok, rule c5,
        rule and_then_ok, rule c6, rule and_then_ok, rule c7, rule and_then_ok, rule c8, rule c9)
qed

subsection \<open>The theorems at the run\<close>

text \<open>
  The run above makes fourteen calls, and the theorem on the field \<open>n\<close> applies to it.
\<close>

theorem every_call_has_n_equal_to_sequence_length_witness:
  "generates_n_points demo_library \<and>
   length (calls (snd (run_notebook demo_config demo_library))) = 14 \<and>
   list_all n_matches (calls (snd (run_notebook demo_config demo_library)))"
proof -
  have g: "generates_n_points demo_library"
    by (simp add: generates_n_points_def demo_library_def demo_data_def)
  have len: "length (calls (snd (run_notebook demo_config demo_library))) = 14"
    by (simp add: demo_run demo_final_def)
  show ?thesis
    using every_call_has_n_equal_to_sequence_length[OF g, of demo_config] g len
    by (simp only: list_all_iff simp_thms)
qed

text \<open>
  Three trajectories, the last two ending in the same largest value: the selection
  returns the first of the two.
\<close>

theorem find_best_fit_selects_first_maximal_final_value_witness:
  "find_best_fit [[1, 2], [3, 4], [0, 4]] = Inr 1"
proof -
  let ?L = "[[1, 2], [3, 4], [0, 4 :: real]]"
  note t = find_best_fit_selects_first_maximal_final_value[of ?L]
  from t obtain b where b: "find_best_fit ?L = Inr b" by auto
  with t have lt: "b < 3"
    and mx: "\<forall>j<3. last (?L ! j) \<le> last (?L ! b)"
    and fst: "\<forall>j<b. last (?L ! j) < last (?L ! b)" by auto
  from lt have "b = 0 \<or> b = 1 \<or> b = 2" by arith
  moreover have "b \<noteq> 0"
  proof
    assume "b = 0"
    with mx[rule_format, of 1] show False by simp
  qed
  moreover have "b \<noteq> 2"
  proof
    assume "b = 2"
    with fst[rule_format, of 1] show False by simp
  qed
  ultimately show ?thesis using b by simp
qed

text \<open>
  The forward pass over the sequence \<open>[0, 1]\<close> with the uniform transition matrix: the
  likelihood is \<open>1/4\<close>, from \<open>\<alpha>\<^sub>2 = (1/16, 3/16)\<close>.
\<close>

theorem forwardPass_is_the_forward_recursion_witness:
  "valid_params 2 2 demo_A phi_even (initial_distribution 2 None) \<and>
   (\<exists>alpha cs.
      forwardPass (hmm_of 2) [0, 1] demo_A phi_even None = Inr (ln (1/4), alpha, cs) \<and>
      length alpha = 2 \<and> unscaled alpha cs 1 0 = 1/16 \<and> unscaled alpha cs 1 1 = 3/16)"
proof -
  have v: "valid_params 2 2 demo_A phi_even (initial_distribution 2 None)"
    by (simp add: valid_params_def well_shaped_def stochastic_def demo_A_def phi_even_def
        initial_distribution_def uniform_def numeral_2_eq_2)
  have two: "{..<2::nat} = {0, 1}" by auto
  have a0: "alpha_spec 2 demo_A phi_even (initial_distribution 2 None) [0, 1] 0 0 = 3/8"
    "alpha_spec 2 demo_A phi_even (initial_distribution 2 None) [0, 1] 0 1 = 1/8"
    by (simp_all add: demo_A_def phi_even_def initial_distribution_def uniform_def)
  have a1: "alpha_spec 2 demo_A phi_even (initial_distribution 2 None) [0, 1] 1 0 = 1/16"
    "alpha_spec 2 demo_A phi_even (initial_distribution 2 None) [0, 1] 1 1 = 3/16"
    using a0 by (simp_all add: two demo_A_def phi_even_def)
  have lk: "likelihood_spec 2 demo_A phi_even (initial_distribution 2 None) [0, 1] = 1/4"
    using a1 by (simp add: likelihood_spec_def two)
  have h: "hmm_k (hmm_of 2) = 2" "hmm_c (hmm_of 2) = 2" "hmm_n (hmm_of 2) = 2"
    by (simp_all add: hmm_of_def)
  have sym: "\<forall>t<length [0, 1::nat]. [0, 1] ! t < hmm_c (hmm_of 2)"
    by (simp add: h less_Suc_eq)
  have v': "valid_params (hmm_k (hmm_of 2)) (hmm_c (hmm_of 2)) demo_A phi_even
      (initial_distribution (hmm_k (hmm_of 2)) None)"
    using v by (simp only: h)
  have n: "hmm_n (hmm_of 2) = length [0, 1::nat]" by (simp add: h)
  have T: "1 \<le> length [0, 1::nat]" by simp
  have len: "length [0, 1::nat] = 2" by simp
  have pos: "0 < likelihood_spec (hmm_k (hmm_of 2)) demo_A phi_even
      (initial_distribution (hmm_k (hmm_of 2)) None) [0, 1]"
    unfolding h lk by simp
  from forwardPass_is_the_forward_recursion[OF v' n T sym] pos
  have "\<exists>alpha cs.
      forwardPass (hmm_of 2) [0, 1] demo_A phi_even None =
        Inr (ln (likelihood_spec (hmm_k (hmm_of 2)) demo_A phi_even
               (initial_distribution (hmm_k (hmm_of 2)) None) [0, 1]), alpha, cs) \<and>
      length alpha = length [0, 1::nat] \<and>
      (\<forall>t<length [0, 1::nat]. \<forall>k<hmm_k (hmm_of 2).
         unscaled alpha cs t k =
           alpha_spec (hmm_k (hmm_of 2)) demo_A phi_even
             (initial_distribution (hmm_k (hmm_of 2)) None) [0, 1] t k)"
    by (simp only: if_True)
  then obtain alpha cs where
    r: "forwardPass (hmm_of 2) [0, 1] demo_A phi_even None = Inr (ln (1/4), alpha, cs)"
      "length alpha = 2"
      "\<forall>t<2. \<forall>k<2. unscaled alpha cs t k =
          alpha_spec 2 demo_A phi_even (initial_distribution 2 None) [0, 1] t k"
    unfolding h lk len by blast
  from r(3) have "unscaled alpha cs 1 0 = 1/16" "unscaled alpha cs 1 1 = 3/16"
    using a1 by auto
  with v r(1,2) show ?thesis by blast
qed

subsection \<open>The held-out score of a fold\<close>

text \<open>
  Claim C1 at the run on \<open>demo_config\<close>.  The claim scores a fold with the parameters of
  the initialization whose training log likelihood on that fold is largest.  Cell 8
  drops the trajectories of the per-fold fits, and cell 9 reads \<open>A_all[i,bestix]\<close> with
  the \<open>bestix\<close> that cell 6 computed from the fits to the whole data, of other drawn
  initial parameters.  In the run, \<open>bestix\<close> is 0; on fold 0 the fit of initialization 0
  ends at \<open>ln (1/16)\<close> and that of initialization 1 at \<open>ln (27/256)\<close>, so the fold's best
  fit is initialization 1, whose parameters give the test rows the log likelihood
  \<open>ln (1/16)\<close>; the notebook reports \<open>ln (1/4)\<close>, from initialization 0.
\<close>

theorem held_out_score_uses_the_full_data_winner:
  "run_notebook demo_config demo_library = (None, demo_final) \<and>
   bestix demo_final = 0 \<and>
   find_best_fit (lls_all demo_final) = Inr 0 \<and>
   lib_fit demo_library (hmm_of 4) (y_train demo_final ! 0) demo_A phi_even =
     Inr (replicate lls_width (ln (1/16)), A_all_cv demo_final ! 0 ! 0,
          phi_all_cv demo_final ! 0 ! 0, uniform 2) \<and>
   lib_fit demo_library (hmm_of 4) (y_train demo_final ! 0) demo_A phi_low =
     Inr (replicate lls_width (ln (27/256)), A_all_cv demo_final ! 0 ! 1,
          phi_all_cv demo_final ! 0 ! 1, uniform 2) \<and>
   find_best_fit [replicate lls_width (ln (1/16)), replicate lls_width (ln (27/256))] = Inr 1 \<and>
   map_sum id fst
     (lib_forwardPass demo_library (hmm_of 2) (y_test demo_final ! 0)
        (A_all_cv demo_final ! 0 ! 1) (phi_all_cv demo_final ! 0 ! 1) None) = Inr (ln (1/16)) \<and>
   fit_ll demo_final ! 0 = ln (1/4) \<and>
   ln (1/4) \<noteq> ln (1/16 :: real)"
proof -
  have f: "bestix demo_final = 0" "y_train demo_final ! 0 = [0, 1, 1, 1]"
    "y_test demo_final ! 0 = [0, 0]"
    "A_all_cv demo_final ! 0 ! 0 = demo_A" "A_all_cv demo_final ! 0 ! 1 = demo_A"
    "phi_all_cv demo_final ! 0 ! 0 = phi_even" "phi_all_cv demo_final ! 0 ! 1 = phi_low"
    "fit_ll demo_final ! 0 = ln (1/4)"
    "lls_all demo_final = [replicate lls_width (ln (1/64)), replicate lls_width (ln (27/4096))]"
    by (simp_all add: demo_final_def)
  have e: "lib_fit demo_library (hmm_of 4) [0, 1, 1, 1] demo_A phi_even =
      Inr (replicate lls_width (ln (1/16)), demo_A, phi_even, uniform 2)"
    using demo_fit_eval[OF pass_fit_fold0_even] by (simp add: demo_library_simps hmm_of_simps)
  have l: "lib_fit demo_library (hmm_of 4) [0, 1, 1, 1] demo_A phi_low =
      Inr (replicate lls_width (ln (27/256)), demo_A, phi_low, uniform 2)"
    using demo_fit_eval[OF pass_fit_fold0_low] by (simp add: demo_library_simps hmm_of_simps)
  have w: "find_best_fit [replicate lls_width (ln (1/16)), replicate lls_width (ln (27/256))] = Inr 1"
    by (simp add: find_best_fit_def argmax_def lls_width_pos)
  have p: "map_sum id fst (lib_forwardPass demo_library (hmm_of 2) [0, 0] demo_A phi_low None)
      = Inr (ln (1/16))"
    by (simp add: demo_library_simps pass_score_test0_low)
  have d: "ln (1/4) \<noteq> ln (1/16 :: real)" by simp
  show ?thesis
    unfolding f by (intro conjI demo_run demo_best e l w p d refl)
qed

end
